theory Spec2Isabelle
  imports Main "HOL-Library.Word"
begin

unbundle bit_operations_syntax

section \<open>JavaScript strings\<close>

text \<open>
  Strings of the program are modelled as \<^typ>\<open>string\<close>.  The white space of
  \<^verbatim>\<open>String.prototype.trim\<close> and of the regular expression class \<^verbatim>\<open>\s\<close> is the same
  set of code units; within the character range of \<^typ>\<open>char\<close> these are TAB, LF, VT, FF,
  CR, SPACE and NBSP.
\<close>

definition is_ws :: "char \<Rightarrow> bool" where
  "is_ws c = (of_char c \<in> {9, 10, 11, 12, 13, 32, 160 :: nat})"

definition trim :: "string \<Rightarrow> string" where
  "trim s = rev (dropWhile is_ws (rev (dropWhile is_ws s)))"

text \<open>\<^verbatim>\<open>s.split(/\s+/)\<close>: the pieces between maximal runs of white space.\<close>

function split_ws :: "string \<Rightarrow> string \<Rightarrow> string list" where
  "split_ws cur [] = [cur]"
| "split_ws cur (c # cs) =
     (if is_ws c then cur # split_ws [] (dropWhile is_ws cs)
      else split_ws (cur @ [c]) cs)"
  by pat_completeness auto
termination
  by (relation "measure (\<lambda>(cur, s). length s)")
     (auto simp: length_dropWhile_le less_Suc_eq_le)

text \<open>\<^verbatim>\<open>.filter(Boolean)\<close> on a list of strings drops the empty ones.\<close>

definition filter_Boolean :: "string list \<Rightarrow> string list" where
  "filter_Boolean ws = filter (\<lambda>w. w \<noteq> []) ws"

definition startsWith :: "string \<Rightarrow> string \<Rightarrow> bool" where
  "startsWith s p = (take (length p) s = p)"

text \<open>
  \<^verbatim>\<open>/p/i.test(s)\<close> for a pattern \<open>p\<close> of lower-case ASCII letters, spaces and hyphens:
  some window of \<open>s\<close> equals \<open>p\<close> up to the case of ASCII letters.
\<close>

definition lower_ascii :: "char \<Rightarrow> char" where
  "lower_ascii c =
     (if 65 \<le> (of_char c :: nat) \<and> (of_char c :: nat) \<le> 90
      then char_of ((of_char c :: nat) + 32) else c)"

fun test_ci :: "string \<Rightarrow> string \<Rightarrow> bool" where
  "test_ci p [] = (p = [])"
| "test_ci p (c # cs) =
     (map lower_ascii (take (length p) (c # cs)) = p \<or> test_ci p cs)"

section \<open>Errors and the ethers environment\<close>

text \<open>A thrown JavaScript error: its \<^verbatim>\<open>code\<close> (empty when absent) and its \<^verbatim>\<open>message\<close>.\<close>

record js_error =
  err_code :: string
  err_message :: string

record fee_data =
  fd_maxFeePerGas :: "int option"
  fd_gasPrice :: "int option"
  fd_maxPriorityFeePerGas :: "int option"

record fee_options =
  maxFeePerGas :: int
  maxPriorityFeePerGas :: int

text \<open>The object passed to \<^verbatim>\<open>provider.estimateGas\<close>.\<close>

record estimate_request =
  er_to :: string
  er_from :: string
  er_value :: int

text \<open>The object passed to \<^verbatim>\<open>wallet.sendTransaction\<close>.\<close>

record tx_request =
  tx_to :: string
  tx_value :: int
  tx_gasLimit :: int
  tx_fees :: fee_options
  tx_nonce :: nat

text \<open>
  The ethers library, the JSON-RPC node behind it and the timer are outside the
  repository.  They are a parameter of the model: a record of operations over a world
  \<open>'w\<close> that every asynchronous call may read and change.  A rejected promise is the
  \<open>Inl\<close> of a sum.  A wallet is identified by its address.
\<close>

record 'w ethers =
  Wallet_fromPhrase :: "string \<Rightarrow> string \<Rightarrow> js_error + string"
  Wallet_new :: "string \<Rightarrow> js_error + string"
  parseEther :: "string \<Rightarrow> js_error + int"
  isAddress :: "string \<Rightarrow> bool"
  getFeeData :: "'w \<Rightarrow> (js_error + fee_data) \<times> 'w"
  getTransactionCount :: "string \<Rightarrow> 'w \<Rightarrow> (js_error + nat) \<times> 'w"
  getBalance :: "string \<Rightarrow> 'w \<Rightarrow> (js_error + int) \<times> 'w"
  estimateGas :: "estimate_request \<Rightarrow> 'w \<Rightarrow> (js_error + int) \<times> 'w"
  sendTransaction :: "string \<Rightarrow> tx_request \<Rightarrow> 'w \<Rightarrow> (js_error + string) \<times> 'w"
  tx_wait :: "string \<Rightarrow> 'w \<Rightarrow> js_error option \<times> 'w"
  waitForTransaction :: "string \<Rightarrow> 'w \<Rightarrow> js_error option \<times> 'w"
  delay :: "int \<Rightarrow> 'w \<Rightarrow> 'w"

section \<open>Funding secret: backend and frontend\<close>

text \<open>
  \<^verbatim>\<open>FUNDING_PATH = process.env.TX_SERVER_MNEMONIC_PATH || "m/44'/60'/0'/0/0"\<close>, with the value of
  the environment variable as argument (empty when unset).
\<close>

definition DEFAULT_ETH_PATH :: string where
  "DEFAULT_ETH_PATH = ''m/44'/60'/0'/0/0''"

definition FUNDING_PATH :: "string \<Rightarrow> string" where
  "FUNDING_PATH env_path = (if env_path = [] then DEFAULT_ETH_PATH else env_path)"

datatype app_error =
    FundingSecretRequired
  | RecipientsRequired
  | RpcUrlRequired
  | AmountRequired
  | EntriesRequired
  | ReclaimAddressRequired
  | InvalidFundingInput
  | Thrown js_error

definition lift_js :: "js_error + 'a \<Rightarrow> app_error + 'a" where
  "lift_js r = (case r of Inl e \<Rightarrow> Inl (Thrown e) | Inr v \<Rightarrow> Inr v)"

text \<open>\<^verbatim>\<open>resolveFundingWallet\<close> of scripts/tx-server.js.\<close>

definition resolveFundingWallet :: "'w ethers \<Rightarrow> string \<Rightarrow> string \<Rightarrow> string \<Rightarrow> app_error + string" where
  "resolveFundingWallet E env_path secret path =
     (let trimmed = trim secret in
      if trimmed = [] then Inl FundingSecretRequired
      else
        let words = filter_Boolean (split_ws [] trimmed) in
        if length words \<ge> 12
        then lift_js (Wallet_fromPhrase E trimmed (if path = [] then FUNDING_PATH env_path else path))
        else
          let key = (if startsWith trimmed ''0x'' then trimmed else ''0x'' @ trimmed)
          in lift_js (Wallet_new E key))"

text \<open>\<^verbatim>\<open>guessSecretType\<close> and \<^verbatim>\<open>resolveFundingWallet\<close> of the frontend component.\<close>

datatype secret_type = Mnemonic | PrivateKey | Unknown

definition guessSecretType :: "string \<Rightarrow> secret_type" where
  "guessSecretType v =
     (let trimmed = trim v;
          words = filter_Boolean (split_ws [] trimmed)
      in if length words \<ge> 12 then Mnemonic
         else if startsWith trimmed ''0x'' \<and> length trimmed \<ge> 64 then PrivateKey
         else if \<not> startsWith trimmed ''0x'' \<and> length trimmed \<ge> 64 then PrivateKey
         else Unknown)"

definition resolveFundingWallet_gui :: "'w ethers \<Rightarrow> string \<Rightarrow> string \<Rightarrow> app_error + string" where
  "resolveFundingWallet_gui E fundingSecret fundingPath =
     (let trimmed = trim fundingSecret in
      case guessSecretType trimmed of
        Mnemonic \<Rightarrow> lift_js (Wallet_fromPhrase E trimmed fundingPath)
      | PrivateKey \<Rightarrow>
          lift_js (Wallet_new E (if startsWith trimmed ''0x'' then trimmed else ''0x'' @ trimmed))
      | Unknown \<Rightarrow> Inl InvalidFundingInput)"

section \<open>Batch state, logs and fee options\<close>

text \<open>
  A label is the text \<^verbatim>\<open>`${i + 1}/${total} ${short address}`\<close>: the position, the total and
  the shortened address.
\<close>

datatype label = Label nat nat string

text \<open>
  The lines pushed to the log.  Each constructor stands for one message template of
  the source: submitted (with the hash), confirmed, waiting for the in-flight limit,
  submitted by the retry (with the hash), sending failed (with the error message),
  skipped for a missing private key, skipped for an insufficient balance, reclaiming
  failed (with the error message), and the messages of the frontend before and around
  its loops.
\<close>

datatype log_line =
    Submitted label string
  | Confirmed label
  | WaitingInFlight label
  | RetrySubmitted label string
  | SendFailed label string
  | NoKeySkipped label
  | InsufficientSkipped label
  | ReclaimFailed label string
  | EnterFundingSecret
  | EnterRpcUrl
  | SelectRecipient
  | InvalidAmount
  | SendFlowFailed app_error
  | EnterReclaimAddress
  | SelectAccount
  | InvalidReserve
  | ReclaimFlowFailed app_error

text \<open>
  Every call of \<^verbatim>\<open>wallet.sendTransaction\<close> is recorded, in order, with the index of the
  recipient or account, whether it is the call of the retry block, the sender, the
  transaction and the outcome (the error, or the hash).  The record is not a variable of
  the program; it is what the node observes.
\<close>

record submission =
  sub_index :: nat
  sub_retry :: bool
  sub_from :: string
  sub_tx :: tx_request
  sub_result :: "js_error + string"

record 'w run_state =
  world :: 'w
  logs :: "log_line list"
  submissions :: "submission list"

record 'w send_state = "'w run_state" +
  nextNonce :: nat
  lastSubmittedHash :: "string option"

definition FALLBACK_PRIORITY_FEE :: int where
  "FALLBACK_PRIORITY_FEE = 50000000"

definition GAS_LIMIT_FALLBACK :: int where
  "GAS_LIMIT_FALLBACK = 60000"

text \<open>\<^verbatim>\<open>a || b\<close> on an optional BigInt: \<^verbatim>\<open>null\<close>, \<^verbatim>\<open>undefined\<close> and \<^verbatim>\<open>0n\<close> are falsy.\<close>

definition js_or :: "int option \<Rightarrow> int \<Rightarrow> int" where
  "js_or a b = (case a of None \<Rightarrow> b | Some v \<Rightarrow> if v = 0 then b else v)"

definition getFeeOptions :: "'w ethers \<Rightarrow> 'w \<Rightarrow> (js_error + fee_options) \<times> 'w" where
  "getFeeOptions E w =
     (case getFeeData E w of
        (Inl e, w') \<Rightarrow> (Inl e, w')
      | (Inr feeData, w') \<Rightarrow>
          (Inr \<lparr> maxFeePerGas =
                   js_or (fd_maxFeePerGas feeData)
                     (js_or (fd_gasPrice feeData) FALLBACK_PRIORITY_FEE),
                 maxPriorityFeePerGas =
                   js_or (fd_maxPriorityFeePerGas feeData) FALLBACK_PRIORITY_FEE \<rparr>, w'))"

definition isNonceError :: "js_error \<Rightarrow> bool" where
  "isNonceError error =
     (err_code error = ''NONCE_EXPIRED''
      \<or> test_ci ''nonce too low'' (err_message error)
      \<or> test_ci ''already been used'' (err_message error))"

definition isInFlightLimitError :: "js_error \<Rightarrow> bool" where
  "isInFlightLimitError error = test_ci ''in-flight transaction limit'' (err_message error)"

definition addGasBuffer :: "int \<Rightarrow> int" where
  "addGasBuffer gasLimit = (if gasLimit \<le> 0 then gasLimit else gasLimit + gasLimit div 5)"

definition estimateGasLimit :: "'w ethers \<Rightarrow> estimate_request \<Rightarrow> int \<Rightarrow> 'w \<Rightarrow> int \<times> 'w" where
  "estimateGasLimit E tx fallback w =
     (case estimateGas E tx w of
        (Inr estimate, w') \<Rightarrow> (addGasBuffer estimate, w')
      | (Inl error, w') \<Rightarrow> (fallback, w'))"

text \<open>\<^verbatim>\<open>s.slice(-n)\<close>: the last \<open>n\<close> code units (all of \<open>s\<close> when it is shorter).\<close>

definition slice_last :: "nat \<Rightarrow> string \<Rightarrow> string" where
  "slice_last n s = drop (length s - n) s"

definition short_addr :: "string \<Rightarrow> string" where
  "short_addr to = take 6 to @ ''...'' @ slice_last 4 to"

text \<open>\<^verbatim>\<open>formatAddress(address, 6, 4)\<close> of the frontend utilities.\<close>

definition formatAddress :: "string \<Rightarrow> string" where
  "formatAddress address =
     (if address = [] \<or> length address < 6 + 4 then address
      else take 6 address @ ''...'' @ slice_last 4 address)"

text \<open>\<^verbatim>\<open>if (lastSubmittedHash)\<close>: \<^verbatim>\<open>null\<close> and the empty string are falsy.\<close>

definition truthy_hash :: "string option \<Rightarrow> bool" where
  "truthy_hash h = (case h of None \<Rightarrow> False | Some x \<Rightarrow> x \<noteq> [])"

section \<open>The batch broadcaster\<close>

record send_params =
  sp_wallet :: string
  sp_value :: int
  sp_fees :: fee_options
  sp_waitConfirm :: bool
  sp_delayMs :: int

text \<open>
  The statements that both the \<^verbatim>\<open>try\<close> block and the retry block of the broadcasters
  run: build the transaction with \<^verbatim>\<open>nonce: nextNonce\<close> and send it; when the promise
  resolves, \<^verbatim>\<open>nextNonce += 1\<close>, remember the hash, log the submission and, if
  \<^verbatim>\<open>waitConfirm\<close>, wait for one confirmation and log it.  The result is the error thrown
  (by \<^verbatim>\<open>sendTransaction\<close> or by \<^verbatim>\<open>wait\<close>), if any, with the state at that point.
\<close>

definition submit ::
  "'w ethers \<Rightarrow> send_params \<Rightarrow> nat \<Rightarrow> bool \<Rightarrow> label \<Rightarrow> string \<Rightarrow> int
     \<Rightarrow> 'w send_state \<Rightarrow> js_error option \<times> 'w send_state" where
  "submit E P i is_retry lbl to gasLimit s =
     (let tx = \<lparr> tx_to = to, tx_value = sp_value P, tx_gasLimit = gasLimit,
                 tx_fees = sp_fees P, tx_nonce = nextNonce s \<rparr>
      in case sendTransaction E (sp_wallet P) tx (world s) of
           (Inl error, w) \<Rightarrow>
             (Some error,
              s\<lparr> world := w,
                 submissions := submissions s @
                   [\<lparr> sub_index = i, sub_retry = is_retry, sub_from = sp_wallet P,
                      sub_tx = tx, sub_result = Inl error \<rparr>] \<rparr>)
         | (Inr hash, w) \<Rightarrow>
             (let s1 = s\<lparr> world := w,
                          submissions := submissions s @
                            [\<lparr> sub_index = i, sub_retry = is_retry, sub_from = sp_wallet P,
                               sub_tx = tx, sub_result = Inr hash \<rparr>],
                          nextNonce := nextNonce s + 1,
                          lastSubmittedHash := Some hash,
                          logs := logs s @
                            [if is_retry then RetrySubmitted lbl hash else Submitted lbl hash] \<rparr>
              in if sp_waitConfirm P then
                   (case tx_wait E hash w of
                      (Some error, w') \<Rightarrow> (Some error, s1\<lparr> world := w' \<rparr>)
                    | (None, w') \<Rightarrow>
                        (None, s1\<lparr> world := w', logs := logs s1 @ [Confirmed lbl] \<rparr>))
                 else (None, s1)))"

text \<open>
  The wait of the in-flight branch: log, then wait for the last submitted hash, or
  sleep \<^verbatim>\<open>Math.max(delayMs, 2000)\<close> when nothing was submitted yet.
\<close>

definition awaitInFlight ::
  "'w ethers \<Rightarrow> send_params \<Rightarrow> label \<Rightarrow> 'w send_state \<Rightarrow> js_error option \<times> 'w send_state" where
  "awaitInFlight E P lbl s =
     (let s1 = s\<lparr> logs := logs s @ [WaitingInFlight lbl] \<rparr>
      in if truthy_hash (lastSubmittedHash s1) then
           (case waitForTransaction E (the (lastSubmittedHash s1)) (world s1) of
              (r, w) \<Rightarrow> (r, s1\<lparr> world := w \<rparr>))
         else (None, s1\<lparr> world := delay E (max (sp_delayMs P) 2000) (world s1) \<rparr>))"

text \<open>Re-fetch the pending nonce into \<^verbatim>\<open>nextNonce\<close> and send again.\<close>

definition refetchAndSubmit ::
  "'w ethers \<Rightarrow> send_params \<Rightarrow> nat \<Rightarrow> label \<Rightarrow> string \<Rightarrow> int
     \<Rightarrow> 'w send_state \<Rightarrow> js_error option \<times> 'w send_state" where
  "refetchAndSubmit E P i lbl to gasLimit s =
     (case getTransactionCount E (sp_wallet P) (world s) of
        (Inl error, w) \<Rightarrow> (Some error, s\<lparr> world := w \<rparr>)
      | (Inr n, w) \<Rightarrow> submit E P i True lbl to gasLimit (s\<lparr> world := w, nextNonce := n \<rparr>))"

text \<open>The \<^verbatim>\<open>catch (retryError)\<close> clause: one line in the log.\<close>

definition logRetryOutcome :: "label \<Rightarrow> js_error option \<times> 'w send_state \<Rightarrow> 'w send_state" where
  "logRetryOutcome lbl r =
     (case r of
        (None, s) \<Rightarrow> s
      | (Some retryError, s) \<Rightarrow> s\<lparr> logs := logs s @ [SendFailed lbl (err_message retryError)] \<rparr>)"

subsection \<open>\<^verbatim>\<open>handleSendBatch\<close> of scripts/tx-server.js\<close>

text \<open>The body of the loop for the recipient \<open>to\<close> at index \<open>i\<close> of \<open>len\<close> recipients, up to the delay.\<close>

definition sendStep ::
  "'w ethers \<Rightarrow> send_params \<Rightarrow> nat \<Rightarrow> nat \<Rightarrow> string \<Rightarrow> 'w send_state \<Rightarrow> 'w send_state" where
  "sendStep E P len i to s =
     (let lbl = Label (i + 1) len (short_addr to) in
      case estimateGasLimit E \<lparr> er_to = to, er_from = sp_wallet P, er_value = sp_value P \<rparr>
             GAS_LIMIT_FALLBACK (world s) of
        (gasLimit, w1) \<Rightarrow>
          (case submit E P i False lbl to gasLimit (s\<lparr> world := w1 \<rparr>) of
             (None, s2) \<Rightarrow> s2
           | (Some error, s2) \<Rightarrow>
               if isNonceError error \<or> isInFlightLimitError error then
                 logRetryOutcome lbl
                   (case (if isInFlightLimitError error then awaitInFlight E P lbl s2
                          else (None, s2)) of
                      (Some waitError, s3) \<Rightarrow> (Some waitError, s3)
                    | (None, s3) \<Rightarrow> refetchAndSubmit E P i lbl to gasLimit s3)
               else s2\<lparr> logs := logs s2 @ [SendFailed lbl (err_message error)] \<rparr>))"

fun sendLoop ::
  "'w ethers \<Rightarrow> send_params \<Rightarrow> nat \<Rightarrow> nat \<Rightarrow> string list \<Rightarrow> 'w send_state \<Rightarrow> 'w send_state" where
  "sendLoop E P len i [] s = s"
| "sendLoop E P len i (to # rest) s =
     (let s1 = sendStep E P len i to s;
          s2 = (if int i < int len - 1 \<and> sp_delayMs P > 0
                then s1\<lparr> world := delay E (sp_delayMs P) (world s1) \<rparr> else s1)
      in sendLoop E P len (i + 1) rest s2)"

text \<open>The request body of \<^verbatim>\<open>/api/send-batch\<close>, after the defaults of the handler.\<close>

record send_payload =
  p_recipients :: "string list"
  p_amountEth :: string
  p_delayMs :: int
  p_waitConfirm :: bool
  p_rpcUrl :: string
  p_fundingSecret :: string
  p_fundingPath :: string

definition handleSendBatch ::
  "'w ethers \<Rightarrow> string \<Rightarrow> send_payload \<Rightarrow> 'w \<Rightarrow> app_error + 'w send_state" where
  "handleSendBatch E env_path payload w =
     (let recipients = p_recipients payload;
          fundingPath = (if p_fundingPath payload = [] then FUNDING_PATH env_path
                         else p_fundingPath payload)
      in if recipients = [] then Inl RecipientsRequired
         else if p_rpcUrl payload = [] then Inl RpcUrlRequired
         else if p_fundingSecret payload = [] then Inl FundingSecretRequired
         else if p_amountEth payload = [] then Inl AmountRequired
         else
           case resolveFundingWallet E env_path (p_fundingSecret payload) fundingPath of
             Inl e \<Rightarrow> Inl e
           | Inr wallet \<Rightarrow>
               (case getFeeOptions E w of
                  (Inl e, w1) \<Rightarrow> Inl (Thrown e)
                | (Inr feeOptions, w1) \<Rightarrow>
                    (case parseEther E (p_amountEth payload) of
                       Inl e \<Rightarrow> Inl (Thrown e)
                     | Inr v \<Rightarrow>
                         (case getTransactionCount E wallet w1 of
                            (Inl e, w2) \<Rightarrow> Inl (Thrown e)
                          | (Inr n, w2) \<Rightarrow>
                              Inr (sendLoop E
                                     \<lparr> sp_wallet = wallet, sp_value = v, sp_fees = feeOptions,
                                        sp_waitConfirm = p_waitConfirm payload,
                                        sp_delayMs = p_delayMs payload \<rparr>
                                     (length recipients) 0 recipients
                                     \<lparr> world = w2, logs = [], submissions = [],
                                        nextNonce = n, lastSubmittedHash = None \<rparr>)))))"

subsection \<open>\<^verbatim>\<open>handleBatchSend\<close> of the frontend component\<close>

text \<open>
  The frontend sends every transaction with \<^verbatim>\<open>gasLimit: 21000\<close>; its \<^verbatim>\<open>catch\<close> clause
  tests the stale-nonce class first and the in-flight class second.
\<close>

definition sendStep_gui ::
  "'w ethers \<Rightarrow> send_params \<Rightarrow> nat \<Rightarrow> nat \<Rightarrow> string \<Rightarrow> 'w send_state \<Rightarrow> 'w send_state" where
  "sendStep_gui E P len i to s =
     (let lbl = Label (i + 1) len (formatAddress to) in
      case submit E P i False lbl to 21000 s of
        (None, s2) \<Rightarrow> s2
      | (Some error, s2) \<Rightarrow>
          if isNonceError error then
            logRetryOutcome lbl (refetchAndSubmit E P i lbl to 21000 s2)
          else if isInFlightLimitError error then
            logRetryOutcome lbl
              (case awaitInFlight E P lbl s2 of
                 (Some waitError, s3) \<Rightarrow> (Some waitError, s3)
               | (None, s3) \<Rightarrow> refetchAndSubmit E P i lbl to 21000 s3)
          else s2\<lparr> logs := logs s2 @ [SendFailed lbl (err_message error)] \<rparr>)"

fun sendLoop_gui ::
  "'w ethers \<Rightarrow> send_params \<Rightarrow> nat \<Rightarrow> nat \<Rightarrow> string list \<Rightarrow> 'w send_state \<Rightarrow> 'w send_state" where
  "sendLoop_gui E P len i [] s = s"
| "sendLoop_gui E P len i (to # rest) s =
     (let s1 = sendStep_gui E P len i to s;
          s2 = (if int i < int len - 1
                then s1\<lparr> world := delay E (sp_delayMs P) (world s1) \<rparr> else s1)
      in sendLoop_gui E P len (i + 1) rest s2)"

text \<open>
  The component state that \<^verbatim>\<open>handleBatchSend\<close> reads.  The model is the branch
  \<^verbatim>\<open>useBackendSender = false\<close>; the other branch posts the payload to
  \<^verbatim>\<open>/api/send-batch\<close>.
\<close>

record gui_send_input =
  g_sending :: bool
  g_fundingSecret :: string
  g_fundingPath :: string
  g_rpcUrl :: string
  g_selectedAddresses :: "string list"
  g_validManualRecipients :: "string list"
  g_sendAmount :: string
  g_waitConfirm :: bool
  g_sendDelayMs :: int

definition handleBatchSend ::
  "'w ethers \<Rightarrow> gui_send_input \<Rightarrow> log_line list \<Rightarrow> 'w \<Rightarrow> 'w run_state" where
  "handleBatchSend E G sendLogs w =
     (if g_sending G then \<lparr> world = w, logs = sendLogs, submissions = [] \<rparr>
      else if trim (g_fundingSecret G) = []
        then \<lparr> world = w, logs = sendLogs @ [EnterFundingSecret], submissions = [] \<rparr>
      else if trim (g_rpcUrl G) = []
        then \<lparr> world = w, logs = sendLogs @ [EnterRpcUrl], submissions = [] \<rparr>
      else if g_selectedAddresses G = [] \<and> g_validManualRecipients G = []
        then \<lparr> world = w, logs = sendLogs @ [SelectRecipient], submissions = [] \<rparr>
      else
        case parseEther E (g_sendAmount G) of
          Inl e \<Rightarrow> \<lparr> world = w, logs = sendLogs @ [InvalidAmount], submissions = [] \<rparr>
        | Inr amountWei \<Rightarrow>
            (let recipients = filter (isAddress E) (g_selectedAddresses G)
                                @ g_validManualRecipients G
             in case resolveFundingWallet_gui E (g_fundingSecret G) (g_fundingPath G) of
                  Inl e \<Rightarrow> \<lparr> world = w, logs = [SendFlowFailed e], submissions = [] \<rparr>
                | Inr wallet \<Rightarrow>
                    (case getFeeOptions E w of
                       (Inl e, w1) \<Rightarrow>
                         \<lparr> world = w1, logs = [SendFlowFailed (Thrown e)], submissions = [] \<rparr>
                     | (Inr feeOptions, w1) \<Rightarrow>
                         (case getTransactionCount E wallet w1 of
                            (Inl e, w2) \<Rightarrow>
                              \<lparr> world = w2, logs = [SendFlowFailed (Thrown e)],
                                 submissions = [] \<rparr>
                          | (Inr n, w2) \<Rightarrow>
                              (let s = sendLoop_gui E
                                         \<lparr> sp_wallet = wallet, sp_value = amountWei,
                                            sp_fees = feeOptions,
                                            sp_waitConfirm = g_waitConfirm G,
                                            sp_delayMs = g_sendDelayMs G \<rparr>
                                         (length recipients) 0 recipients
                                         \<lparr> world = w2, logs = [], submissions = [],
                                            nextNonce = n, lastSubmittedHash = None \<rparr>
                               in \<lparr> world = world s, logs = logs s,
                                     submissions = submissions s \<rparr>)))))"

section \<open>The reclaim engine\<close>

record reclaim_entry =
  re_address :: string
  re_privateKey :: string

record reclaim_params =
  rp_reclaimAddress :: string
  rp_reserveWei :: int
  rp_fees :: fee_options
  rp_waitConfirm :: bool
  rp_delayMs :: int

text \<open>The label text of an entry without address (a two-character word in the source).\<close>

definition UNKNOWN_ADDRESS :: string where
  "UNKNOWN_ADDRESS = ''unknown''"

text \<open>
  The single \<^verbatim>\<open>wallet.sendTransaction\<close> of a reclaim and what follows it inside the
  \<^verbatim>\<open>try\<close> block; the \<^verbatim>\<open>catch\<close> clause logs the failure.
\<close>

definition reclaimSubmit ::
  "'w ethers \<Rightarrow> reclaim_params \<Rightarrow> nat \<Rightarrow> label \<Rightarrow> string \<Rightarrow> int \<Rightarrow> int \<Rightarrow> nat
     \<Rightarrow> 'w run_state \<Rightarrow> 'w run_state" where
  "reclaimSubmit E P i lbl wallet v gasLimit nonce s =
     (let tx = \<lparr> tx_to = rp_reclaimAddress P, tx_value = v, tx_gasLimit = gasLimit,
                 tx_fees = rp_fees P, tx_nonce = nonce \<rparr>
      in case sendTransaction E wallet tx (world s) of
           (Inl error, w) \<Rightarrow>
             s\<lparr> world := w,
                submissions := submissions s @
                  [\<lparr> sub_index = i, sub_retry = False, sub_from = wallet,
                     sub_tx = tx, sub_result = Inl error \<rparr>],
                logs := logs s @ [ReclaimFailed lbl (err_message error)] \<rparr>
         | (Inr hash, w) \<Rightarrow>
             (let s1 = s\<lparr> world := w,
                          submissions := submissions s @
                            [\<lparr> sub_index = i, sub_retry = False, sub_from = wallet,
                               sub_tx = tx, sub_result = Inr hash \<rparr>],
                          logs := logs s @ [Submitted lbl hash] \<rparr>
              in if rp_waitConfirm P then
                   (case tx_wait E hash w of
                      (Some error, w') \<Rightarrow>
                        s1\<lparr> world := w',
                            logs := logs s1 @ [ReclaimFailed lbl (err_message error)] \<rparr>
                    | (None, w') \<Rightarrow> s1\<lparr> world := w', logs := logs s1 @ [Confirmed lbl] \<rparr>)
                 else s1))"

subsection \<open>\<^verbatim>\<open>handleReclaimBatch\<close> of scripts/tx-server.js\<close>

text \<open>
  The body of the loop for one entry.  The first component of the result is false when
  the body ended with \<^verbatim>\<open>continue\<close>, which also skips the delay at its end.
\<close>

definition reclaimStep ::
  "'w ethers \<Rightarrow> reclaim_params \<Rightarrow> nat \<Rightarrow> nat \<Rightarrow> reclaim_entry \<Rightarrow> 'w run_state
     \<Rightarrow> bool \<times> 'w run_state" where
  "reclaimStep E P len i entry s =
     (let privateKey = re_privateKey entry;
          address = re_address entry;
          lbl = Label (i + 1) len (if address \<noteq> [] then short_addr address else UNKNOWN_ADDRESS)
      in if privateKey = [] then (False, s\<lparr> logs := logs s @ [NoKeySkipped lbl] \<rparr>)
         else
           let key = (if startsWith privateKey ''0x'' then privateKey else ''0x'' @ privateKey)
           in case Wallet_new E key of
                Inl error \<Rightarrow> (True, s\<lparr> logs := logs s @ [ReclaimFailed lbl (err_message error)] \<rparr>)
              | Inr wallet \<Rightarrow>
                  (case getTransactionCount E wallet (world s) of
                     (Inl error, w1) \<Rightarrow>
                       (True, s\<lparr> world := w1,
                                 logs := logs s @ [ReclaimFailed lbl (err_message error)] \<rparr>)
                   | (Inr nonce, w1) \<Rightarrow>
                       (case getBalance E wallet w1 of
                          (Inl error, w2) \<Rightarrow>
                            (True, s\<lparr> world := w2,
                                      logs := logs s @ [ReclaimFailed lbl (err_message error)] \<rparr>)
                        | (Inr balance, w2) \<Rightarrow>
                            (case estimateGasLimit E
                                    \<lparr> er_to = rp_reclaimAddress P, er_from = wallet, er_value = 1 \<rparr>
                                    GAS_LIMIT_FALLBACK w2 of
                               (estimatedGasLimit, w3) \<Rightarrow>
                                 (let gasCost = estimatedGasLimit * maxFeePerGas (rp_fees P);
                                      sendable = balance - rp_reserveWei P - gasCost
                                  in if sendable \<le> 0
                                     then (False, s\<lparr> world := w3,
                                                     logs := logs s @ [InsufficientSkipped lbl] \<rparr>)
                                     else
                                       case estimateGasLimit E
                                              \<lparr> er_to = rp_reclaimAddress P, er_from = wallet,
                                                 er_value = sendable \<rparr>
                                              estimatedGasLimit w3 of
                                         (finalGasLimit, w4) \<Rightarrow>
                                           (let finalGasCost =
                                                  finalGasLimit * maxFeePerGas (rp_fees P);
                                                finalSendable =
                                                  balance - rp_reserveWei P - finalGasCost
                                            in if finalSendable \<le> 0
                                               then (False,
                                                     s\<lparr> world := w4,
                                                        logs := logs s @ [InsufficientSkipped lbl] \<rparr>)
                                               else (True,
                                                     reclaimSubmit E P i lbl wallet finalSendable
                                                       finalGasLimit nonce
                                                       (s\<lparr> world := w4 \<rparr>))))))))"

fun reclaimLoop ::
  "'w ethers \<Rightarrow> reclaim_params \<Rightarrow> nat \<Rightarrow> nat \<Rightarrow> reclaim_entry list \<Rightarrow> 'w run_state
     \<Rightarrow> 'w run_state" where
  "reclaimLoop E P len i [] s = s"
| "reclaimLoop E P len i (entry # rest) s =
     (case reclaimStep E P len i entry s of
        (reached_end, s1) \<Rightarrow>
          (let s2 = (if reached_end \<and> int i < int len - 1 \<and> rp_delayMs P > 0
                     then s1\<lparr> world := delay E (rp_delayMs P) (world s1) \<rparr> else s1)
           in reclaimLoop E P len (i + 1) rest s2))"

text \<open>The request body of \<^verbatim>\<open>/api/reclaim-batch\<close>, after the defaults of the handler.\<close>

record reclaim_payload =
  q_entries :: "reclaim_entry list"
  q_rpcUrl :: string
  q_reserveEth :: string
  q_delayMs :: int
  q_waitConfirm :: bool
  q_reclaimAddress :: string

definition handleReclaimBatch ::
  "'w ethers \<Rightarrow> reclaim_payload \<Rightarrow> 'w \<Rightarrow> app_error + 'w run_state" where
  "handleReclaimBatch E payload w =
     (let entries = q_entries payload;
          reserveEth = (if q_reserveEth payload = [] then ''0'' else q_reserveEth payload)
      in if entries = [] then Inl EntriesRequired
         else if q_rpcUrl payload = [] then Inl RpcUrlRequired
         else if q_reclaimAddress payload = [] then Inl ReclaimAddressRequired
         else
           case getFeeOptions E w of
             (Inl e, w1) \<Rightarrow> Inl (Thrown e)
           | (Inr feeOptions, w1) \<Rightarrow>
               (case parseEther E reserveEth of
                  Inl e \<Rightarrow> Inl (Thrown e)
                | Inr reserveWei \<Rightarrow>
                    Inr (reclaimLoop E
                           \<lparr> rp_reclaimAddress = q_reclaimAddress payload,
                              rp_reserveWei = reserveWei, rp_fees = feeOptions,
                              rp_waitConfirm = q_waitConfirm payload,
                              rp_delayMs = q_delayMs payload \<rparr>
                           (length entries) 0 entries
                           \<lparr> world = w1, logs = [], submissions = [] \<rparr>)))"

subsection \<open>\<^verbatim>\<open>handleBatchReclaim\<close> of the frontend component\<close>

text \<open>
  The frontend computes \<^verbatim>\<open>gasCost = feeOptions.maxFeePerGas * 21000n\<close> once, before the
  loop, passes the private key to the wallet as it is, and sends with
  \<^verbatim>\<open>gasLimit: 21000\<close>.
\<close>

definition reclaimStep_gui ::
  "'w ethers \<Rightarrow> reclaim_params \<Rightarrow> int \<Rightarrow> nat \<Rightarrow> nat \<Rightarrow> reclaim_entry \<Rightarrow> 'w run_state
     \<Rightarrow> bool \<times> 'w run_state" where
  "reclaimStep_gui E P gasCost len i account s =
     (let lbl = Label (i + 1) len (formatAddress (re_address account))
      in if re_privateKey account = [] then (False, s\<lparr> logs := logs s @ [NoKeySkipped lbl] \<rparr>)
         else
           case Wallet_new E (re_privateKey account) of
             Inl error \<Rightarrow> (True, s\<lparr> logs := logs s @ [ReclaimFailed lbl (err_message error)] \<rparr>)
           | Inr wallet \<Rightarrow>
               (case getTransactionCount E wallet (world s) of
                  (Inl error, w1) \<Rightarrow>
                    (True, s\<lparr> world := w1,
                              logs := logs s @ [ReclaimFailed lbl (err_message error)] \<rparr>)
                | (Inr nonce, w1) \<Rightarrow>
                    (case getBalance E wallet w1 of
                       (Inl error, w2) \<Rightarrow>
                         (True, s\<lparr> world := w2,
                                   logs := logs s @ [ReclaimFailed lbl (err_message error)] \<rparr>)
                     | (Inr balance, w2) \<Rightarrow>
                         (let sendable = balance - rp_reserveWei P - gasCost
                          in if sendable \<le> 0
                             then (False, s\<lparr> world := w2,
                                             logs := logs s @ [InsufficientSkipped lbl] \<rparr>)
                             else (True,
                                   reclaimSubmit E P i lbl wallet sendable 21000 nonce
                                     (s\<lparr> world := w2 \<rparr>))))))"

fun reclaimLoop_gui ::
  "'w ethers \<Rightarrow> reclaim_params \<Rightarrow> int \<Rightarrow> nat \<Rightarrow> nat \<Rightarrow> reclaim_entry list \<Rightarrow> 'w run_state
     \<Rightarrow> 'w run_state" where
  "reclaimLoop_gui E P gasCost len i [] s = s"
| "reclaimLoop_gui E P gasCost len i (account # rest) s =
     (case reclaimStep_gui E P gasCost len i account s of
        (reached_end, s1) \<Rightarrow>
          (let s2 = (if reached_end \<and> int i < int len - 1
                     then s1\<lparr> world := delay E (rp_delayMs P) (world s1) \<rparr> else s1)
           in reclaimLoop_gui E P gasCost len (i + 1) rest s2))"

text \<open>
  The component state that \<^verbatim>\<open>handleBatchReclaim\<close> reads (the branch
  \<^verbatim>\<open>useBackendSender = false\<close>).
\<close>

record gui_reclaim_input =
  h_reclaiming :: bool
  h_reclaimAddress :: string
  h_rpcUrl :: string
  h_selectedAccounts :: "reclaim_entry list"
  h_reclaimReserve :: string
  h_reclaimWaitConfirm :: bool
  h_reclaimDelayMs :: int

definition handleBatchReclaim ::
  "'w ethers \<Rightarrow> gui_reclaim_input \<Rightarrow> log_line list \<Rightarrow> 'w \<Rightarrow> 'w run_state" where
  "handleBatchReclaim E H reclaimLogs w =
     (if h_reclaiming H then \<lparr> world = w, logs = reclaimLogs, submissions = [] \<rparr>
      else if \<not> isAddress E (h_reclaimAddress H)
        then \<lparr> world = w, logs = reclaimLogs @ [EnterReclaimAddress], submissions = [] \<rparr>
      else if trim (h_rpcUrl H) = []
        then \<lparr> world = w, logs = reclaimLogs @ [EnterRpcUrl], submissions = [] \<rparr>
      else if h_selectedAccounts H = []
        then \<lparr> world = w, logs = reclaimLogs @ [SelectAccount], submissions = [] \<rparr>
      else
        case parseEther E (h_reclaimReserve H) of
          Inl e \<Rightarrow> \<lparr> world = w, logs = reclaimLogs @ [InvalidReserve], submissions = [] \<rparr>
        | Inr reserveWei \<Rightarrow>
            (case getFeeOptions E w of
               (Inl e, w1) \<Rightarrow>
                 \<lparr> world = w1, logs = [ReclaimFlowFailed (Thrown e)], submissions = [] \<rparr>
             | (Inr feeOptions, w1) \<Rightarrow>
                 reclaimLoop_gui E
                   \<lparr> rp_reclaimAddress = h_reclaimAddress H, rp_reserveWei = reserveWei,
                      rp_fees = feeOptions, rp_waitConfirm = h_reclaimWaitConfirm H,
                      rp_delayMs = h_reclaimDelayMs H \<rparr>
                   (maxFeePerGas feeOptions * 21000)
                   (length (h_selectedAccounts H)) 0 (h_selectedAccounts H)
                   \<lparr> world = w1, logs = [], submissions = [] \<rparr>))"

subsection \<open>The reclaim handler of the serverless API (third document of src/SimpleApp.js)\<close>

text \<open>
  The statements that the inner \<^verbatim>\<open>try\<close> block and the retry of this handler both run:
  send with the given nonce, log the submission (\<^verbatim>\<open>tx.hash\<close> or \<^verbatim>\<open>retryTx.hash\<close>) and, if
  \<^verbatim>\<open>waitConfirm\<close>, wait for one confirmation and log it.  The result is the error thrown,
  if any, with the state at that point.
\<close>

definition reclaimSend ::
  "'w ethers \<Rightarrow> reclaim_params \<Rightarrow> nat \<Rightarrow> bool \<Rightarrow> label \<Rightarrow> string \<Rightarrow> int \<Rightarrow> int \<Rightarrow> nat
     \<Rightarrow> 'w run_state \<Rightarrow> js_error option \<times> 'w run_state" where
  "reclaimSend E P i is_retry lbl wallet v gasLimit nonce s =
     (let tx = \<lparr> tx_to = rp_reclaimAddress P, tx_value = v, tx_gasLimit = gasLimit,
                 tx_fees = rp_fees P, tx_nonce = nonce \<rparr>
      in case sendTransaction E wallet tx (world s) of
           (Inl error, w) \<Rightarrow>
             (Some error,
              s\<lparr> world := w,
                 submissions := submissions s @
                   [\<lparr> sub_index = i, sub_retry = is_retry, sub_from = wallet,
                      sub_tx = tx, sub_result = Inl error \<rparr>] \<rparr>)
         | (Inr hash, w) \<Rightarrow>
             (let s1 = s\<lparr> world := w,
                          submissions := submissions s @
                            [\<lparr> sub_index = i, sub_retry = is_retry, sub_from = wallet,
                               sub_tx = tx, sub_result = Inr hash \<rparr>],
                          logs := logs s @
                            [if is_retry then RetrySubmitted lbl hash else Submitted lbl hash] \<rparr>
              in if rp_waitConfirm P then
                   (case tx_wait E hash w of
                      (Some error, w') \<Rightarrow> (Some error, s1\<lparr> world := w' \<rparr>)
                    | (None, w') \<Rightarrow>
                        (None, s1\<lparr> world := w', logs := logs s1 @ [Confirmed lbl] \<rparr>))
                 else (None, s1)))"

text \<open>
  The inner \<^verbatim>\<open>try\<close> block with its \<^verbatim>\<open>catch\<close> clause.  For an error of the stale-nonce
  or of the in-flight class the clause sleeps \<^verbatim>\<open>Math.max(delayMs, 2000)\<close> (in-flight
  class only), fetches the pending nonce again and sends once more; what is thrown
  there reaches the \<^verbatim>\<open>catch\<close> clause of the entry, which logs the failure.
\<close>

definition reclaimSubmit_api ::
  "'w ethers \<Rightarrow> reclaim_params \<Rightarrow> nat \<Rightarrow> label \<Rightarrow> string \<Rightarrow> int \<Rightarrow> int \<Rightarrow> nat
     \<Rightarrow> 'w run_state \<Rightarrow> 'w run_state" where
  "reclaimSubmit_api E P i lbl wallet v gasLimit nonce s =
     (case reclaimSend E P i False lbl wallet v gasLimit nonce s of
        (None, s2) \<Rightarrow> s2
      | (Some error, s2) \<Rightarrow>
          if isNonceError error \<or> isInFlightLimitError error then
            (let s3 = (if isInFlightLimitError error
                       then s2\<lparr> logs := logs s2 @ [WaitingInFlight lbl],
                                world := delay E (max (rp_delayMs P) 2000) (world s2) \<rparr>
                       else s2)
             in case getTransactionCount E wallet (world s3) of
                  (Inl thrown, w) \<Rightarrow>
                    s3\<lparr> world := w, logs := logs s3 @ [ReclaimFailed lbl (err_message thrown)] \<rparr>
                | (Inr fresh, w) \<Rightarrow>
                    (case reclaimSend E P i True lbl wallet v gasLimit fresh (s3\<lparr> world := w \<rparr>) of
                       (None, s4) \<Rightarrow> s4
                     | (Some thrown, s4) \<Rightarrow>
                         s4\<lparr> logs := logs s4 @ [ReclaimFailed lbl (err_message thrown)] \<rparr>))
          else s2\<lparr> logs := logs s2 @ [ReclaimFailed lbl (err_message error)] \<rparr>)"

text \<open>
  The body of the loop of this handler for one entry; up to the submission it reads as
  the body of \<^verbatim>\<open>handleReclaimBatch\<close>.
\<close>

definition reclaimStep_api ::
  "'w ethers \<Rightarrow> reclaim_params \<Rightarrow> nat \<Rightarrow> nat \<Rightarrow> reclaim_entry \<Rightarrow> 'w run_state
     \<Rightarrow> bool \<times> 'w run_state" where
  "reclaimStep_api E P len i entry s =
     (let privateKey = re_privateKey entry;
          address = re_address entry;
          lbl = Label (i + 1) len (if address \<noteq> [] then short_addr address else UNKNOWN_ADDRESS)
      in if privateKey = [] then (False, s\<lparr> logs := logs s @ [NoKeySkipped lbl] \<rparr>)
         else
           let key = (if startsWith privateKey ''0x'' then privateKey else ''0x'' @ privateKey)
           in case Wallet_new E key of
                Inl error \<Rightarrow> (True, s\<lparr> logs := logs s @ [ReclaimFailed lbl (err_message error)] \<rparr>)
              | Inr wallet \<Rightarrow>
                  (case getTransactionCount E wallet (world s) of
                     (Inl error, w1) \<Rightarrow>
                       (True, s\<lparr> world := w1,
                                 logs := logs s @ [ReclaimFailed lbl (err_message error)] \<rparr>)
                   | (Inr nonce, w1) \<Rightarrow>
                       (case getBalance E wallet w1 of
                          (Inl error, w2) \<Rightarrow>
                            (True, s\<lparr> world := w2,
                                      logs := logs s @ [ReclaimFailed lbl (err_message error)] \<rparr>)
                        | (Inr balance, w2) \<Rightarrow>
                            (case estimateGasLimit E
                                    \<lparr> er_to = rp_reclaimAddress P, er_from = wallet, er_value = 1 \<rparr>
                                    GAS_LIMIT_FALLBACK w2 of
                               (estimatedGasLimit, w3) \<Rightarrow>
                                 (let gasCost = estimatedGasLimit * maxFeePerGas (rp_fees P);
                                      sendable = balance - rp_reserveWei P - gasCost
                                  in if sendable \<le> 0
                                     then (False, s\<lparr> world := w3,
                                                     logs := logs s @ [InsufficientSkipped lbl] \<rparr>)
                                     else
                                       case estimateGasLimit E
                                              \<lparr> er_to = rp_reclaimAddress P, er_from = wallet,
                                                 er_value = sendable \<rparr>
                                              estimatedGasLimit w3 of
                                         (finalGasLimit, w4) \<Rightarrow>
                                           (let finalGasCost =
                                                  finalGasLimit * maxFeePerGas (rp_fees P);
                                                finalSendable =
                                                  balance - rp_reserveWei P - finalGasCost
                                            in if finalSendable \<le> 0
                                               then (False,
                                                     s\<lparr> world := w4,
                                                        logs := logs s @ [InsufficientSkipped lbl] \<rparr>)
                                               else (True,
                                                     reclaimSubmit_api E P i lbl wallet finalSendable
                                                       finalGasLimit nonce
                                                       (s\<lparr> world := w4 \<rparr>))))))))"

section \<open>Mnemonic generation and the cipher envelope\<close>

type_synonym byte = "8 word"

text \<open>
  The libraries behind the two utility modules are outside the repository: the random
  source, \<^verbatim>\<open>Buffer\<close> and the text codecs, PBKDF2, the AES modes and bip39.  They are a
  parameter of the model.  \<open>'r\<close> is the state of the random source.  AES-256-CTR is a
  stream cipher: \<^verbatim>\<open>update\<close> followed by \<^verbatim>\<open>final\<close> combines byte \<open>k\<close> of the data with
  byte \<open>k\<close> of a key stream fixed by the key and the IV, for encryption and decryption
  alike; the key stream is the parameter.
\<close>

record 'r crypto_lib =
  randomBytes :: "nat \<Rightarrow> 'r \<Rightarrow> byte list \<times> 'r"
  utf8_encode :: "string \<Rightarrow> byte list"
  utf8_decode :: "byte list \<Rightarrow> string"
  base64_encode :: "byte list \<Rightarrow> string"
  base64_decode :: "string \<Rightarrow> byte list"
  atob_bytes :: "string \<Rightarrow> js_error + byte list"
  pbkdf2_sha256 :: "byte list \<Rightarrow> byte list \<Rightarrow> nat \<Rightarrow> nat \<Rightarrow> byte list"
  aes256_ctr_keystream :: "byte list \<Rightarrow> byte list \<Rightarrow> nat \<Rightarrow> byte"
  aes_gcm_encrypt :: "byte list \<Rightarrow> byte list \<Rightarrow> byte list \<Rightarrow> byte list"
  aes_gcm_decrypt :: "byte list \<Rightarrow> byte list \<Rightarrow> byte list \<Rightarrow> js_error + byte list"
  bip39_entropyToMnemonic :: "string \<Rightarrow> js_error + string"
  bip39_generateMnemonic :: "nat \<Rightarrow> 'r \<Rightarrow> (js_error + string) \<times> 'r"
  bip39_validateMnemonic :: "string \<Rightarrow> bool"

text \<open>
  What a utility function throws inside its \<^verbatim>\<open>try\<close> block.  Its \<^verbatim>\<open>catch\<close> clause throws
  a new error whose message is a fixed prefix and the message of the cause.
\<close>

datatype crypto_cause =
    UnsupportedWordCount int
  | GeneratedMnemonicInvalid
  | EmptyInput
  | MnemonicFormat
  | EnvelopeFormat
  | NotAMnemonic
  | Library js_error

datatype crypto_error =
    GenerateFailed crypto_cause
  | EncryptFailed crypto_cause
  | DecryptFailed crypto_cause

text \<open>\<^verbatim>\<open>s.split(' ')\<close>: the pieces between single spaces, empty ones included.\<close>

fun split_space :: "string \<Rightarrow> string \<Rightarrow> string list" where
  "split_space cur [] = [cur]"
| "split_space cur (c # cs) =
     (if c = CHR '' '' then cur # split_space [] cs else split_space (cur @ [c]) cs)"

definition word_count :: "string \<Rightarrow> nat" where
  "word_count mnemonic = length (split_space [] mnemonic)"

text \<open>\<^verbatim>\<open>buffer.toString('hex')\<close>.\<close>

definition hex_digit :: "nat \<Rightarrow> char" where
  "hex_digit d = (if d < 10 then char_of (48 + d) else char_of (87 + d))"

definition toHex :: "byte list \<Rightarrow> string" where
  "toHex bs = concat (map (\<lambda>b. [hex_digit (unat b div 16), hex_digit (unat b mod 16)]) bs)"

text \<open>The table \<^verbatim>\<open>entropyBits\<close>, indexed by a number.\<close>

definition entropyBits :: "int \<Rightarrow> nat option" where
  "entropyBits wordCount =
     (if wordCount = 12 then Some 128
      else if wordCount = 15 then Some 160
      else if wordCount = 18 then Some 192
      else if wordCount = 21 then Some 224
      else if wordCount = 24 then Some 256
      else None)"

definition validateMnemonic :: "'r crypto_lib \<Rightarrow> string \<Rightarrow> bool" where
  "validateMnemonic L mnemonic = bip39_validateMnemonic L mnemonic"

subsection \<open>src/utils/cryptoUtils.js (AES-256-CTR)\<close>

definition generateMnemonic :: "'r crypto_lib \<Rightarrow> int \<Rightarrow> 'r \<Rightarrow> (crypto_error + string) \<times> 'r" where
  "generateMnemonic L wordCount r =
     (case entropyBits wordCount of
        None \<Rightarrow> (Inl (GenerateFailed (UnsupportedWordCount wordCount)), r)
      | Some bits \<Rightarrow>
          if bits = 0 then (Inl (GenerateFailed (UnsupportedWordCount wordCount)), r)
          else
            case randomBytes L (bits div 8) r of
              (entropy, r') \<Rightarrow>
                (case bip39_entropyToMnemonic L (toHex entropy) of
                   Inl e \<Rightarrow> (Inl (GenerateFailed (Library e)), r')
                 | Inr mnemonic \<Rightarrow>
                     if \<not> bip39_validateMnemonic L mnemonic
                     then (Inl (GenerateFailed GeneratedMnemonicInvalid), r')
                     else (Inr mnemonic, r')))"

definition ctr_crypt :: "'r crypto_lib \<Rightarrow> byte list \<Rightarrow> byte list \<Rightarrow> byte list \<Rightarrow> byte list" where
  "ctr_crypt L key iv data =
     map (\<lambda>(k, b). b XOR aes256_ctr_keystream L key iv k) (zip [0 ..< length data] data)"

definition encryptMnemonic ::
  "'r crypto_lib \<Rightarrow> string \<Rightarrow> string \<Rightarrow> 'r \<Rightarrow> (crypto_error + string) \<times> 'r" where
  "encryptMnemonic L mnemonic password r =
     (if mnemonic = [] \<or> password = [] then (Inl (EncryptFailed EmptyInput), r)
      else if \<not> validateMnemonic L mnemonic then (Inl (EncryptFailed MnemonicFormat), r)
      else
        case randomBytes L 16 r of
          (salt, r1) \<Rightarrow>
            (case randomBytes L 16 r1 of
               (iv, r2) \<Rightarrow>
                 (let iterations = 10000;
                      key = pbkdf2_sha256 L (utf8_encode L password) salt iterations 32;
                      encrypted = ctr_crypt L key iv (utf8_encode L mnemonic);
                      finalData = salt @ iv @ encrypted
                  in (Inr (base64_encode L finalData), r2))))"

definition decryptMnemonic :: "'r crypto_lib \<Rightarrow> string \<Rightarrow> string \<Rightarrow> crypto_error + string" where
  "decryptMnemonic L encryptedData password =
     (if encryptedData = [] \<or> password = [] then Inl (DecryptFailed EmptyInput)
      else
        let data = base64_decode L encryptedData in
        if length data < 32 then Inl (DecryptFailed EnvelopeFormat)
        else
          let salt = take 16 data;
              iv = take 16 (drop 16 data);
              encrypted = drop 32 data;
              iterations = 10000;
              key = pbkdf2_sha256 L (utf8_encode L password) salt iterations 32;
              decrypted = ctr_crypt L key iv encrypted;
              mnemonicText = utf8_decode L decrypted
          in if \<not> validateMnemonic L mnemonicText then Inl (DecryptFailed NotAMnemonic)
             else Inr mnemonicText)"

subsection \<open>src/utils/cryptoUtilsGUI.js (WebCrypto, AES-256-GCM)\<close>

definition generateMnemonic_gui ::
  "'r crypto_lib \<Rightarrow> int \<Rightarrow> 'r \<Rightarrow> (crypto_error + string) \<times> 'r" where
  "generateMnemonic_gui L wordCount r =
     (case entropyBits wordCount of
        None \<Rightarrow> (Inl (GenerateFailed (UnsupportedWordCount wordCount)), r)
      | Some bits \<Rightarrow>
          if bits = 0 then (Inl (GenerateFailed (UnsupportedWordCount wordCount)), r)
          else
            case bip39_generateMnemonic L bits r of
              (Inl e, r') \<Rightarrow> (Inl (GenerateFailed (Library e)), r')
            | (Inr mnemonic, r') \<Rightarrow>
                if \<not> bip39_validateMnemonic L mnemonic
                then (Inl (GenerateFailed GeneratedMnemonicInvalid), r')
                else (Inr mnemonic, r'))"

definition encryptMnemonic_gui ::
  "'r crypto_lib \<Rightarrow> string \<Rightarrow> string \<Rightarrow> 'r \<Rightarrow> (crypto_error + string) \<times> 'r" where
  "encryptMnemonic_gui L mnemonic password r =
     (if mnemonic = [] \<or> password = [] then (Inl (EncryptFailed EmptyInput), r)
      else if \<not> validateMnemonic L mnemonic then (Inl (EncryptFailed MnemonicFormat), r)
      else
        let data = utf8_encode L mnemonic;
            passwordData = utf8_encode L password
        in case randomBytes L 16 r of
             (salt, r1) \<Rightarrow>
               (let key = pbkdf2_sha256 L passwordData salt 10000 32
                in case randomBytes L 12 r1 of
                     (iv, r2) \<Rightarrow>
                       (let encrypted = aes_gcm_encrypt L key iv data;
                            result = salt @ iv @ encrypted
                        in (Inr (base64_encode L result), r2))))"

definition decryptMnemonic_gui :: "'r crypto_lib \<Rightarrow> string \<Rightarrow> string \<Rightarrow> crypto_error + string" where
  "decryptMnemonic_gui L encryptedData password =
     (if encryptedData = [] \<or> password = [] then Inl (DecryptFailed EmptyInput)
      else
        case atob_bytes L encryptedData of
          Inl e \<Rightarrow> Inl (DecryptFailed (Library e))
        | Inr data \<Rightarrow>
            if length data < 28 then Inl (DecryptFailed EnvelopeFormat)
            else
              let salt = take 16 data;
                  iv = take 12 (drop 16 data);
                  encrypted = drop 28 data;
                  passwordData = utf8_encode L password;
                  key = pbkdf2_sha256 L passwordData salt 10000 32
              in case aes_gcm_decrypt L key iv encrypted of
                   Inl e \<Rightarrow> Inl (DecryptFailed (Library e))
                 | Inr decrypted \<Rightarrow>
                     (let mnemonicText = utf8_decode L decrypted
                      in if \<not> validateMnemonic L mnemonicText
                         then Inl (DecryptFailed NotAMnemonic)
                         else Inr mnemonicText))"

section \<open>Observations on a run\<close>

text \<open>The submissions that a piece of the run added, and whether one was accepted.\<close>

definition new_submissions ::
  "('w, 'a) run_state_scheme \<Rightarrow> ('w, 'b) run_state_scheme \<Rightarrow> submission list" where
  "new_submissions s s' = drop (length (submissions s)) (submissions s')"

definition succeeded :: "submission \<Rightarrow> bool" where
  "succeeded sub = (case sub_result sub of Inr hash \<Rightarrow> True | Inl error \<Rightarrow> False)"

text \<open>The transaction that the broadcaster builds for a recipient.\<close>

definition transfer :: "send_params \<Rightarrow> string \<Rightarrow> int \<Rightarrow> nat \<Rightarrow> tx_request" where
  "transfer P to gasLimit nonce =
     \<lparr> tx_to = to, tx_value = sp_value P, tx_gasLimit = gasLimit,
        tx_fees = sp_fees P, tx_nonce = nonce \<rparr>"

text \<open>
  What the node observes of a call of \<^const>\<open>submit\<close> in the state \<open>s\<close>: the transaction with
  the nonce \<^term>\<open>nextNonce s\<close> and the answer of the node in the world of \<open>s\<close>.
\<close>

definition observed ::
  "'w ethers \<Rightarrow> send_params \<Rightarrow> nat \<Rightarrow> bool \<Rightarrow> string \<Rightarrow> int \<Rightarrow> 'w send_state \<Rightarrow> submission" where
  "observed E P i is_retry to gasLimit s =
     \<lparr> sub_index = i, sub_retry = is_retry, sub_from = sp_wallet P,
        sub_tx = transfer P to gasLimit (nextNonce s),
        sub_result = fst (sendTransaction E (sp_wallet P)
                            (transfer P to gasLimit (nextNonce s)) (world s)) \<rparr>"

text \<open>
  The state after a step, as far as submissions and the nonce counter go: the step
  added the submissions \<open>subs\<close>, and the counter stands at the nonce of the last of them,
  plus one if that submission was accepted.
\<close>

definition step_summary :: "'w send_state \<Rightarrow> 'w send_state \<Rightarrow> submission list \<Rightarrow> bool" where
  "step_summary s s' subs \<longleftrightarrow>
     subs \<noteq> [] \<and> submissions s' = submissions s @ subs
     \<and> nextNonce s' = tx_nonce (sub_tx (last subs)) + (if succeeded (last subs) then 1 else 0)"

text \<open>A step submits once, or once and a second time from its retry block.\<close>

definition step_shape ::
  "'w ethers \<Rightarrow> send_params \<Rightarrow> nat \<Rightarrow> string \<Rightarrow> int \<Rightarrow> 'w send_state \<Rightarrow> 'w send_state \<Rightarrow> bool" where
  "step_shape E P i to g s1 s' \<longleftrightarrow>
     step_summary s1 s' [observed E P i False to g s1]
     \<or> (\<exists>s4. step_summary s1 s' [observed E P i False to g s1, observed E P i True to g s4])"

text \<open>The same, without the environment: what a loop needs to know of its body.\<close>

definition trace_step :: "nat \<Rightarrow> string \<Rightarrow> 'w send_state \<Rightarrow> 'w send_state \<Rightarrow> bool" where
  "trace_step i to s s' \<longleftrightarrow>
     (\<exists>sub0 tail.
        submissions s' = submissions s @ sub0 # tail
        \<and> sub_index sub0 = i \<and> \<not> sub_retry sub0
        \<and> tx_nonce (sub_tx sub0) = nextNonce s \<and> tx_to (sub_tx sub0) = to
        \<and> (\<forall>t \<in> set tail. sub_retry t)
        \<and> nextNonce s' = tx_nonce (sub_tx (last (sub0 # tail)))
                           + (if succeeded (last (sub0 # tail)) then 1 else 0))"

text \<open>The transaction that a reclaim builds for its account.\<close>

definition reclaim_transfer :: "reclaim_params \<Rightarrow> int \<Rightarrow> int \<Rightarrow> nat \<Rightarrow> tx_request" where
  "reclaim_transfer P v gasLimit nonce =
     \<lparr> tx_to = rp_reclaimAddress P, tx_value = v, tx_gasLimit = gasLimit,
        tx_fees = rp_fees P, tx_nonce = nonce \<rparr>"

text \<open>
  A reclaim step calls \<^verbatim>\<open>sendTransaction\<close> at most once, for its own account and not as a
  retry, and a rejected call ends the step with the failure line.
\<close>

definition single_attempt ::
  "reclaim_params \<Rightarrow> nat \<Rightarrow> label \<Rightarrow> 'w run_state \<Rightarrow> 'w run_state \<Rightarrow> bool" where
  "single_attempt P i lbl s s' \<longleftrightarrow>
     length (new_submissions s s') \<le> 1
     \<and> (\<forall>sub \<in> set (new_submissions s s').
           sub_index sub = i \<and> \<not> sub_retry sub \<and> tx_to (sub_tx sub) = rp_reclaimAddress P
           \<and> (\<forall>error. sub_result sub = Inl error \<longrightarrow>
                 logs s' = logs s @ [ReclaimFailed lbl (err_message error)]))"

text \<open>A \<^verbatim>\<open>for\<close> loop over a list with its index, as a function of the body.\<close>

fun iterate :: "(nat \<Rightarrow> 'a \<Rightarrow> 's \<Rightarrow> 's) \<Rightarrow> nat \<Rightarrow> 'a list \<Rightarrow> 's \<Rightarrow> 's" where
  "iterate f i [] s = s"
| "iterate f i (x # xs) s = iterate f (i + 1) xs (f i x s)"

section \<open>Executable instances of the two library interfaces\<close>

text \<open>
  A scripted node: \<^verbatim>\<open>sendTransaction\<close> answers with the next entry of a script (and with
  a hash once the script is used up), the pending nonce and the balance are fields of
  the world, gas estimation answers 21000 and the waits return at once.  The wallet
  constructor accepts keys of 66 characters; \<^verbatim>\<open>parseEther\<close> accepts strings of digits.
\<close>

record sim_world =
  sw_script :: "(js_error + string) list"
  sw_count :: nat
  sw_balance :: int

definition parse_digits :: "string \<Rightarrow> int" where
  "parse_digits s = foldl (\<lambda>a c. 10 * a + (int (of_char c) - 48)) 0 s"

definition scripted_node :: "sim_world ethers" where
  "scripted_node =
     \<lparr> Wallet_fromPhrase = (\<lambda>phrase path. Inr ''0x00000000000000000000000000000000000000f1''),
        Wallet_new = (\<lambda>key.
          if length key = 66 then Inr (take 42 key)
          else Inl \<lparr> err_code = ''INVALID_ARGUMENT'', err_message = ''invalid private key'' \<rparr>),
        parseEther = (\<lambda>s.
          if s \<noteq> [] \<and> list_all (\<lambda>c. 48 \<le> (of_char c :: nat) \<and> (of_char c :: nat) \<le> 57) s
          then Inr (parse_digits s * 1000000000000000000)
          else Inl \<lparr> err_code = ''INVALID_ARGUMENT'', err_message = ''invalid decimal string'' \<rparr>),
        isAddress = (\<lambda>a. length a = 42 \<and> startsWith a ''0x''),
        getFeeData = (\<lambda>w. (Inr \<lparr> fd_maxFeePerGas = Some 1000000000, fd_gasPrice = Some 1000000000,
                                   fd_maxPriorityFeePerGas = Some 1000000 \<rparr>, w)),
        getTransactionCount = (\<lambda>a w. (Inr (sw_count w), w)),
        getBalance = (\<lambda>a w. (Inr (sw_balance w), w)),
        estimateGas = (\<lambda>r w. (Inr 21000, w)),
        sendTransaction = (\<lambda>from tx w.
          case sw_script w of
            [] \<Rightarrow> (Inr ''0xabc'', w)
          | r # rs \<Rightarrow> (r, w\<lparr> sw_script := rs \<rparr>)),
        tx_wait = (\<lambda>h w. (None, w)),
        waitForTransaction = (\<lambda>h w. (None, w)),
        delay = (\<lambda>ms w. w) \<rparr>"

text \<open>
  Base64 with the standard alphabet and padding.  Decoding is the lenient one of
  \<^verbatim>\<open>Buffer.from(text, 'base64')\<close>: it stops at the first padding character, skips what is
  not in the alphabet and also reads the URL-safe characters.  \<^verbatim>\<open>atob\<close> is strict: it
  throws on a character outside the standard alphabet and on an impossible length.
\<close>

definition sextet_char :: "nat \<Rightarrow> char" where
  "sextet_char n =
     (if n < 26 then char_of (65 + n)
      else if n < 52 then char_of (71 + n)
      else if n < 62 then char_of (n - 4)
      else if n = 62 then CHR ''+'' else CHR ''/'')"

definition char_sextet :: "char \<Rightarrow> nat option" where
  "char_sextet c =
     (let k = (of_char c :: nat)
      in if 65 \<le> k \<and> k \<le> 90 then Some (k - 65)
         else if 97 \<le> k \<and> k \<le> 122 then Some (k - 71)
         else if 48 \<le> k \<and> k \<le> 57 then Some (k + 4)
         else if k = 43 \<or> k = 45 then Some 62
         else if k = 47 \<or> k = 95 then Some 63
         else None)"

fun b64_encode_nat :: "nat list \<Rightarrow> string" where
  "b64_encode_nat (x # y # z # rest) =
     [sextet_char (x div 4), sextet_char ((x mod 4) * 16 + y div 16),
      sextet_char ((y mod 16) * 4 + z div 64), sextet_char (z mod 64)] @ b64_encode_nat rest"
| "b64_encode_nat [x, y] =
     [sextet_char (x div 4), sextet_char ((x mod 4) * 16 + y div 16),
      sextet_char ((y mod 16) * 4), CHR ''='']"
| "b64_encode_nat [x] =
     [sextet_char (x div 4), sextet_char ((x mod 4) * 16), CHR ''='', CHR ''='']"
| "b64_encode_nat [] = []"

fun sextets_bytes :: "nat list \<Rightarrow> nat list" where
  "sextets_bytes (a # b # c # d # rest) =
     [a * 4 + b div 16, (b mod 16) * 16 + c div 4, (c mod 4) * 64 + d] @ sextets_bytes rest"
| "sextets_bytes [a, b, c] = [a * 4 + b div 16, (b mod 16) * 16 + c div 4]"
| "sextets_bytes [a, b] = [a * 4 + b div 16]"
| "sextets_bytes _ = []"

definition b64_sextets :: "string \<Rightarrow> nat list" where
  "b64_sextets s = List.map_filter char_sextet (takeWhile (\<lambda>c. c \<noteq> CHR ''='') s)"

definition b64_encode :: "byte list \<Rightarrow> string" where
  "b64_encode bs = b64_encode_nat (map unat bs)"

definition b64_decode :: "string \<Rightarrow> byte list" where
  "b64_decode s = map of_nat (sextets_bytes (b64_sextets s))"

definition atob_char :: "char \<Rightarrow> bool" where
  "atob_char c \<longleftrightarrow>
     c = CHR ''='' \<or> (char_sextet c \<noteq> None \<and> c \<noteq> CHR ''-'' \<and> c \<noteq> CHR ''_'')"

definition atob :: "string \<Rightarrow> js_error + byte list" where
  "atob s =
     (if list_all atob_char s \<and> length (takeWhile (\<lambda>c. c \<noteq> CHR ''='') s) mod 4 \<noteq> 1
      then Inr (b64_decode s)
      else Inl \<lparr> err_code = ''InvalidCharacterError'',
                 err_message = ''The string to be decoded is not correctly encoded.'' \<rparr>)"

text \<open>
  A small library: the random source counts upwards, text is one byte per character
  (UTF-8 on ASCII text), the envelope text is Base64, the derived key repeats the length
  of the password, the key stream is the position offset by the first byte of the IV,
  the authenticated mode appends sixteen zero bytes and checks their presence, and the
  only mnemonics are repetitions of one word.
\<close>

definition latin1_encode :: "string \<Rightarrow> byte list" where
  "latin1_encode s = map (\<lambda>c. of_nat (of_char c)) s"

definition latin1_decode :: "byte list \<Rightarrow> string" where
  "latin1_decode bs = map (\<lambda>b. char_of (unat b)) bs"

fun join_space :: "string list \<Rightarrow> string" where
  "join_space [] = []"
| "join_space [w] = w"
| "join_space (w # ws) = w @ '' '' @ join_space ws"

definition demo_mnemonic :: "nat \<Rightarrow> string" where
  "demo_mnemonic n = join_space (replicate n ''zoo'')"

definition demo_lib :: "nat crypto_lib" where
  "demo_lib =
     \<lparr> randomBytes = (\<lambda>n r. (map (\<lambda>k. of_nat (r + k)) [0 ..< n], r + n)),
        utf8_encode = latin1_encode,
        utf8_decode = latin1_decode,
        base64_encode = b64_encode,
        base64_decode = b64_decode,
        atob_bytes = atob,
        pbkdf2_sha256 = (\<lambda>password salt iterations keylen. replicate keylen (of_nat (length password))),
        aes256_ctr_keystream = (\<lambda>key iv k. of_nat k + (case iv of [] \<Rightarrow> 0 | b # _ \<Rightarrow> b)),
        aes_gcm_encrypt = (\<lambda>key iv data. data @ replicate 16 0),
        aes_gcm_decrypt = (\<lambda>key iv data.
          if 16 \<le> length data \<and> drop (length data - 16) data = replicate 16 0
          then Inr (take (length data - 16) data)
          else Inl \<lparr> err_code = ''OperationError'', err_message = ''decryption failed'' \<rparr>),
        bip39_entropyToMnemonic = (\<lambda>hex. Inr (demo_mnemonic (3 * length hex div 8))),
        bip39_generateMnemonic = (\<lambda>bits r. (Inr (demo_mnemonic (3 * bits div 32)), r + bits div 8)),
        bip39_validateMnemonic = (\<lambda>m. m \<in> set (map demo_mnemonic [12, 15, 18, 21, 24])) \<rparr>"

text \<open>A funding wallet, three recipients and a start state for the scripted node.\<close>

definition demo_params :: send_params where
  "demo_params =
     \<lparr> sp_wallet = ''0x00000000000000000000000000000000000000f1'',
        sp_value = 30000000000000,
        sp_fees = \<lparr> maxFeePerGas = 1000000000, maxPriorityFeePerGas = 1000000 \<rparr>,
        sp_waitConfirm = False,
        sp_delayMs = 400 \<rparr>"

definition demo_recipients :: "string list" where
  "demo_recipients =
     [''0x1111111111111111111111111111111111111111'',
      ''0x2222222222222222222222222222222222222222'',
      ''0x3333333333333333333333333333333333333333'']"

text \<open>
  The state before the loop: the script of the node, the pending nonce on the chain and
  the value of the local counter.
\<close>

definition demo_start :: "(js_error + string) list \<Rightarrow> nat \<Rightarrow> nat \<Rightarrow> sim_world send_state" where
  "demo_start script pending local =
     \<lparr> world = \<lparr> sw_script = script, sw_count = pending, sw_balance = 1000000000000000000 \<rparr>,
        logs = [], submissions = [],
        nextNonce = local, lastSubmittedHash = None \<rparr>"

definition stale_nonce :: js_error where
  "stale_nonce = \<lparr> err_code = ''NONCE_EXPIRED'', err_message = ''nonce too low'' \<rparr>"

definition in_flight_limit :: js_error where
  "in_flight_limit =
     \<lparr> err_code = ''UNKNOWN_ERROR'', err_message = ''in-flight transaction limit reached'' \<rparr>"

definition rejected :: js_error where
  "rejected = \<lparr> err_code = ''INSUFFICIENT_FUNDS'', err_message = ''insufficient funds'' \<rparr>"

text \<open>An account to reclaim from, and the parameters of a reclaim run.\<close>

definition demo_entry :: reclaim_entry where
  "demo_entry =
     \<lparr> re_address = ''0x4444444444444444444444444444444444444444'',
        re_privateKey =
          ''0x4444444444444444444444444444444444444444444444444444444444444444'' \<rparr>"

definition demo_reclaim :: reclaim_params where
  "demo_reclaim =
     \<lparr> rp_reclaimAddress = ''0x00000000000000000000000000000000000000f1'',
        rp_reserveWei = 100000000000,
        rp_fees = \<lparr> maxFeePerGas = 1000000000, maxPriorityFeePerGas = 1000000 \<rparr>,
        rp_waitConfirm = False,
        rp_delayMs = 400 \<rparr>"

definition demo_reclaim_start ::
  "(js_error + string) list \<Rightarrow> nat \<Rightarrow> int \<Rightarrow> sim_world run_state" where
  "demo_reclaim_start script pending balance =
     \<lparr> world = \<lparr> sw_script = script, sw_count = pending, sw_balance = balance \<rparr>,
        logs = [], submissions = [] \<rparr>"

text \<open>A request to the backend and the state of the frontend form, for the same batch.\<close>

definition demo_payload :: send_payload where
  "demo_payload =
     \<lparr> p_recipients = demo_recipients,
        p_amountEth = ''1'',
        p_delayMs = 400,
        p_waitConfirm = False,
        p_rpcUrl = ''https://rpc.example'',
        p_fundingSecret =
          ''0x4444444444444444444444444444444444444444444444444444444444444444'',
        p_fundingPath = [] \<rparr>"

definition demo_form :: gui_send_input where
  "demo_form =
     \<lparr> g_sending = False,
        g_fundingSecret =
          ''0x4444444444444444444444444444444444444444444444444444444444444444'',
        g_fundingPath = DEFAULT_ETH_PATH,
        g_rpcUrl = ''https://rpc.example'',
        g_selectedAddresses = [],
        g_validManualRecipients = demo_recipients,
        g_sendAmount = ''1'',
        g_waitConfirm = False,
        g_sendDelayMs = 400 \<rparr>"

definition demo_world :: "(js_error + string) list \<Rightarrow> nat \<Rightarrow> sim_world" where
  "demo_world script pending =
     \<lparr> sw_script = script, sw_count = pending, sw_balance = 1000000000000000000 \<rparr>"


text \<open>
  Two variants of the scripted node.  On the first the query of the pending nonce
  fails.  On the second every refused submission leaves the pending nonce one higher,
  as when another sender of the same account got in first.
\<close>

definition network_error :: js_error where
  "network_error = \<lparr> err_code = ''NETWORK_ERROR'', err_message = ''could not detect network'' \<rparr>"

definition unreachable_node :: "sim_world ethers" where
  "unreachable_node = scripted_node\<lparr> getTransactionCount := (\<lambda>a w. (Inl network_error, w)) \<rparr>"

definition racing_node :: "sim_world ethers" where
  "racing_node =
     scripted_node\<lparr> sendTransaction := (\<lambda>from tx w.
       case sw_script w of
         [] \<Rightarrow> (Inr ''0xabc'', w)
       | Inl e # rs \<Rightarrow> (Inl e, w\<lparr> sw_script := rs, sw_count := sw_count w + 1 \<rparr>)
       | Inr h # rs \<Rightarrow> (Inr h, w\<lparr> sw_script := rs \<rparr>)) \<rparr>"

section \<open>Funding secret: the two entry points\<close>

lemma dropWhile_id: "xs = [] \<or> \<not> P (hd xs) \<Longrightarrow> dropWhile P xs = xs"
  by (cases xs) auto

lemma trim_head: "trim s \<noteq> [] \<Longrightarrow> \<not> is_ws (hd (trim s))"
proof -
  assume ne: "trim s \<noteq> []"
  let ?a = "dropWhile is_ws s"
  let ?c = "dropWhile is_ws (rev ?a)"
  have c_ne: "?c \<noteq> []" using ne by (simp add: trim_def)
  have a_ne: "?a \<noteq> []"
  proof
    assume "?a = []"
    then have "?c = []" by (simp only: rev.simps dropWhile.simps)
    with c_ne show False by simp
  qed
  have "hd (rev ?c) = last ?c" using c_ne by (simp add: hd_rev)
  also have "last ?c = last (rev ?a)"
    using c_ne by (metis append_self_conv2 last_appendR takeWhile_dropWhile_id)
  also have "\<dots> = hd ?a" using a_ne by (simp add: last_rev)
  finally have "hd (trim s) = hd ?a" by (simp add: trim_def)
  moreover have "\<not> is_ws (hd ?a)" using a_ne by (simp add: hd_dropWhile)
  ultimately show ?thesis by simp
qed

lemma trim_trim: "trim (trim s) = trim s"
proof -
  have 1: "dropWhile is_ws (trim s) = trim s"
    using trim_head [of s] by (intro dropWhile_id) auto
  have "dropWhile is_ws (rev (trim s)) = dropWhile is_ws (dropWhile is_ws (rev (dropWhile is_ws s)))"
    by (simp add: trim_def)
  also have "\<dots> = dropWhile is_ws (rev (dropWhile is_ws s))"
    by (simp add: dropWhile_idem)
  finally have 2: "rev (dropWhile is_ws (rev (trim s))) = trim s"
    by (simp add: trim_def)
  show ?thesis
    unfolding trim_def [of "trim s"] 1 2 ..
qed

lemma lift_js_cases:
  "lift_js r = Inl e \<Longrightarrow> \<exists>j. e = Thrown j"
  by (cases r) (auto simp: lift_js_def)

lemma resolve_errors:
  "resolveFundingWallet E env_path secret path = Inl e
     \<Longrightarrow> (e = FundingSecretRequired \<and> trim secret = []) \<or> (\<exists>j. e = Thrown j)"
  by (auto simp: resolveFundingWallet_def Let_def split: if_splits dest: lift_js_cases)

lemma gui_rejects:
  assumes "\<not> g_sending G" and "trim (g_fundingSecret G) \<noteq> []" and "trim (g_rpcUrl G) \<noteq> []"
    and "g_selectedAddresses G \<noteq> [] \<or> g_validManualRecipients G \<noteq> []"
    and "parseEther E (g_sendAmount G) = Inr amountWei"
    and "resolveFundingWallet_gui E (g_fundingSecret G) (g_fundingPath G) = Inl InvalidFundingInput"
  shows "handleBatchSend E G sendLogs w
           = \<lparr> world = w, logs = [SendFlowFailed InvalidFundingInput], submissions = [] \<rparr>"
  using assms by (auto simp: handleBatchSend_def Let_def)

lemma resolve_required:
  "resolveFundingWallet E env_path other path = Inl FundingSecretRequired \<longleftrightarrow> trim other = []"
  by (auto simp: resolveFundingWallet_def Let_def lift_js_def split: sum.splits)

lemma handleSendBatch_no_unknown:
  "handleSendBatch E env_path payload w \<noteq> Inl InvalidFundingInput"
proof
  assume bad: "handleSendBatch E env_path payload w = Inl InvalidFundingInput"
  let ?path = "if p_fundingPath payload = [] then FUNDING_PATH env_path else p_fundingPath payload"
  have "resolveFundingWallet E env_path (p_fundingSecret payload) ?path \<noteq> Inl InvalidFundingInput"
    using resolve_errors [of E env_path "p_fundingSecret payload" ?path InvalidFundingInput]
    by auto
  with bad show False
    by (auto simp: handleSendBatch_def Let_def split: if_splits sum.splits prod.splits)
qed

lemma short_secret_backend:
  assumes ne: "trim secret \<noteq> []"
    and few: "length (filter_Boolean (split_ws [] (trim secret))) < 12"
  shows "resolveFundingWallet E env_path secret path =
           lift_js (Wallet_new E (if startsWith (trim secret) ''0x'' then trim secret
                                  else ''0x'' @ trim secret))"
  using assms by (simp add: resolveFundingWallet_def Let_def)

lemma short_secret_gui:
  assumes few: "length (filter_Boolean (split_ws [] (trim secret))) < 12"
  shows "length (trim secret) < 64 \<Longrightarrow>
           guessSecretType secret = Unknown
         \<and> resolveFundingWallet_gui E secret fundingPath = Inl InvalidFundingInput"
    and "64 \<le> length (trim secret) \<Longrightarrow>
           guessSecretType secret = PrivateKey
         \<and> resolveFundingWallet_gui E secret fundingPath =
             lift_js (Wallet_new E (if startsWith (trim secret) ''0x'' then trim secret
                                    else ''0x'' @ trim secret))"
  using assms
  by (auto simp: resolveFundingWallet_gui_def guessSecretType_def Let_def trim_trim)

lemma lift_js_Inr: "lift_js r = Inr v \<longleftrightarrow> r = Inr v"
  by (cases r) (simp_all add: lift_js_def)

lemma same_acceptance:
  assumes ne: "trim secret \<noteq> []"
    and few: "length (filter_Boolean (split_ws [] (trim secret))) < 12"
    and contract: "\<And>key wallet. Wallet_new E key = Inr wallet \<Longrightarrow> length key = 66"
  shows "resolveFundingWallet E env_path secret path = Inr wallet
           \<longleftrightarrow> resolveFundingWallet_gui E secret fundingPath = Inr wallet"
    and "length (trim secret) < 64 \<Longrightarrow> \<exists>j. resolveFundingWallet E env_path secret path = Inl (Thrown j)"
proof -
  let ?key = "if startsWith (trim secret) ''0x'' then trim secret else ''0x'' @ trim secret"
  note backend = short_secret_backend [OF ne few, of E env_path path]
  have refused: "\<exists>j. Wallet_new E ?key = Inl j" if short: "length (trim secret) < 64"
  proof (cases "Wallet_new E ?key")
    case (Inl j)
    then show ?thesis by blast
  next
    case (Inr wallet')
    then have "length ?key = 66" by (rule contract)
    with short show ?thesis by (simp split: if_splits)
  qed
  show "length (trim secret) < 64 \<Longrightarrow> \<exists>j. resolveFundingWallet E env_path secret path = Inl (Thrown j)"
    using refused unfolding backend by (auto simp: lift_js_def)
  show "resolveFundingWallet E env_path secret path = Inr wallet
           \<longleftrightarrow> resolveFundingWallet_gui E secret fundingPath = Inr wallet"
  proof (cases "length (trim secret) < 64")
    case True
    then show ?thesis
      using refused short_secret_gui(1) [OF few, of E fundingPath] unfolding backend
      by (auto simp: lift_js_def)
  next
    case False
    then show ?thesis
      using short_secret_gui(2) [OF few, of E fundingPath] unfolding backend by simp
  qed
qed

lemma scripted_contract: "Wallet_new scripted_node key = Inr wallet \<Longrightarrow> length key = 66"
  by (simp add: scripted_node_def split: if_splits)

lemma trim_Nil: "trim [] = []"
  by (simp add: trim_def)

lemma scripted_same_acceptance:
  "(\<exists>wallet. resolveFundingWallet scripted_node env_path secret path = Inr wallet)
     = (\<exists>wallet. resolveFundingWallet_gui scripted_node secret fundingPath = Inr wallet)"
proof (cases "trim secret = []")
  case True
  then show ?thesis
    by (simp add: resolveFundingWallet_def resolveFundingWallet_gui_def guessSecretType_def
          Let_def filter_Boolean_def trim_Nil)
next
  case ne: False
  show ?thesis
  proof (cases "length (filter_Boolean (split_ws [] (trim secret))) < 12")
    case True
    have "resolveFundingWallet scripted_node env_path secret path = Inr wallet
            \<longleftrightarrow> resolveFundingWallet_gui scripted_node secret fundingPath = Inr wallet"
      for wallet
      by (rule same_acceptance(1) [OF ne True]) (rule scripted_contract)
    then show ?thesis by simp
  next
    case False
    then show ?thesis
      using ne
      by (simp add: resolveFundingWallet_def resolveFundingWallet_gui_def guessSecretType_def
            Let_def trim_trim lift_js_def scripted_node_def)
  qed
qed

lemma demo_key64:
  "trim ''4444444444444444444444444444444444444444444444444444444444444444''
     = ''4444444444444444444444444444444444444444444444444444444444444444''"
  by (simp add: trim_def is_ws_def)

lemma demo_key64_wallets:
  "resolveFundingWallet scripted_node []
     ''4444444444444444444444444444444444444444444444444444444444444444'' []
     = Inr ''0x4444444444444444444444444444444444444444''"
  "resolveFundingWallet_gui scripted_node
     ''4444444444444444444444444444444444444444444444444444444444444444'' DEFAULT_ETH_PATH
     = Inr ''0x4444444444444444444444444444444444444444''"
  by (simp_all add: resolveFundingWallet_def resolveFundingWallet_gui_def guessSecretType_def
        demo_key64 Let_def startsWith_def scripted_node_def lift_js_def
        is_ws_def filter_Boolean_def)

text \<open>
  Claim C10 as stated fails in its conclusion.  On the scripted node, whose wallet
  constructor accepts keys of 66 characters as the one of ethers does, the secret
  \<^verbatim>\<open>" abc "\<close> is refused at both entry points (by the wallet constructor behind the
  backend, by \<^verbatim>\<open>guessSecretType\<close> in the frontend), a key of 64 digits gives the same
  wallet at both, and no secret is accepted by one entry point and refused by the other.
\<close>

theorem funding_secret_disagreement_counterexample:
  "resolveFundingWallet scripted_node [] '' abc '' [] =
     Inl (Thrown \<lparr> err_code = ''INVALID_ARGUMENT'', err_message = ''invalid private key'' \<rparr>)
 \<and> resolveFundingWallet_gui scripted_node '' abc '' DEFAULT_ETH_PATH = Inl InvalidFundingInput
 \<and> handleSendBatch scripted_node [] (demo_payload\<lparr> p_fundingSecret := '' abc '' \<rparr>)
      (demo_world [] 5)
     = Inl (Thrown \<lparr> err_code = ''INVALID_ARGUMENT'', err_message = ''invalid private key'' \<rparr>)
 \<and> handleBatchSend scripted_node (demo_form\<lparr> g_fundingSecret := '' abc '' \<rparr>) []
      (demo_world [] 5)
     = \<lparr> world = demo_world [] 5, logs = [SendFlowFailed InvalidFundingInput],
          submissions = [] \<rparr>
 \<and> resolveFundingWallet scripted_node []
      ''4444444444444444444444444444444444444444444444444444444444444444'' []
     = Inr ''0x4444444444444444444444444444444444444444''
 \<and> resolveFundingWallet_gui scripted_node
      ''4444444444444444444444444444444444444444444444444444444444444444'' DEFAULT_ETH_PATH
     = Inr ''0x4444444444444444444444444444444444444444''
 \<and> (\<forall>secret env_path path fundingPath.
       (\<exists>wallet. resolveFundingWallet scripted_node env_path secret path = Inr wallet)
         = (\<exists>wallet. resolveFundingWallet_gui scripted_node secret fundingPath = Inr wallet))"
proof -
  have abc: "resolveFundingWallet scripted_node [] '' abc '' [] =
       Inl (Thrown \<lparr> err_code = ''INVALID_ARGUMENT'', err_message = ''invalid private key'' \<rparr>)
     \<and> resolveFundingWallet_gui scripted_node '' abc '' DEFAULT_ETH_PATH = Inl InvalidFundingInput
     \<and> handleSendBatch scripted_node [] (demo_payload\<lparr> p_fundingSecret := '' abc '' \<rparr>)
          (demo_world [] 5)
         = Inl (Thrown \<lparr> err_code = ''INVALID_ARGUMENT'', err_message = ''invalid private key'' \<rparr>)
     \<and> handleBatchSend scripted_node (demo_form\<lparr> g_fundingSecret := '' abc '' \<rparr>) []
          (demo_world [] 5)
         = \<lparr> world = demo_world [] 5, logs = [SendFlowFailed InvalidFundingInput],
              submissions = [] \<rparr>"
    by (simp add: trim_def is_ws_def filter_Boolean_def startsWith_def scripted_node_def
          lift_js_def demo_form_def demo_recipients_def parse_digits_def handleSendBatch_def
          handleBatchSend_def demo_payload_def resolveFundingWallet_def
          resolveFundingWallet_gui_def guessSecretType_def Let_def)
  show ?thesis
    using abc demo_key64_wallets scripted_same_acceptance by simp
qed

text \<open>
  Claim C10, amended.  For a secret that is not empty after trimming and has fewer than
  twelve words, the backend's \<^verbatim>\<open>resolveFundingWallet\<close> hands the trimmed text, with \<^verbatim>\<open>0x\<close>
  put in front when absent, to the wallet constructor as a private key; neither it nor
  \<^verbatim>\<open>handleSendBatch\<close> has a branch that rejects a secret as unrecognised: the only error of
  its own is the one for a secret that is empty after trimming, every other failure is
  thrown by the wallet constructor.  When the trimmed text is shorter than 64 characters,
  the frontend's \<^verbatim>\<open>guessSecretType\<close> answers \<^verbatim>\<open>unknown\<close>, its \<^verbatim>\<open>resolveFundingWallet\<close> rejects
  the secret without calling a wallet constructor, and \<^verbatim>\<open>handleBatchSend\<close> ends with that
  error and no submission; from 64 characters on, the frontend makes the same call of
  the wallet constructor as the backend.  So the two entry points differ in who refuses
  a short secret and with which error, not in which secrets are accepted: when the
  wallet constructor refuses every key that is not 66 characters long, the backend
  yields a wallet exactly when the frontend does, the same one, and for a trimmed text
  shorter than 64 characters the backend fails with what the constructor throws.
\<close>

theorem funding_secret_same_acceptance:
  assumes "trim secret \<noteq> []"
    and "length (filter_Boolean (split_ws [] (trim secret))) < 12"
  shows "resolveFundingWallet E env_path secret path =
           lift_js (Wallet_new E (if startsWith (trim secret) ''0x'' then trim secret
                                  else ''0x'' @ trim secret))
       \<and> resolveFundingWallet E env_path secret path \<noteq> Inl InvalidFundingInput
       \<and> handleSendBatch E env_path payload w \<noteq> Inl InvalidFundingInput
       \<and> (resolveFundingWallet E env_path other path = Inl FundingSecretRequired
            \<longleftrightarrow> trim other = [])
       \<and> (\<forall>e. resolveFundingWallet E env_path other path = Inl e
              \<longrightarrow> e = FundingSecretRequired \<or> (\<exists>j. e = Thrown j))
       \<and> (length (trim secret) < 64 \<longrightarrow>
            guessSecretType secret = Unknown
          \<and> resolveFundingWallet_gui E secret fundingPath = Inl InvalidFundingInput
          \<and> (\<not> g_sending G \<and> g_fundingSecret G = secret \<and> trim (g_rpcUrl G) \<noteq> []
               \<and> (g_selectedAddresses G \<noteq> [] \<or> g_validManualRecipients G \<noteq> [])
               \<and> parseEther E (g_sendAmount G) = Inr amountWei
              \<longrightarrow> handleBatchSend E G sendLogs w
                    = \<lparr> world = w, logs = [SendFlowFailed InvalidFundingInput],
                         submissions = [] \<rparr>))
       \<and> (64 \<le> length (trim secret) \<longrightarrow>
            guessSecretType secret = PrivateKey
          \<and> resolveFundingWallet_gui E secret fundingPath
              = resolveFundingWallet E env_path secret path)
       \<and> ((\<forall>key wallet. Wallet_new E key = Inr wallet \<longrightarrow> length key = 66) \<longrightarrow>
            (\<forall>wallet. resolveFundingWallet E env_path secret path = Inr wallet
                        \<longleftrightarrow> resolveFundingWallet_gui E secret fundingPath = Inr wallet)
          \<and> (length (trim secret) < 64 \<longrightarrow>
                (\<exists>j. resolveFundingWallet E env_path secret path = Inl (Thrown j))))"
proof -
  note backend = short_secret_backend [OF assms, of E env_path path]
  have no_unknown: "resolveFundingWallet E env_path secret path \<noteq> Inl InvalidFundingInput"
    unfolding backend by (simp add: lift_js_def split: sum.splits)
  have handler: "handleSendBatch E env_path payload w \<noteq> Inl InvalidFundingInput"
    by (rule handleSendBatch_no_unknown)
  have required: "resolveFundingWallet E env_path other path = Inl FundingSecretRequired
            \<longleftrightarrow> trim other = []"
    by (rule resolve_required)
  have errors: "\<forall>e. resolveFundingWallet E env_path other path = Inl e
              \<longrightarrow> e = FundingSecretRequired \<or> (\<exists>j. e = Thrown j)"
    using resolve_errors [of E env_path other path] by blast
  note gui = short_secret_gui(1) [OF assms(2)]
  have form: "handleBatchSend E G sendLogs w
                = \<lparr> world = w, logs = [SendFlowFailed InvalidFundingInput], submissions = [] \<rparr>"
    if "length (trim secret) < 64" and "\<not> g_sending G" and "g_fundingSecret G = secret"
      and "trim (g_rpcUrl G) \<noteq> []"
      and "g_selectedAddresses G \<noteq> [] \<or> g_validManualRecipients G \<noteq> []"
      and "parseEther E (g_sendAmount G) = Inr amountWei"
  proof (rule gui_rejects)
    show "resolveFundingWallet_gui E (g_fundingSecret G) (g_fundingPath G) = Inl InvalidFundingInput"
      using gui [OF that(1), of E "g_fundingPath G"] that(3) by simp
    show "trim (g_fundingSecret G) \<noteq> []" using assms(1) that(3) by simp
  qed (use that in auto)
  have long: "guessSecretType secret = PrivateKey
          \<and> resolveFundingWallet_gui E secret fundingPath
              = resolveFundingWallet E env_path secret path"
    if "64 \<le> length (trim secret)"
    using short_secret_gui(2) [OF assms(2) that, of E fundingPath] unfolding backend by simp
  have same: "(\<forall>wallet. resolveFundingWallet E env_path secret path = Inr wallet
                        \<longleftrightarrow> resolveFundingWallet_gui E secret fundingPath = Inr wallet)
          \<and> (length (trim secret) < 64 \<longrightarrow>
                (\<exists>j. resolveFundingWallet E env_path secret path = Inl (Thrown j)))"
    if contract: "\<forall>key wallet. Wallet_new E key = Inr wallet \<longrightarrow> length key = 66"
  proof -
    have c: "\<And>key wallet. Wallet_new E key = Inr wallet \<Longrightarrow> length key = 66"
      using contract by blast
    have iff: "resolveFundingWallet E env_path secret path = Inr wallet
                 \<longleftrightarrow> resolveFundingWallet_gui E secret fundingPath = Inr wallet" for wallet
      by (rule same_acceptance(1) [OF assms]) (rule c)
    have thrown: "\<exists>j. resolveFundingWallet E env_path secret path = Inl (Thrown j)"
      if "length (trim secret) < 64"
      by (rule same_acceptance(2) [OF assms _ that]) (rule c)
    show ?thesis using iff thrown by blast
  qed
  have short: "guessSecretType secret = Unknown
          \<and> resolveFundingWallet_gui E secret fundingPath = Inl InvalidFundingInput
          \<and> (\<not> g_sending G \<and> g_fundingSecret G = secret \<and> trim (g_rpcUrl G) \<noteq> []
               \<and> (g_selectedAddresses G \<noteq> [] \<or> g_validManualRecipients G \<noteq> [])
               \<and> parseEther E (g_sendAmount G) = Inr amountWei
              \<longrightarrow> handleBatchSend E G sendLogs w
                    = \<lparr> world = w, logs = [SendFlowFailed InvalidFundingInput],
                         submissions = [] \<rparr>)"
    if "length (trim secret) < 64"
    using gui [OF that, of E fundingPath] form [OF that] by blast
  have c6: "length (trim secret) < 64 \<longrightarrow>
            guessSecretType secret = Unknown
          \<and> resolveFundingWallet_gui E secret fundingPath = Inl InvalidFundingInput
          \<and> (\<not> g_sending G \<and> g_fundingSecret G = secret \<and> trim (g_rpcUrl G) \<noteq> []
               \<and> (g_selectedAddresses G \<noteq> [] \<or> g_validManualRecipients G \<noteq> [])
               \<and> parseEther E (g_sendAmount G) = Inr amountWei
              \<longrightarrow> handleBatchSend E G sendLogs w
                    = \<lparr> world = w, logs = [SendFlowFailed InvalidFundingInput],
                         submissions = [] \<rparr>)"
    using short by (rule impI)
  have c7: "64 \<le> length (trim secret) \<longrightarrow>
            guessSecretType secret = PrivateKey
          \<and> resolveFundingWallet_gui E secret fundingPath
              = resolveFundingWallet E env_path secret path"
    using long by (rule impI)
  have c8: "(\<forall>key wallet. Wallet_new E key = Inr wallet \<longrightarrow> length key = 66) \<longrightarrow>
            (\<forall>wallet. resolveFundingWallet E env_path secret path = Inr wallet
                        \<longleftrightarrow> resolveFundingWallet_gui E secret fundingPath = Inr wallet)
          \<and> (length (trim secret) < 64 \<longrightarrow>
                (\<exists>j. resolveFundingWallet E env_path secret path = Inl (Thrown j)))"
    using same by (rule impI)
  show ?thesis
    using backend no_unknown handler required errors c6 c7 c8
    by (intro conjI)
qed

text \<open>
  The secret \<^verbatim>\<open>" abc "\<close> and a key of 64 digits on the scripted node, alone and as the
  funding secret of the demonstration batch.
\<close>

theorem funding_secret_same_acceptance_witness:
  "resolveFundingWallet scripted_node [] '' abc '' [] =
     Inl (Thrown \<lparr> err_code = ''INVALID_ARGUMENT'', err_message = ''invalid private key'' \<rparr>)
   \<and> guessSecretType '' abc '' = Unknown
   \<and> resolveFundingWallet_gui scripted_node '' abc '' DEFAULT_ETH_PATH = Inl InvalidFundingInput
   \<and> handleBatchSend scripted_node (demo_form\<lparr> g_fundingSecret := '' abc '' \<rparr>) []
        (demo_world [] 5)
       = \<lparr> world = demo_world [] 5, logs = [SendFlowFailed InvalidFundingInput],
            submissions = [] \<rparr>
   \<and> guessSecretType ''4444444444444444444444444444444444444444444444444444444444444444''
       = PrivateKey
   \<and> resolveFundingWallet_gui scripted_node
        ''4444444444444444444444444444444444444444444444444444444444444444'' DEFAULT_ETH_PATH
       = Inr ''0x4444444444444444444444444444444444444444''
   \<and> resolveFundingWallet scripted_node []
        ''4444444444444444444444444444444444444444444444444444444444444444'' []
       = Inr ''0x4444444444444444444444444444444444444444''"
proof -
  let ?form = "demo_form\<lparr> g_fundingSecret := '' abc '' \<rparr>"
  let ?key = "''4444444444444444444444444444444444444444444444444444444444444444''"
  have trim_abc: "trim '' abc '' = ''abc''"
    by (simp add: trim_def is_ws_def)
  have ne: "trim '' abc '' \<noteq> []"
    unfolding trim_abc by simp
  have few: "length (filter_Boolean (split_ws [] (trim '' abc ''))) < 12"
    unfolding trim_abc by (simp add: is_ws_def filter_Boolean_def)
  have lt: "length (trim '' abc '') < 64"
    unfolding trim_abc by simp
  note short = funding_secret_same_acceptance [OF ne few, where E = scripted_node
      and env_path = "[]" and path = "[]" and fundingPath = DEFAULT_ETH_PATH
      and payload = "demo_payload\<lparr> p_fundingSecret := '' abc '' \<rparr>"
      and w = "demo_world [] 5" and other = "[]" and G = ?form
      and amountWei = 1000000000000000000 and sendLogs = "[]"]
  have backend: "resolveFundingWallet scripted_node [] '' abc '' [] =
     Inl (Thrown \<lparr> err_code = ''INVALID_ARGUMENT'', err_message = ''invalid private key'' \<rparr>)"
    using short [THEN conjunct1] unfolding trim_abc
    by (simp add: startsWith_def scripted_node_def lift_js_def)
  note refused = short [THEN conjunct2, THEN conjunct2, THEN conjunct2, THEN conjunct2, THEN conjunct2, THEN conjunct1, THEN mp, OF lt]
  have form: "\<not> g_sending ?form \<and> g_fundingSecret ?form = '' abc '' \<and> trim (g_rpcUrl ?form) \<noteq> []
               \<and> (g_selectedAddresses ?form \<noteq> [] \<or> g_validManualRecipients ?form \<noteq> [])
               \<and> parseEther scripted_node (g_sendAmount ?form) = Inr 1000000000000000000"
    by (simp add: demo_form_def demo_recipients_def trim_def is_ws_def scripted_node_def
          parse_digits_def)
  note rejected_form = refused [THEN conjunct2, THEN conjunct2, THEN mp, OF form]
  have ne_key: "trim ?key \<noteq> []"
    unfolding demo_key64 by simp
  have few_key: "length (filter_Boolean (split_ws [] (trim ?key))) < 12"
    unfolding demo_key64 by (simp add: is_ws_def filter_Boolean_def)
  have ge: "64 \<le> length (trim ?key)"
    unfolding demo_key64 by simp
  note long = funding_secret_same_acceptance [OF ne_key few_key, where E = scripted_node
      and env_path = "[]" and path = "[]" and fundingPath = DEFAULT_ETH_PATH
      and payload = demo_payload and w = "demo_world [] 5" and other = "[]" and G = demo_form
      and amountWei = 1000000000000000000 and sendLogs = "[]"]
  have backend_key: "resolveFundingWallet scripted_node [] ?key []
                       = Inr ''0x4444444444444444444444444444444444444444''"
    using long [THEN conjunct1] unfolding demo_key64
    by (simp add: startsWith_def scripted_node_def lift_js_def)
  note same_call = long [THEN conjunct2, THEN conjunct2, THEN conjunct2, THEN conjunct2, THEN conjunct2, THEN conjunct2, THEN conjunct1, THEN mp, OF ge]
  show ?thesis
    using backend refused [THEN conjunct1] refused [THEN conjunct2, THEN conjunct1]
      rejected_form same_call [THEN conjunct1] same_call [THEN conjunct2] backend_key
    by simp
qed

section \<open>Mnemonic generation and the cipher envelope: properties\<close>

lemma ctr_crypt_length: "length (ctr_crypt L key iv data) = length data"
  by (simp add: ctr_crypt_def)

lemma ctr_crypt_nth:
  "k < length data \<Longrightarrow> ctr_crypt L key iv data ! k = data ! k XOR aes256_ctr_keystream L key iv k"
  by (simp add: ctr_crypt_def)

lemma ctr_crypt_involution: "ctr_crypt L key iv (ctr_crypt L key iv data) = data"
proof (rule nth_equalityI)
  show "length (ctr_crypt L key iv (ctr_crypt L key iv data)) = length data"
    by (simp add: ctr_crypt_length)
next
  fix k assume "k < length (ctr_crypt L key iv (ctr_crypt L key iv data))"
  then have k: "k < length data" by (simp add: ctr_crypt_length)
  then show "ctr_crypt L key iv (ctr_crypt L key iv data) ! k = data ! k"
    by (simp add: ctr_crypt_nth ctr_crypt_length xor.assoc)
qed

lemma envelope_slices:
  assumes "length salt = 16" and "length iv = 16"
  shows "take 16 (salt @ iv @ enc) = salt"
    and "take 16 (drop 16 (salt @ iv @ enc)) = iv"
    and "drop 32 (salt @ iv @ enc) = enc"
  using assms by simp_all

text \<open>
  Claim C1.  In the AES-256-CTR module, for a mnemonic that passes \<^verbatim>\<open>validateMnemonic\<close>
  and a non-empty password, \<^verbatim>\<open>encryptMnemonic\<close> returns an envelope and
  \<^verbatim>\<open>decryptMnemonic\<close> of that envelope with the same password returns the mnemonic.  The
  libraries enter through their contracts: the random source returns as many bytes as
  asked for, decoding UTF-8 inverts encoding on the mnemonic, and decoding Base64 inverts
  encoding.
\<close>

theorem encrypt_decrypt_roundtrip:
  assumes valid: "validateMnemonic L m"
    and m: "m \<noteq> []" and p: "p \<noteq> []"
    and rb: "\<And>n r. length (fst (randomBytes L n r)) = n"
    and u8: "utf8_decode L (utf8_encode L m) = m"
    and b64: "\<And>bs. base64_decode L (base64_encode L bs) = bs"
    and b64e: "base64_decode L [] = []"
  shows "\<exists>e r'. encryptMnemonic L m p r = (Inr e, r') \<and> decryptMnemonic L e p = Inr m"
proof -
  obtain salt r1 where s: "randomBytes L 16 r = (salt, r1)" by (cases "randomBytes L 16 r")
  obtain iv r2 where i: "randomBytes L 16 r1 = (iv, r2)" by (cases "randomBytes L 16 r1")
  have ls: "length salt = 16" using rb [of 16 r] s by simp
  have li: "length iv = 16" using rb [of 16 r1] i by simp
  let ?key = "pbkdf2_sha256 L (utf8_encode L p) salt 10000 32"
  let ?enc = "ctr_crypt L ?key iv (utf8_encode L m)"
  let ?e = "base64_encode L (salt @ iv @ ?enc)"
  have enc: "encryptMnemonic L m p r = (Inr ?e, r2)"
    using valid m p by (simp add: encryptMnemonic_def s i)
  have dec_data: "base64_decode L ?e = salt @ iv @ ?enc" by (rule b64)
  have ne: "?e \<noteq> []"
  proof
    assume a: "?e = []"
    have "salt @ iv @ ?enc = base64_decode L ?e" by (rule dec_data [symmetric])
    also have "\<dots> = base64_decode L []" by (simp only: a)
    also have "\<dots> = []" by (rule b64e)
    finally have "salt @ iv @ ?enc = []" .
    then have "salt = []" by simp
    with ls show False by simp
  qed
  have "decryptMnemonic L ?e p = Inr m"
    using valid p ne ls li
    by (simp add: decryptMnemonic_def dec_data ctr_crypt_involution u8)
  then show ?thesis using enc by blast
qed

lemma byte_mod_256: "unat (b :: byte) mod 256 = unat b"
  using unsigned_less [of b, where ?'a = nat] by simp

lemma latin1_roundtrip: "latin1_encode (latin1_decode bs) = bs"
  by (induction bs) (simp_all add: latin1_encode_def latin1_decode_def byte_mod_256)

lemma latin1_roundtrip': "latin1_decode (latin1_encode s) = s"
  by (induction s) (simp_all add: latin1_encode_def latin1_decode_def unat_of_nat)

subsection \<open>The Base64 codec of the small library\<close>

lemma sextet_roundtrip: "n < 64 \<Longrightarrow> char_sextet (sextet_char n) = Some n"
  by (auto simp: sextet_char_def char_sextet_def Let_def)

lemma char_sextet_pad: "char_sextet CHR ''='' = None"
  by (simp add: char_sextet_def)

lemma sextet_not_pad: "n < 64 \<Longrightarrow> sextet_char n \<noteq> CHR ''=''"
  using sextet_roundtrip [of n] char_sextet_pad by auto

lemma sextet_atob_char: "n < 64 \<Longrightarrow> atob_char (sextet_char n)"
proof -
  assume n: "n < 64"
  have "char_sextet CHR ''-'' = Some 62" "char_sextet CHR ''_'' = Some 63"
    by (simp_all add: char_sextet_def)
  moreover have "sextet_char 62 = CHR ''+''" "sextet_char 63 = CHR ''/''"
    by (simp_all add: sextet_char_def)
  ultimately have "sextet_char n \<noteq> CHR ''-''" "sextet_char n \<noteq> CHR ''_''"
    using sextet_roundtrip [OF n] by auto
  then show ?thesis
    using sextet_roundtrip [OF n] by (simp add: atob_char_def)
qed

lemma atob_char_pad: "atob_char CHR ''=''"
  by (simp add: atob_char_def)

lemma b64_sextets_Cons:
  "n < 64 \<Longrightarrow> b64_sextets (sextet_char n # s) = n # b64_sextets s"
  by (simp add: b64_sextets_def sextet_not_pad sextet_roundtrip List.map_filter_simps)

lemma b64_sextets_pad: "b64_sextets (CHR ''='' # s) = []"
  by (simp add: b64_sextets_def List.map_filter_simps)

lemma b64_sextets_Nil: "b64_sextets [] = []"
  by (simp add: b64_sextets_def List.map_filter_simps)

lemma sextet_bounds:
  assumes "x < 256" "y < 256" "z < 256"
  shows "x div 4 < 64" "(x mod 4) * 16 + y div 16 < 64" "(y mod 16) * 4 + z div 64 < 64"
    "z mod 64 < (64 :: nat)" "(x mod 4) * 16 < 64" "(y mod 16) * 4 < 64"
  using assms by simp_all

lemma sextet_bytes:
  assumes "x < 256" "y < 256" "z < 256"
  shows "x div 4 * 4 + ((x mod 4) * 16 + y div 16) div 16 = x"
    "((x mod 4) * 16 + y div 16) mod 16 * 16 + ((y mod 16) * 4 + z div 64) div 4 = y"
    "((y mod 16) * 4 + z div 64) mod 4 * 64 + z mod 64 = (z :: nat)"
    "x div 4 * 4 + ((x mod 4) * 16) div 16 = x"
    "((x mod 4) * 16 + y div 16) mod 16 * 16 + ((y mod 16) * 4) div 4 = y"
  using assms by (simp_all add: div_add1_eq mod_add_eq)

lemma b64_roundtrip_nat:
  "\<forall>x \<in> set xs. x < 256 \<Longrightarrow> sextets_bytes (b64_sextets (b64_encode_nat xs)) = xs"
proof (induction xs rule: b64_encode_nat.induct)
  case (1 x y z rest)
  then have b: "x < 256" "y < 256" "z < 256" and r: "\<forall>x \<in> set rest. x < 256" by simp_all
  show ?case
    by (simp only: b64_encode_nat.simps append_Cons append_Nil b64_sextets_Cons
          sextet_bounds [OF b] sextets_bytes.simps sextet_bytes [OF b] "1.IH" [OF r])
next
  case (2 x y)
  then have b: "x < 256" "y < 256" "(0 :: nat) < 256" by simp_all
  show ?case
    by (simp only: b64_encode_nat.simps b64_sextets_Cons b64_sextets_pad
          sextet_bounds [OF b] sextets_bytes.simps sextet_bytes [OF b])
next
  case (3 x)
  then have b: "x < 256" "(0 :: nat) < 256" "(0 :: nat) < 256" by simp_all
  show ?case
    by (simp only: b64_encode_nat.simps b64_sextets_Cons b64_sextets_pad
          sextet_bounds [OF b] sextets_bytes.simps sextet_bytes [OF b])
next
  case 4
  show ?case by (simp add: b64_sextets_Nil)
qed

text \<open>The text that \<^const>\<open>b64_encode_nat\<close> produces is accepted by \<^const>\<open>atob\<close>.\<close>

lemma b64_encode_atob_ok:
  "\<forall>x \<in> set xs. x < 256 \<Longrightarrow>
     list_all atob_char (b64_encode_nat xs)
   \<and> length (takeWhile (\<lambda>c. c \<noteq> CHR ''='') (b64_encode_nat xs)) mod 4 \<noteq> 1"
proof (induction xs rule: b64_encode_nat.induct)
  case (1 x y z rest)
  then have b: "x < 256" "y < 256" "z < 256" and r: "\<forall>x \<in> set rest. x < 256" by simp_all
  show ?case
    using "1.IH" [OF r] sextet_bounds [OF b]
    by (simp add: sextet_atob_char sextet_not_pad)
next
  case (2 x y)
  then have b: "x < 256" "y < 256" "(0 :: nat) < 256" by simp_all
  show ?case
    using sextet_bounds [OF b]
    by (simp add: sextet_atob_char sextet_not_pad atob_char_pad)
next
  case (3 x)
  then have b: "x < 256" "(0 :: nat) < 256" "(0 :: nat) < 256" by simp_all
  show ?case
    using sextet_bounds [OF b]
    by (simp add: sextet_atob_char sextet_not_pad atob_char_pad)
next
  case 4
  show ?case by simp
qed

lemma unat_bytes: "\<forall>x \<in> set (map unat (bs :: byte list)). x < 256"
  using unsigned_less [where ?'a = nat and ?'b = 8] by auto

lemma b64_roundtrip: "b64_decode (b64_encode bs) = bs"
proof -
  have "sextets_bytes (b64_sextets (b64_encode_nat (map unat bs))) = map unat bs"
    using unat_bytes by (rule b64_roundtrip_nat)
  then show ?thesis
    by (simp add: b64_decode_def b64_encode_def comp_def)
qed

lemma atob_roundtrip: "atob (b64_encode bs) = Inr bs"
proof -
  have "list_all atob_char (b64_encode bs)
      \<and> length (takeWhile (\<lambda>c. c \<noteq> CHR ''='') (b64_encode bs)) mod 4 \<noteq> 1"
    unfolding b64_encode_def using unat_bytes by (rule b64_encode_atob_ok)
  then show ?thesis by (simp add: atob_def b64_roundtrip)
qed

lemma b64_decode_Nil: "b64_decode [] = []"
  by (simp add: b64_decode_def b64_sextets_Nil)

lemma b64_encode_nonempty: "bs \<noteq> [] \<Longrightarrow> b64_encode bs \<noteq> []"
  using b64_roundtrip [of bs] b64_decode_Nil by auto



lemma demo_mnemonic_12: "demo_mnemonic 12 = ''zoo zoo zoo zoo zoo zoo zoo zoo zoo zoo zoo zoo''"
  by (simp add: demo_mnemonic_def eval_nat_numeral)

text \<open>The round trip of a twelve-word mnemonic with the password \<^verbatim>\<open>Test1234!\<close>.\<close>

theorem encrypt_decrypt_roundtrip_witness:
  "\<exists>e r'. encryptMnemonic demo_lib (demo_mnemonic 12) ''Test1234!'' 7 = (Inr e, r')
        \<and> decryptMnemonic demo_lib e ''Test1234!'' = Inr (demo_mnemonic 12)"
proof (rule encrypt_decrypt_roundtrip)
  show "validateMnemonic demo_lib (demo_mnemonic 12)"
    by (simp add: validateMnemonic_def demo_lib_def)
  show "demo_mnemonic 12 \<noteq> []" by (simp add: demo_mnemonic_12)
  show "''Test1234!'' \<noteq> []" by simp
  show "\<And>n r. length (fst (randomBytes demo_lib n r)) = n" by (simp add: demo_lib_def)
  show "utf8_decode demo_lib (utf8_encode demo_lib (demo_mnemonic 12)) = demo_mnemonic 12"
    by (simp add: demo_lib_def latin1_roundtrip')
  show "\<And>bs. base64_decode demo_lib (base64_encode demo_lib bs) = bs"
    by (simp add: demo_lib_def b64_roundtrip)
  show "base64_decode demo_lib [] = []" by (simp add: demo_lib_def b64_decode_Nil)
qed

text \<open>
  Claim C2.  In both modules, whenever \<^verbatim>\<open>decryptMnemonic\<close> returns a string, for any
  envelope and any password, the string passes \<^verbatim>\<open>validateMnemonic\<close>.
\<close>

theorem decrypt_fails_closed:
  "(decryptMnemonic L e p = Inr s \<longrightarrow> validateMnemonic L s)
 \<and> (decryptMnemonic_gui L e p = Inr s \<longrightarrow> validateMnemonic L s)"
  by (auto simp: decryptMnemonic_def decryptMnemonic_gui_def Let_def
           split: if_splits sum.splits)

lemma demo_validate_12: "validateMnemonic demo_lib (demo_mnemonic 12)"
  by (simp add: validateMnemonic_def demo_lib_def)

lemma demo_decrypt_ctr:
  "decryptMnemonic demo_lib
     (b64_encode (replicate 16 1 @ replicate 16 2 @
        ctr_crypt demo_lib (replicate 32 2) (replicate 16 2) (latin1_encode (demo_mnemonic 12))))
     ''pw'' = Inr (demo_mnemonic 12)"
proof -
  have ne: "b64_encode (replicate 16 1 @ bs) \<noteq> []" for bs
    by (rule b64_encode_nonempty) simp
  have key: "pbkdf2_sha256 demo_lib (utf8_encode demo_lib ''pw'') salt 10000 32 = replicate 32 2" for salt
    by (simp add: demo_lib_def latin1_encode_def)
  have codecs: "base64_decode demo_lib = b64_decode" "utf8_decode demo_lib = latin1_decode"
    by (simp_all add: demo_lib_def)
  show ?thesis
    unfolding decryptMnemonic_def Let_def codecs b64_roundtrip key
    using demo_validate_12
    by (simp add: ne ctr_crypt_involution latin1_roundtrip' ctr_crypt_length)
qed

lemma demo_decrypt_gcm:
  "decryptMnemonic_gui demo_lib
     (b64_encode (replicate 16 1 @ replicate 12 2 @
        latin1_encode (demo_mnemonic 12) @ replicate 16 0))
     ''pw'' = Inr (demo_mnemonic 12)"
proof -
  have ne: "b64_encode (replicate 16 1 @ bs) \<noteq> []" for bs
    by (rule b64_encode_nonempty) simp
  have atob: "atob_bytes demo_lib (b64_encode bs) = Inr bs" for bs
    by (simp add: demo_lib_def atob_roundtrip)
  have gcm: "aes_gcm_decrypt demo_lib key iv (d @ replicate 16 0) = Inr d" for key iv d
    by (simp add: demo_lib_def)
  have codecs: "utf8_decode demo_lib = latin1_decode"
    by (simp_all add: demo_lib_def)
  show ?thesis
    unfolding decryptMnemonic_gui_def Let_def atob
    using demo_validate_12
    by (simp add: ne gcm codecs latin1_roundtrip')
qed

text \<open>An envelope of each module that decrypts to a mnemonic.\<close>

theorem decrypt_fails_closed_witness:
  "decryptMnemonic demo_lib
     (b64_encode (replicate 16 1 @ replicate 16 2 @
        ctr_crypt demo_lib (replicate 32 2) (replicate 16 2) (latin1_encode (demo_mnemonic 12))))
     ''pw'' = Inr (demo_mnemonic 12)
 \<and> decryptMnemonic_gui demo_lib
     (b64_encode (replicate 16 1 @ replicate 12 2 @
        latin1_encode (demo_mnemonic 12) @ replicate 16 0))
     ''pw'' = Inr (demo_mnemonic 12)
 \<and> validateMnemonic demo_lib (demo_mnemonic 12)"
  using demo_decrypt_ctr demo_decrypt_gcm
    decrypt_fails_closed [of demo_lib
      "b64_encode (replicate 16 1 @ replicate 16 2 @
        ctr_crypt demo_lib (replicate 32 2) (replicate 16 2) (latin1_encode (demo_mnemonic 12)))"
      "''pw''" "demo_mnemonic 12"]
  by simp






lemma entropyBits_supported:
  "entropyBits w = Some b \<longleftrightarrow>
     (w = 12 \<and> b = 128) \<or> (w = 15 \<and> b = 160) \<or> (w = 18 \<and> b = 192)
     \<or> (w = 21 \<and> b = 224) \<or> (w = 24 \<and> b = 256)"
  by (auto simp: entropyBits_def)

lemma entropyBits_unsupported: "w \<notin> {12, 15, 18, 21, 24} \<Longrightarrow> entropyBits w = None"
  by (simp add: entropyBits_def)

lemma entropyBits_words:
  assumes "entropyBits w = Some b"
  shows "b \<in> {128, 160, 192, 224, 256}" and "b \<noteq> 0" and "8 * (b div 8) = b"
    and "\<And>k. k * 11 = b + b div 32 \<Longrightarrow> k = nat w"
  using assms by (auto simp: entropyBits_supported)

text \<open>
  Claim C9.  For a word count in 12, 15, 18, 21, 24, \<^verbatim>\<open>generateMnemonic\<close> of either
  module returns a mnemonic of exactly that many words that passes
  \<^verbatim>\<open>validateMnemonic\<close>; for any other number it fails with the unsupported-word-count
  error and returns no mnemonic.  The libraries enter through their contracts: the
  random source returns as many bytes as asked for, and bip39 encodes entropy of a
  supported size into a valid mnemonic with word count times 11 equal to the entropy
  bits plus one checksum bit per 32 entropy bits.
\<close>

theorem generateMnemonic_word_counts:
  assumes rb: "\<And>n r. length (fst (randomBytes L n r)) = n"
    and e2m: "\<And>entropy. 8 * length entropy \<in> {128, 160, 192, 224, 256} \<Longrightarrow>
        \<exists>m. bip39_entropyToMnemonic L (toHex entropy) = Inr m \<and> bip39_validateMnemonic L m
          \<and> word_count m * 11 = 8 * length entropy + 8 * length entropy div 32"
    and gen: "\<And>bits r. bits \<in> {128, 160, 192, 224, 256} \<Longrightarrow>
        \<exists>m. fst (bip39_generateMnemonic L bits r) = Inr m \<and> bip39_validateMnemonic L m
          \<and> word_count m * 11 = bits + bits div 32"
  shows "(w \<in> {12, 15, 18, 21, 24} \<longrightarrow>
            (\<exists>m. fst (generateMnemonic L w r) = Inr m \<and> word_count m = nat w
                 \<and> validateMnemonic L m)
          \<and> (\<exists>m. fst (generateMnemonic_gui L w r) = Inr m \<and> word_count m = nat w
                 \<and> validateMnemonic L m))
       \<and> (w \<notin> {12, 15, 18, 21, 24} \<longrightarrow>
            generateMnemonic L w r = (Inl (GenerateFailed (UnsupportedWordCount w)), r)
          \<and> generateMnemonic_gui L w r = (Inl (GenerateFailed (UnsupportedWordCount w)), r))"
proof (intro conjI impI)
  assume w: "w \<in> {12, 15, 18, 21, 24}"
  then obtain b where b: "entropyBits w = Some b"
    by (auto simp: entropyBits_def)
  note facts = entropyBits_words [OF b]
  obtain entropy r' where rnd: "randomBytes L (b div 8) r = (entropy, r')"
    by (cases "randomBytes L (b div 8) r")
  have len: "length entropy = b div 8" using rb [of "b div 8" r] rnd by simp
  then have bits: "8 * length entropy = b" using facts(3) by simp
  obtain m where m: "bip39_entropyToMnemonic L (toHex entropy) = Inr m"
      "bip39_validateMnemonic L m" "word_count m * 11 = b + b div 32"
    using e2m [of entropy] facts(1) unfolding bits by blast
  have "fst (generateMnemonic L w r) = Inr m"
    using facts(2) by (simp add: generateMnemonic_def b rnd m)
  moreover have "word_count m = nat w" using m(3) by (rule facts(4))
  ultimately show "\<exists>m. fst (generateMnemonic L w r) = Inr m \<and> word_count m = nat w
                 \<and> validateMnemonic L m"
    using m(2) by (auto simp: validateMnemonic_def)
  obtain g where g: "fst (bip39_generateMnemonic L b r) = Inr g"
      "bip39_validateMnemonic L g" "word_count g * 11 = b + b div 32"
    using gen [of b r] facts(1) by blast
  have "fst (generateMnemonic_gui L w r) = Inr g"
    using facts(2) g(1,2)
    by (cases "bip39_generateMnemonic L b r") (simp add: generateMnemonic_gui_def b)
  moreover have "word_count g = nat w" using g(3) by (rule facts(4))
  ultimately show "\<exists>m. fst (generateMnemonic_gui L w r) = Inr m \<and> word_count m = nat w
                 \<and> validateMnemonic L m"
    using g(2) by (auto simp: validateMnemonic_def)
next
  assume "w \<notin> {12, 15, 18, 21, 24}"
  then have "entropyBits w = None" by (rule entropyBits_unsupported)
  then show "generateMnemonic L w r = (Inl (GenerateFailed (UnsupportedWordCount w)), r)"
    and "generateMnemonic_gui L w r = (Inl (GenerateFailed (UnsupportedWordCount w)), r)"
    by (simp_all add: generateMnemonic_def generateMnemonic_gui_def)
qed

lemma split_space_zoo:
  "split_space cur (''zoo'' @ rest) = split_space (cur @ ''zoo'') rest"
  by simp

lemma word_count_demo: "word_count (demo_mnemonic (Suc n)) = Suc n"
proof -
  have "length (split_space cur (join_space (replicate (Suc k) ''zoo''))) = Suc k" for cur k
  proof (induction k arbitrary: cur)
    case 0
    show ?case by simp
  next
    case (Suc k)
    have "join_space (replicate (Suc (Suc k)) ''zoo'')
            = ''zoo'' @ '' '' @ join_space (replicate (Suc k) ''zoo'')"
      by simp
    then show ?case using Suc.IH by simp
  qed
  then show ?thesis by (simp add: word_count_def demo_mnemonic_def)
qed

lemma toHex_length: "length (toHex bs) = 2 * length bs"
  by (induction bs) (simp_all add: toHex_def)

lemma demo_contract:
  assumes "n \<in> {12, 15, 18, 21, 24}"
  shows "bip39_validateMnemonic demo_lib (demo_mnemonic n)" and "word_count (demo_mnemonic n) = n"
proof -
  show "bip39_validateMnemonic demo_lib (demo_mnemonic n)"
    using assms by (auto simp: demo_lib_def)
  obtain k where "n = Suc k" using assms by (cases n) auto
  then show "word_count (demo_mnemonic n) = n" by (simp add: word_count_demo)
qed

text \<open>Word counts 12, 24 and 13 on the small library.\<close>

theorem generateMnemonic_word_counts_witness:
  "(\<exists>m. fst (generateMnemonic demo_lib 12 0) = Inr m \<and> word_count m = 12
         \<and> validateMnemonic demo_lib m)
 \<and> (\<exists>m. fst (generateMnemonic_gui demo_lib 24 0) = Inr m \<and> word_count m = 24
         \<and> validateMnemonic demo_lib m)
 \<and> generateMnemonic demo_lib 13 0 = (Inl (GenerateFailed (UnsupportedWordCount 13)), 0)
 \<and> generateMnemonic_gui demo_lib 13 0 = (Inl (GenerateFailed (UnsupportedWordCount 13)), 0)"
proof -
  have rb: "\<And>n r. length (fst (randomBytes demo_lib n r)) = n"
    by (simp add: demo_lib_def)
  have e2m: "\<exists>m. bip39_entropyToMnemonic demo_lib (toHex entropy) = Inr m
          \<and> bip39_validateMnemonic demo_lib m
          \<and> word_count m * 11 = 8 * length entropy + 8 * length entropy div 32"
    if "8 * length entropy \<in> {128, 160, 192, 224, 256}" for entropy
  proof -
    let ?n = "3 * length (toHex entropy) div 8"
    have n: "?n \<in> {12, 15, 18, 21, 24}" "?n * 11 = 8 * length entropy + 8 * length entropy div 32"
      using that by (auto simp: toHex_length)
    have "bip39_entropyToMnemonic demo_lib (toHex entropy) = Inr (demo_mnemonic ?n)"
      by (simp add: demo_lib_def)
    then show ?thesis using demo_contract [OF n(1)] n(2) by simp
  qed
  have gen: "\<exists>m. fst (bip39_generateMnemonic demo_lib bits r) = Inr m
          \<and> bip39_validateMnemonic demo_lib m \<and> word_count m * 11 = bits + bits div 32"
    if "bits \<in> {128, 160, 192, 224, 256}" for bits r
  proof -
    let ?n = "3 * bits div 32"
    have n: "?n \<in> {12, 15, 18, 21, 24}" "?n * 11 = bits + bits div 32"
      using that by auto
    have "fst (bip39_generateMnemonic demo_lib bits r) = Inr (demo_mnemonic ?n)"
      by (simp add: demo_lib_def)
    then show ?thesis using demo_contract [OF n(1)] n(2) by simp
  qed
  note a = generateMnemonic_word_counts [of demo_lib 12 0, OF rb e2m gen]
  note b = generateMnemonic_word_counts [of demo_lib 24 0, OF rb e2m gen]
  note c = generateMnemonic_word_counts [of demo_lib 13 0, OF rb e2m gen]
  show ?thesis using a b c by simp
qed

section \<open>The batch broadcaster and the reclaim engine: properties\<close>

lemma submit_submissions:
  "submissions (snd (submit E P i rt lbl to g s)) = submissions s @ [observed E P i rt to g s]"
  by (simp add: submit_def observed_def transfer_def Let_def
           split: prod.splits sum.splits option.splits)

lemma submit_nextNonce:
  "nextNonce (snd (submit E P i rt lbl to g s))
     = nextNonce s + (if succeeded (observed E P i rt to g s) then 1 else 0)"
  by (simp add: submit_def observed_def transfer_def succeeded_def Let_def
           split: prod.splits sum.splits option.splits)

lemma submit_failed:
  assumes "\<not> succeeded (observed E P i rt to g s)"
  shows "\<exists>e. sub_result (observed E P i rt to g s) = Inl e
            \<and> submit E P i rt lbl to g s
               = (Some e, s\<lparr> world := snd (sendTransaction E (sp_wallet P)
                                              (transfer P to g (nextNonce s)) (world s)),
                               submissions := submissions s @ [observed E P i rt to g s] \<rparr>)"
  using assms
  by (cases "sendTransaction E (sp_wallet P) (transfer P to g (nextNonce s)) (world s)")
     (auto simp: submit_def observed_def transfer_def succeeded_def Let_def
           split: sum.splits)

lemma submit_succeeded_no_wait:
  assumes "sub_result (observed E P i rt to g s) = Inr h" and "\<not> sp_waitConfirm P"
  shows "submit E P i rt lbl to g s
           = (None, s\<lparr> world := snd (sendTransaction E (sp_wallet P)
                                         (transfer P to g (nextNonce s)) (world s)),
                         submissions := submissions s @ [observed E P i rt to g s],
                         nextNonce := nextNonce s + 1,
                         lastSubmittedHash := Some h,
                         logs := logs s @ [if rt then RetrySubmitted lbl h else Submitted lbl h] \<rparr>)"
  using assms
  by (cases "sendTransaction E (sp_wallet P) (transfer P to g (nextNonce s)) (world s)")
     (auto simp: submit_def observed_def transfer_def Let_def)

lemma awaitInFlight_keeps:
  "submissions (snd (awaitInFlight E P lbl s)) = submissions s"
  "nextNonce (snd (awaitInFlight E P lbl s)) = nextNonce s"
  by (simp_all add: awaitInFlight_def Let_def split: prod.splits)

lemma logRetryOutcome_keeps:
  "submissions (logRetryOutcome lbl r) = submissions (snd r)"
  "nextNonce (logRetryOutcome lbl r) = nextNonce (snd r)"
  "world (logRetryOutcome lbl r) = world (snd r)"
  by (simp_all add: logRetryOutcome_def split: prod.splits option.splits)


lemma observed_fields:
  "sub_index (observed E P i rt to g s) = i"
  "sub_retry (observed E P i rt to g s) = rt"
  "sub_from (observed E P i rt to g s) = sp_wallet P"
  "sub_tx (observed E P i rt to g s) = transfer P to g (nextNonce s)"
  "tx_nonce (transfer P to g n) = n"
  "tx_gasLimit (transfer P to g n) = g"
  "tx_to (transfer P to g n) = to"
  "tx_value (transfer P to g n) = sp_value P"
  "tx_fees (transfer P to g n) = sp_fees P"
  by (simp_all add: observed_def transfer_def)

lemma submit_summary:
  "step_summary s (snd (submit E P i rt lbl to g s)) [observed E P i rt to g s]"
  by (simp add: step_summary_def submit_submissions submit_nextNonce observed_fields)

lemma step_summary_world [simp]:
  "step_summary (s\<lparr> world := w \<rparr>) s' subs = step_summary s s' subs"
  "step_summary s (s'\<lparr> world := w \<rparr>) subs = step_summary s s' subs"
  "step_summary (s\<lparr> logs := l \<rparr>) s' subs = step_summary s s' subs"
  "step_summary s (s'\<lparr> logs := l \<rparr>) subs = step_summary s s' subs"
  by (simp_all add: step_summary_def)

lemma observed_world_logs [simp]:
  "observed E P i rt to g (s\<lparr> logs := l \<rparr>) = observed E P i rt to g s"
  by (simp add: observed_def)

text \<open>The retry block after a first submission, for both broadcasters.\<close>

lemma retry_summary:
  assumes first: "step_summary s s2 [sub0]"
    and keep: "submissions s3 = submissions s2" "nextNonce s3 = nextNonce s2"
  shows "step_summary s (logRetryOutcome lbl (refetchAndSubmit E P i lbl to g s3)) [sub0]
       \<or> (\<exists>n w. getTransactionCount E (sp_wallet P) (world s3) = (Inr n, w)
             \<and> step_summary s (logRetryOutcome lbl (refetchAndSubmit E P i lbl to g s3))
                  [sub0, observed E P i True to g (s3\<lparr> world := w, nextNonce := n \<rparr>)])"
proof (cases "getTransactionCount E (sp_wallet P) (world s3)")
  case (Pair res w)
  show ?thesis
  proof (cases res)
    case (Inl e)
    then have "refetchAndSubmit E P i lbl to g s3 = (Some e, s3\<lparr> world := w \<rparr>)"
      using Pair by (simp add: refetchAndSubmit_def)
    then have "step_summary s (logRetryOutcome lbl (refetchAndSubmit E P i lbl to g s3)) [sub0]"
      using first keep by (simp add: logRetryOutcome_def step_summary_def)
    then show ?thesis ..
  next
    case (Inr n)
    let ?s4 = "s3\<lparr> world := w, nextNonce := n \<rparr>"
    have eq: "refetchAndSubmit E P i lbl to g s3 = submit E P i True lbl to g ?s4"
      using Pair Inr by (simp add: refetchAndSubmit_def)
    have "step_summary s (logRetryOutcome lbl (submit E P i True lbl to g ?s4))
            [sub0, observed E P i True to g ?s4]"
      using first keep
      by (simp add: step_summary_def logRetryOutcome_keeps submit_submissions submit_nextNonce
            observed_fields)
    then show ?thesis using Pair Inr eq by auto
  qed
qed

lemma sendStep_gui_shape: "step_shape E P i to 21000 s (sendStep_gui E P len i to s)"
proof -
  let ?lbl = "Label (i + 1) len (formatAddress to)"
  let ?sub0 = "observed E P i False to 21000 s"
  obtain r s2 where sub: "submit E P i False ?lbl to 21000 s = (r, s2)"
    by (cases "submit E P i False ?lbl to 21000 s")
  have first: "step_summary s s2 [?sub0]"
    using submit_summary [of s E P i False ?lbl to 21000] sub by simp
  show ?thesis
  proof (cases r)
    case None
    then show ?thesis using sub first by (simp add: sendStep_gui_def Let_def step_shape_def)
  next
    case (Some e)
    consider (nonce) "isNonceError e"
      | (inflight) "\<not> isNonceError e" "isInFlightLimitError e"
      | (other) "\<not> isNonceError e" "\<not> isInFlightLimitError e"
      by blast
    then show ?thesis
    proof cases
      case nonce
      then have "sendStep_gui E P len i to s
                   = logRetryOutcome ?lbl (refetchAndSubmit E P i ?lbl to 21000 s2)"
        using sub Some by (simp add: sendStep_gui_def Let_def)
      then show ?thesis
        using retry_summary [OF first refl refl, of ?lbl E P i to 21000]
        by (auto simp: step_shape_def)
    next
      case inflight
      obtain rw s3 where aw: "awaitInFlight E P ?lbl s2 = (rw, s3)"
        by (cases "awaitInFlight E P ?lbl s2")
      have keep: "submissions s3 = submissions s2" "nextNonce s3 = nextNonce s2"
        using awaitInFlight_keeps [of E P ?lbl s2] aw by simp_all
      show ?thesis
      proof (cases rw)
        case None
        then have "sendStep_gui E P len i to s
                     = logRetryOutcome ?lbl (refetchAndSubmit E P i ?lbl to 21000 s3)"
          using sub Some inflight aw by (simp add: sendStep_gui_def Let_def)
        then show ?thesis
          using retry_summary [OF first keep, of ?lbl E P i to 21000]
          by (auto simp: step_shape_def)
      next
        case (Some we)
        then have "sendStep_gui E P len i to s = logRetryOutcome ?lbl (Some we, s3)"
          using sub \<open>r = Some e\<close> inflight aw by (simp add: sendStep_gui_def Let_def)
        then show ?thesis
          using first keep by (simp add: step_shape_def logRetryOutcome_def step_summary_def)
      qed
    next
      case other
      then show ?thesis
        using sub Some first by (simp add: sendStep_gui_def Let_def step_shape_def)
    qed
  qed
qed


lemma sendStep_shape:
  "step_shape E P i to
     (fst (estimateGasLimit E \<lparr> er_to = to, er_from = sp_wallet P, er_value = sp_value P \<rparr>
             GAS_LIMIT_FALLBACK (world s)))
     (s\<lparr> world := snd (estimateGasLimit E
                          \<lparr> er_to = to, er_from = sp_wallet P, er_value = sp_value P \<rparr>
                          GAS_LIMIT_FALLBACK (world s)) \<rparr>)
     (sendStep E P len i to s)"
proof -
  let ?lbl = "Label (i + 1) len (short_addr to)"
  let ?est = "estimateGasLimit E \<lparr> er_to = to, er_from = sp_wallet P, er_value = sp_value P \<rparr>
                GAS_LIMIT_FALLBACK (world s)"
  obtain g w1 where est: "?est = (g, w1)" by (cases ?est)
  let ?s1 = "s\<lparr> world := w1 \<rparr>"
  let ?sub0 = "observed E P i False to g ?s1"
  obtain r s2 where sub: "submit E P i False ?lbl to g ?s1 = (r, s2)"
    by (cases "submit E P i False ?lbl to g ?s1")
  have first: "step_summary ?s1 s2 [?sub0]"
    using submit_summary [of ?s1 E P i False ?lbl to g] sub by simp
  have "step_shape E P i to g ?s1 (sendStep E P len i to s)"
  proof (cases r)
    case None
    then show ?thesis using sub first est by (simp add: sendStep_def Let_def step_shape_def)
  next
    case (Some e)
    consider (retry) "isNonceError e \<or> isInFlightLimitError e"
      | (other) "\<not> isNonceError e" "\<not> isInFlightLimitError e"
      by blast
    then show ?thesis
    proof cases
      case retry
      obtain rw s3 where aw:
        "(if isInFlightLimitError e then awaitInFlight E P ?lbl s2 else (None, s2)) = (rw, s3)"
        by (cases "if isInFlightLimitError e then awaitInFlight E P ?lbl s2 else (None, s2)")
      have keep: "submissions s3 = submissions s2" "nextNonce s3 = nextNonce s2"
        using awaitInFlight_keeps [of E P ?lbl s2] aw by (auto split: if_splits)
      show ?thesis
      proof (cases rw)
        case None
        then have "sendStep E P len i to s
                     = logRetryOutcome ?lbl (refetchAndSubmit E P i ?lbl to g s3)"
          using sub Some retry aw est by (auto simp: sendStep_def Let_def split: if_splits)
        then show ?thesis
          using retry_summary [OF first keep, of ?lbl E P i to g]
          by (auto simp: step_shape_def)
      next
        case (Some we)
        then have "sendStep E P len i to s = logRetryOutcome ?lbl (Some we, s3)"
          using sub \<open>r = Some e\<close> retry aw est
          by (auto simp: sendStep_def Let_def split: if_splits)
        then show ?thesis
          using first keep by (simp add: step_shape_def logRetryOutcome_def step_summary_def)
      qed
    next
      case other
      then show ?thesis
        using sub Some first est by (simp add: sendStep_def Let_def step_shape_def)
    qed
  qed
  then show ?thesis using est by simp
qed

lemma step_shape_trace:
  assumes "step_shape E P i to g s1 s'"
    and "submissions s1 = submissions s" and "nextNonce s1 = nextNonce s"
  shows "trace_step i to s s'"
proof -
  from assms(1) consider
      (one) "step_summary s1 s' [observed E P i False to g s1]"
    | (two) s4 where
        "step_summary s1 s' [observed E P i False to g s1, observed E P i True to g s4]"
    by (auto simp: step_shape_def)
  then show ?thesis
  proof cases
    case one
    then show ?thesis
      unfolding trace_step_def
      by (intro exI [of _ "observed E P i False to g s1"] exI [of _ "[]"])
         (simp add: step_summary_def observed_fields assms(2,3))
  next
    case two
    then show ?thesis
      unfolding trace_step_def
      by (intro exI [of _ "observed E P i False to g s1"]
            exI [of _ "[observed E P i True to g s4]"])
         (simp add: step_summary_def observed_fields assms(2,3))
  qed
qed

lemma trace_step_world:
  "trace_step i to s s' \<Longrightarrow> trace_step i to s (s'\<lparr> world := w \<rparr>)"
  by (simp add: trace_step_def)

lemma sendLoop_iterate:
  "sendLoop E P len i rs s =
     iterate (\<lambda>i to s.
        let s1 = sendStep E P len i to s
        in if int i < int len - 1 \<and> sp_delayMs P > 0
           then s1\<lparr> world := delay E (sp_delayMs P) (world s1) \<rparr> else s1) i rs s"
  by (induction rs arbitrary: i s) (simp_all add: Let_def)

lemma sendLoop_gui_iterate:
  "sendLoop_gui E P len i rs s =
     iterate (\<lambda>i to s.
        let s1 = sendStep_gui E P len i to s
        in if int i < int len - 1
           then s1\<lparr> world := delay E (sp_delayMs P) (world s1) \<rparr> else s1) i rs s"
  by (induction rs arbitrary: i s) (simp_all add: Let_def)

lemma sendStep_trace: "trace_step i to s (sendStep E P len i to s)"
  by (rule step_shape_trace [OF sendStep_shape]) simp_all

lemma sendStep_gui_trace: "trace_step i to s (sendStep_gui E P len i to s)"
  by (rule step_shape_trace [OF sendStep_gui_shape]) simp_all

lemma server_body_trace:
  "trace_step i to s
     (let s1 = sendStep E P len i to s
      in if int i < int len - 1 \<and> sp_delayMs P > 0
         then s1\<lparr> world := delay E (sp_delayMs P) (world s1) \<rparr> else s1)"
  using sendStep_trace [of i to s E P len] by (simp add: Let_def trace_step_world)

lemma gui_body_trace:
  "trace_step i to s
     (let s1 = sendStep_gui E P len i to s
      in if int i < int len - 1
         then s1\<lparr> world := delay E (sp_delayMs P) (world s1) \<rparr> else s1)"
  using sendStep_gui_trace [of i to s E P len] by (simp add: Let_def trace_step_world)

lemma upt_head: "[n ..< n + length (x # xs)] = n # [n + 1 ..< n + 1 + length xs]"
  by (subst upt_rec) simp

lemma new_submissions_append:
  "submissions s' = submissions s @ N \<Longrightarrow> new_submissions s s' = N"
  by (simp add: new_submissions_def)

lemma iterate_extends:
  assumes body: "\<And>i to s. trace_step i to s (f i to s)"
  shows "\<exists>N. submissions (iterate f i rs s) = submissions s @ N"
proof (induction rs arbitrary: i s)
  case Nil
  show ?case by simp
next
  case (Cons to rest)
  obtain N where "submissions (iterate f (i + 1) rest (f i to s)) = submissions (f i to s) @ N"
    using Cons [where i = "i + 1" and s = "f i to s"] by blast
  moreover obtain M where "submissions (f i to s) = submissions s @ M"
    using body [of i to s] by (auto simp: trace_step_def)
  ultimately show ?case by simp
qed

text \<open>Whatever fails, every recipient gets its first submission, in order.\<close>

lemma iterate_first_submissions:
  assumes body: "\<And>i to s. trace_step i to s (f i to s)"
  shows "map sub_index (filter (\<lambda>sub. \<not> sub_retry sub) (new_submissions s (iterate f i rs s)))
           = [i ..< i + length rs]
       \<and> map (\<lambda>sub. tx_to (sub_tx sub))
            (filter (\<lambda>sub. \<not> sub_retry sub) (new_submissions s (iterate f i rs s))) = rs"
proof (induction rs arbitrary: i s)
  case Nil
  show ?case by (simp add: new_submissions_def)
next
  case (Cons to rest)
  let ?s1 = "f i to s"
  let ?fin = "iterate f (i + 1) rest ?s1"
  obtain sub0 tail where step: "submissions ?s1 = submissions s @ sub0 # tail"
      "sub_index sub0 = i" "\<not> sub_retry sub0" "tx_to (sub_tx sub0) = to"
      "\<forall>t \<in> set tail. sub_retry t"
    using body [of i to s] by (auto simp: trace_step_def)
  obtain N where N: "submissions ?fin = submissions ?s1 @ N"
    using iterate_extends [OF body, of "i + 1" rest ?s1] by blast
  have new1: "new_submissions ?s1 ?fin = N" using N by (rule new_submissions_append)
  have new: "new_submissions s ?fin = sub0 # tail @ N"
    using N step(1) by (simp add: new_submissions_def)
  have tail: "filter (\<lambda>sub. \<not> sub_retry sub) tail = []"
    using step(5) by (simp add: filter_empty_conv)
  have ih: "map sub_index (filter (\<lambda>sub. \<not> sub_retry sub) N) = [i + 1 ..< i + 1 + length rest]"
      "map (\<lambda>sub. tx_to (sub_tx sub)) (filter (\<lambda>sub. \<not> sub_retry sub) N) = rest"
    using Cons [where i = "i + 1" and s = ?s1] new1 by simp_all
  show ?case
    unfolding iterate.simps new upt_head
    using ih step(2,3,4) tail by simp
qed









lemmas demo_simps =
  sendStep_def sendStep_gui_def submit_def refetchAndSubmit_def awaitInFlight_def
  logRetryOutcome_def estimateGasLimit_def addGasBuffer_def GAS_LIMIT_FALLBACK_def
  scripted_node_def demo_params_def demo_recipients_def demo_start_def
  stale_nonce_def in_flight_limit_def rejected_def
  isNonceError_def isInFlightLimitError_def truthy_hash_def
  short_addr_def formatAddress_def slice_last_def Let_def











lemma sendStep_stale_nonce:
  assumes est: "estimateGasLimit E \<lparr> er_to = to, er_from = sp_wallet P, er_value = sp_value P \<rparr>
                  GAS_LIMIT_FALLBACK (world s) = (g, w1)"
    and first: "sendTransaction E (sp_wallet P) (transfer P to g (nextNonce s)) w1 = (Inl e, w2)"
    and cls: "isNonceError e" "\<not> isInFlightLimitError e"
    and refetch: "getTransactionCount E (sp_wallet P) w2 = (Inr n, w3)"
    and retry: "sendTransaction E (sp_wallet P) (transfer P to g n) w3 = (res, w4)"
  shows "new_submissions s (sendStep E P len i to s)
           = [\<lparr> sub_index = i, sub_retry = False, sub_from = sp_wallet P,
                sub_tx = transfer P to g (nextNonce s), sub_result = Inl e \<rparr>,
              \<lparr> sub_index = i, sub_retry = True, sub_from = sp_wallet P,
                sub_tx = transfer P to g n, sub_result = res \<rparr>]"
    and "\<And>e2. res = Inl e2 \<Longrightarrow>
           logs (sendStep E P len i to s)
             = logs s @ [SendFailed (Label (i + 1) len (short_addr to)) (err_message e2)]
         \<and> nextNonce (sendStep E P len i to s) = n"
    and "\<And>h. res = Inr h \<Longrightarrow> \<not> sp_waitConfirm P \<Longrightarrow>
           logs (sendStep E P len i to s)
             = logs s @ [RetrySubmitted (Label (i + 1) len (short_addr to)) h]
         \<and> nextNonce (sendStep E P len i to s) = n + 1"
  using assms
  by (auto simp: sendStep_def submit_def refetchAndSubmit_def logRetryOutcome_def Let_def
        new_submissions_def transfer_def split: sum.splits prod.splits option.splits)

lemma sendStep_gui_stale_nonce:
  assumes first: "sendTransaction E (sp_wallet P) (transfer P to 21000 (nextNonce s)) (world s)
                    = (Inl e, w2)"
    and cls: "isNonceError e"
    and refetch: "getTransactionCount E (sp_wallet P) w2 = (Inr n, w3)"
    and retry: "sendTransaction E (sp_wallet P) (transfer P to 21000 n) w3 = (res, w4)"
  shows "new_submissions s (sendStep_gui E P len i to s)
           = [\<lparr> sub_index = i, sub_retry = False, sub_from = sp_wallet P,
                sub_tx = transfer P to 21000 (nextNonce s), sub_result = Inl e \<rparr>,
              \<lparr> sub_index = i, sub_retry = True, sub_from = sp_wallet P,
                sub_tx = transfer P to 21000 n, sub_result = res \<rparr>]"
    and "\<And>e2. res = Inl e2 \<Longrightarrow>
           logs (sendStep_gui E P len i to s)
             = logs s @ [SendFailed (Label (i + 1) len (formatAddress to)) (err_message e2)]
         \<and> nextNonce (sendStep_gui E P len i to s) = n"
    and "\<And>h. res = Inr h \<Longrightarrow> \<not> sp_waitConfirm P \<Longrightarrow>
           logs (sendStep_gui E P len i to s)
             = logs s @ [RetrySubmitted (Label (i + 1) len (formatAddress to)) h]
         \<and> nextNonce (sendStep_gui E P len i to s) = n + 1"
  using assms
  by (auto simp: sendStep_gui_def submit_def refetchAndSubmit_def logRetryOutcome_def Let_def
        new_submissions_def transfer_def split: sum.splits prod.splits option.splits)


lemma sendStep_refetch_fails:
  assumes est: "estimateGasLimit E \<lparr> er_to = to, er_from = sp_wallet P, er_value = sp_value P \<rparr>
                  GAS_LIMIT_FALLBACK (world s) = (g, w1)"
    and first: "sendTransaction E (sp_wallet P) (transfer P to g (nextNonce s)) w1 = (Inl e, w2)"
    and cls: "isNonceError e" "\<not> isInFlightLimitError e"
    and refetch: "getTransactionCount E (sp_wallet P) w2 = (Inl err, w3)"
  shows "new_submissions s (sendStep E P len i to s)
           = [\<lparr> sub_index = i, sub_retry = False, sub_from = sp_wallet P,
                sub_tx = transfer P to g (nextNonce s), sub_result = Inl e \<rparr>]
       \<and> logs (sendStep E P len i to s)
           = logs s @ [SendFailed (Label (i + 1) len (short_addr to)) (err_message err)]
       \<and> nextNonce (sendStep E P len i to s) = nextNonce s"
  using assms
  by (auto simp: sendStep_def submit_def refetchAndSubmit_def logRetryOutcome_def Let_def
        new_submissions_def transfer_def split: sum.splits prod.splits option.splits)

lemma sendStep_gui_refetch_fails:
  assumes first: "sendTransaction E (sp_wallet P) (transfer P to 21000 (nextNonce s)) (world s)
                    = (Inl e, w2)"
    and cls: "isNonceError e"
    and refetch: "getTransactionCount E (sp_wallet P) w2 = (Inl err, w3)"
  shows "new_submissions s (sendStep_gui E P len i to s)
           = [\<lparr> sub_index = i, sub_retry = False, sub_from = sp_wallet P,
                sub_tx = transfer P to 21000 (nextNonce s), sub_result = Inl e \<rparr>]
       \<and> logs (sendStep_gui E P len i to s)
           = logs s @ [SendFailed (Label (i + 1) len (formatAddress to)) (err_message err)]
       \<and> nextNonce (sendStep_gui E P len i to s) = nextNonce s"
  using assms
  by (auto simp: sendStep_gui_def submit_def refetchAndSubmit_def logRetryOutcome_def Let_def
        new_submissions_def transfer_def split: sum.splits prod.splits option.splits)

text \<open>A stale-nonce error of the backend that is of the in-flight class too.\<close>

lemma sendStep_stale_in_flight:
  assumes est: "estimateGasLimit E \<lparr> er_to = to, er_from = sp_wallet P, er_value = sp_value P \<rparr>
                  GAS_LIMIT_FALLBACK (world s) = (g, w1)"
    and first: "sendTransaction E (sp_wallet P) (transfer P to g (nextNonce s)) w1 = (Inl e, w2)"
    and cls: "isNonceError e" "isInFlightLimitError e"
    and wait: "awaitInFlight E P (Label (i + 1) len (short_addr to))
                 (s\<lparr> world := w2,
                     submissions := submissions s @
                       [\<lparr> sub_index = i, sub_retry = False, sub_from = sp_wallet P,
                          sub_tx = transfer P to g (nextNonce s), sub_result = Inl e \<rparr>] \<rparr>)
               = (r, s3)"
  shows "\<And>thrown. r = Some thrown \<Longrightarrow>
           new_submissions s (sendStep E P len i to s)
             = [\<lparr> sub_index = i, sub_retry = False, sub_from = sp_wallet P,
                  sub_tx = transfer P to g (nextNonce s), sub_result = Inl e \<rparr>]
         \<and> logs (sendStep E P len i to s)
             = logs s3 @ [SendFailed (Label (i + 1) len (short_addr to)) (err_message thrown)]"
    and "\<And>err w3. r = None \<Longrightarrow> getTransactionCount E (sp_wallet P) (world s3) = (Inl err, w3) \<Longrightarrow>
           new_submissions s (sendStep E P len i to s)
             = [\<lparr> sub_index = i, sub_retry = False, sub_from = sp_wallet P,
                  sub_tx = transfer P to g (nextNonce s), sub_result = Inl e \<rparr>]
         \<and> logs (sendStep E P len i to s)
             = logs s3 @ [SendFailed (Label (i + 1) len (short_addr to)) (err_message err)]"
    and "\<And>n w3 res w4. r = None \<Longrightarrow> getTransactionCount E (sp_wallet P) (world s3) = (Inr n, w3) \<Longrightarrow>
           sendTransaction E (sp_wallet P) (transfer P to g n) w3 = (res, w4) \<Longrightarrow>
           new_submissions s (sendStep E P len i to s)
             = [\<lparr> sub_index = i, sub_retry = False, sub_from = sp_wallet P,
                  sub_tx = transfer P to g (nextNonce s), sub_result = Inl e \<rparr>,
                \<lparr> sub_index = i, sub_retry = True, sub_from = sp_wallet P,
                  sub_tx = transfer P to g n, sub_result = res \<rparr>]"
proof -
  let ?lbl = "Label (i + 1) len (short_addr to)"
  let ?sF = "s\<lparr> world := w2,
                 submissions := submissions s @
                   [\<lparr> sub_index = i, sub_retry = False, sub_from = sp_wallet P,
                      sub_tx = transfer P to g (nextNonce s), sub_result = Inl e \<rparr>] \<rparr>"
  have sub: "submit E P i False ?lbl to g (s\<lparr> world := w1 \<rparr>) = (Some e, ?sF)"
    using first by (simp add: submit_def transfer_def Let_def)
  have keep: "submissions s3 = submissions ?sF" "nextNonce s3 = nextNonce s"
    using wait by (auto simp: awaitInFlight_def Let_def split: if_splits prod.splits)
  have step: "sendStep E P len i to s
                = logRetryOutcome ?lbl
                    (case r of
                       Some waitError \<Rightarrow> (Some waitError, s3)
                     | None \<Rightarrow> refetchAndSubmit E P i ?lbl to g s3)"
    using est sub cls wait by (cases r) (simp_all add: sendStep_def Let_def)
  show "\<And>thrown. r = Some thrown \<Longrightarrow>
           new_submissions s (sendStep E P len i to s)
             = [\<lparr> sub_index = i, sub_retry = False, sub_from = sp_wallet P,
                  sub_tx = transfer P to g (nextNonce s), sub_result = Inl e \<rparr>]
         \<and> logs (sendStep E P len i to s)
             = logs s3 @ [SendFailed ?lbl (err_message thrown)]"
    unfolding step using keep by (simp add: logRetryOutcome_def new_submissions_def)
  show "\<And>err w3. r = None \<Longrightarrow> getTransactionCount E (sp_wallet P) (world s3) = (Inl err, w3) \<Longrightarrow>
           new_submissions s (sendStep E P len i to s)
             = [\<lparr> sub_index = i, sub_retry = False, sub_from = sp_wallet P,
                  sub_tx = transfer P to g (nextNonce s), sub_result = Inl e \<rparr>]
         \<and> logs (sendStep E P len i to s)
             = logs s3 @ [SendFailed ?lbl (err_message err)]"
    unfolding step using keep
    by (simp add: logRetryOutcome_def refetchAndSubmit_def new_submissions_def)
  show "\<And>n w3 res w4. r = None \<Longrightarrow> getTransactionCount E (sp_wallet P) (world s3) = (Inr n, w3) \<Longrightarrow>
           sendTransaction E (sp_wallet P) (transfer P to g n) w3 = (res, w4) \<Longrightarrow>
           new_submissions s (sendStep E P len i to s)
             = [\<lparr> sub_index = i, sub_retry = False, sub_from = sp_wallet P,
                  sub_tx = transfer P to g (nextNonce s), sub_result = Inl e \<rparr>,
                \<lparr> sub_index = i, sub_retry = True, sub_from = sp_wallet P,
                  sub_tx = transfer P to g n, sub_result = res \<rparr>]"
    unfolding step using keep
    by (auto simp: logRetryOutcome_def refetchAndSubmit_def submit_def transfer_def Let_def
          new_submissions_def split: sum.splits prod.splits option.splits)
qed

lemma step_shape_retries:
  assumes "step_shape E P i to g s1 s'" and "submissions s1 = submissions s"
  shows "length (filter sub_retry (new_submissions s s')) \<le> 1"
  using assms
  by (auto simp: step_shape_def step_summary_def observed_def new_submissions_def)

lemma sendStep_retries: "length (filter sub_retry (new_submissions s (sendStep E P len i to s))) \<le> 1"
  by (rule step_shape_retries [OF sendStep_shape]) simp

lemma sendStep_gui_retries:
  "length (filter sub_retry (new_submissions s (sendStep_gui E P len i to s))) \<le> 1"
  by (rule step_shape_retries [OF sendStep_gui_shape]) simp

lemmas unreachable_simps = unreachable_node_def network_error_def

text \<open>
  Claim C4 as stated fails when the pending nonce cannot be fetched again: the first
  submission is refused with a stale-nonce error, the query of the pending nonce throws,
  and the step ends with one submission, no retry and the failure line.
\<close>

theorem stale_nonce_refetch_counterexample:
  "isNonceError stale_nonce
 \<and> map (\<lambda>sub. (tx_nonce (sub_tx sub), sub_retry sub, succeeded sub))
     (new_submissions (demo_start [Inl stale_nonce] 9 5)
        (sendStep unreachable_node demo_params 3 0 (hd demo_recipients)
           (demo_start [Inl stale_nonce] 9 5)))
     = [(5, False, False)]
 \<and> logs (sendStep unreachable_node demo_params 3 0 (hd demo_recipients)
           (demo_start [Inl stale_nonce] 9 5))
     = [SendFailed (Label 1 3 ''0x1111...1111'') ''could not detect network'']
 \<and> map (\<lambda>sub. (tx_nonce (sub_tx sub), sub_retry sub, succeeded sub))
     (new_submissions (demo_start [Inl stale_nonce] 9 5)
        (sendStep_gui unreachable_node demo_params 3 0 (hd demo_recipients)
           (demo_start [Inl stale_nonce] 9 5)))
     = [(5, False, False)]
 \<and> logs (sendStep_gui unreachable_node demo_params 3 0 (hd demo_recipients)
           (demo_start [Inl stale_nonce] 9 5))
     = [SendFailed (Label 1 3 ''0x1111...1111'') ''could not detect network'']"
  by (simp add: unreachable_simps demo_simps new_submissions_def succeeded_def lower_ascii_def)

text \<open>
  Claim C4, amended.  When the first submission for a recipient fails with a stale-nonce
  error, the step asks the chain for the pending nonce again (in the backend, for an
  error that is of the in-flight class too, after the wait of that class).  If the
  query answers, the step submits exactly once more, the same transfer with the fetched
  nonce, and if that fails too it logs the failure of the recipient and ends.  If the
  query throws (or that wait does), the step makes no retry and logs the failure of the
  recipient with what was thrown.  No step makes more than one retry, and whatever
  fails, each loop makes the first submission for every recipient, in order.
\<close>

theorem stale_nonce_retry_once:
  "(estimateGasLimit E \<lparr> er_to = to, er_from = sp_wallet P, er_value = sp_value P \<rparr>
        GAS_LIMIT_FALLBACK (world s) = (g, wa)
      \<and> sendTransaction E (sp_wallet P) (transfer P to g (nextNonce s)) wa = (Inl e, wb)
      \<and> isNonceError e \<and> \<not> isInFlightLimitError e
      \<and> getTransactionCount E (sp_wallet P) wb = (Inr n, wc)
      \<and> sendTransaction E (sp_wallet P) (transfer P to g n) wc = (res, wd)
    \<longrightarrow> new_submissions s (sendStep E P len i to s)
           = [\<lparr> sub_index = i, sub_retry = False, sub_from = sp_wallet P,
                sub_tx = transfer P to g (nextNonce s), sub_result = Inl e \<rparr>,
              \<lparr> sub_index = i, sub_retry = True, sub_from = sp_wallet P,
                sub_tx = transfer P to g n, sub_result = res \<rparr>]
        \<and> (\<forall>err. res = Inl err \<longrightarrow>
              logs (sendStep E P len i to s)
                = logs s @ [SendFailed (Label (i + 1) len (short_addr to)) (err_message err)]
            \<and> nextNonce (sendStep E P len i to s) = n))
 \<and> (estimateGasLimit E \<lparr> er_to = to, er_from = sp_wallet P, er_value = sp_value P \<rparr>
        GAS_LIMIT_FALLBACK (world s) = (g, wa)
      \<and> sendTransaction E (sp_wallet P) (transfer P to g (nextNonce s)) wa = (Inl e, wb)
      \<and> isNonceError e \<and> \<not> isInFlightLimitError e
      \<and> getTransactionCount E (sp_wallet P) wb = (Inl thrown, wc)
    \<longrightarrow> new_submissions s (sendStep E P len i to s)
           = [\<lparr> sub_index = i, sub_retry = False, sub_from = sp_wallet P,
                sub_tx = transfer P to g (nextNonce s), sub_result = Inl e \<rparr>]
        \<and> logs (sendStep E P len i to s)
           = logs s @ [SendFailed (Label (i + 1) len (short_addr to)) (err_message thrown)]
        \<and> nextNonce (sendStep E P len i to s) = nextNonce s)
 \<and> (estimateGasLimit E \<lparr> er_to = to, er_from = sp_wallet P, er_value = sp_value P \<rparr>
        GAS_LIMIT_FALLBACK (world s) = (g, wa)
      \<and> sendTransaction E (sp_wallet P) (transfer P to g (nextNonce s)) wa = (Inl e, wb)
      \<and> isNonceError e \<and> isInFlightLimitError e
      \<and> awaitInFlight E P (Label (i + 1) len (short_addr to))
           (s\<lparr> world := wb,
               submissions := submissions s @
                 [\<lparr> sub_index = i, sub_retry = False, sub_from = sp_wallet P,
                sub_tx = transfer P to g (nextNonce s), sub_result = Inl e \<rparr>] \<rparr>)
         = (r, sw)
    \<longrightarrow> (\<forall>waitError. r = Some waitError \<longrightarrow>
            new_submissions s (sendStep E P len i to s)
              = [\<lparr> sub_index = i, sub_retry = False, sub_from = sp_wallet P,
                sub_tx = transfer P to g (nextNonce s), sub_result = Inl e \<rparr>]
          \<and> logs (sendStep E P len i to s)
              = logs sw @ [SendFailed (Label (i + 1) len (short_addr to)) (err_message waitError)])
        \<and> (r = None \<and> getTransactionCount E (sp_wallet P) (world sw) = (Inl thrown, wc) \<longrightarrow>
            new_submissions s (sendStep E P len i to s)
              = [\<lparr> sub_index = i, sub_retry = False, sub_from = sp_wallet P,
                sub_tx = transfer P to g (nextNonce s), sub_result = Inl e \<rparr>]
          \<and> logs (sendStep E P len i to s)
              = logs sw @ [SendFailed (Label (i + 1) len (short_addr to)) (err_message thrown)])
        \<and> (r = None \<and> getTransactionCount E (sp_wallet P) (world sw) = (Inr n, wc)
              \<and> sendTransaction E (sp_wallet P) (transfer P to g n) wc = (res, wd) \<longrightarrow>
            new_submissions s (sendStep E P len i to s)
              = [\<lparr> sub_index = i, sub_retry = False, sub_from = sp_wallet P,
                sub_tx = transfer P to g (nextNonce s), sub_result = Inl e \<rparr>,
              \<lparr> sub_index = i, sub_retry = True, sub_from = sp_wallet P,
                sub_tx = transfer P to g n, sub_result = res \<rparr>]))
 \<and> (sendTransaction E (sp_wallet P) (transfer P to 21000 (nextNonce s)) (world s) = (Inl e, wb)
      \<and> isNonceError e
      \<and> getTransactionCount E (sp_wallet P) wb = (Inr n, wc)
      \<and> sendTransaction E (sp_wallet P) (transfer P to 21000 n) wc = (res, wd)
    \<longrightarrow> new_submissions s (sendStep_gui E P len i to s)
           = [\<lparr> sub_index = i, sub_retry = False, sub_from = sp_wallet P,
                sub_tx = transfer P to 21000 (nextNonce s), sub_result = Inl e \<rparr>,
              \<lparr> sub_index = i, sub_retry = True, sub_from = sp_wallet P,
                sub_tx = transfer P to 21000 n, sub_result = res \<rparr>]
        \<and> (\<forall>err. res = Inl err \<longrightarrow>
              logs (sendStep_gui E P len i to s)
                = logs s @ [SendFailed (Label (i + 1) len (formatAddress to)) (err_message err)]
            \<and> nextNonce (sendStep_gui E P len i to s) = n))
 \<and> (sendTransaction E (sp_wallet P) (transfer P to 21000 (nextNonce s)) (world s) = (Inl e, wb)
      \<and> isNonceError e
      \<and> getTransactionCount E (sp_wallet P) wb = (Inl thrown, wc)
    \<longrightarrow> new_submissions s (sendStep_gui E P len i to s)
           = [\<lparr> sub_index = i, sub_retry = False, sub_from = sp_wallet P,
                sub_tx = transfer P to 21000 (nextNonce s), sub_result = Inl e \<rparr>]
        \<and> logs (sendStep_gui E P len i to s)
           = logs s @ [SendFailed (Label (i + 1) len (formatAddress to)) (err_message thrown)]
        \<and> nextNonce (sendStep_gui E P len i to s) = nextNonce s)
 \<and> length (filter sub_retry (new_submissions s (sendStep E P len i to s))) \<le> 1
 \<and> length (filter sub_retry (new_submissions s (sendStep_gui E P len i to s))) \<le> 1
 \<and> map sub_index (filter (\<lambda>sub. \<not> sub_retry sub)
        (new_submissions s (sendLoop E P len i rs s))) = [i ..< i + length rs]
 \<and> map (\<lambda>sub. tx_to (sub_tx sub)) (filter (\<lambda>sub. \<not> sub_retry sub)
        (new_submissions s (sendLoop E P len i rs s))) = rs
 \<and> map sub_index (filter (\<lambda>sub. \<not> sub_retry sub)
        (new_submissions s (sendLoop_gui E P len i rs s))) = [i ..< i + length rs]
 \<and> map (\<lambda>sub. tx_to (sub_tx sub)) (filter (\<lambda>sub. \<not> sub_retry sub)
        (new_submissions s (sendLoop_gui E P len i rs s))) = rs"
proof -
  have server: "map sub_index (filter (\<lambda>sub. \<not> sub_retry sub)
        (new_submissions s (sendLoop E P len i rs s))) = [i ..< i + length rs]
 \<and> map (\<lambda>sub. tx_to (sub_tx sub)) (filter (\<lambda>sub. \<not> sub_retry sub)
        (new_submissions s (sendLoop E P len i rs s))) = rs"
    unfolding sendLoop_iterate
    by (rule iterate_first_submissions [OF server_body_trace])
  have gui: "map sub_index (filter (\<lambda>sub. \<not> sub_retry sub)
        (new_submissions s (sendLoop_gui E P len i rs s))) = [i ..< i + length rs]
 \<and> map (\<lambda>sub. tx_to (sub_tx sub)) (filter (\<lambda>sub. \<not> sub_retry sub)
        (new_submissions s (sendLoop_gui E P len i rs s))) = rs"
    unfolding sendLoop_gui_iterate
    by (rule iterate_first_submissions [OF gui_body_trace])
  have a: "new_submissions s (sendStep E P len i to s)
           = [\<lparr> sub_index = i, sub_retry = False, sub_from = sp_wallet P,
                sub_tx = transfer P to g (nextNonce s), sub_result = Inl e \<rparr>,
              \<lparr> sub_index = i, sub_retry = True, sub_from = sp_wallet P,
                sub_tx = transfer P to g n, sub_result = res \<rparr>]
        \<and> (\<forall>err. res = Inl err \<longrightarrow>
              logs (sendStep E P len i to s)
                = logs s @ [SendFailed (Label (i + 1) len (short_addr to)) (err_message err)]
            \<and> nextNonce (sendStep E P len i to s) = n)"
    if "estimateGasLimit E \<lparr> er_to = to, er_from = sp_wallet P, er_value = sp_value P \<rparr>
        GAS_LIMIT_FALLBACK (world s) = (g, wa)
      \<and> sendTransaction E (sp_wallet P) (transfer P to g (nextNonce s)) wa = (Inl e, wb)
      \<and> isNonceError e \<and> \<not> isInFlightLimitError e
      \<and> getTransactionCount E (sp_wallet P) wb = (Inr n, wc)
      \<and> sendTransaction E (sp_wallet P) (transfer P to g n) wc = (res, wd)"
  proof -
    from that have h: "estimateGasLimit E \<lparr> er_to = to, er_from = sp_wallet P, er_value = sp_value P \<rparr>
        GAS_LIMIT_FALLBACK (world s) = (g, wa)"
      "sendTransaction E (sp_wallet P) (transfer P to g (nextNonce s)) wa = (Inl e, wb)"
      "isNonceError e" "\<not> isInFlightLimitError e"
      "getTransactionCount E (sp_wallet P) wb = (Inr n, wc)"
      "sendTransaction E (sp_wallet P) (transfer P to g n) wc = (res, wd)"
      by simp_all
    show ?thesis
      using sendStep_stale_nonce(1,2) [OF h, where len = len and i = i] by blast
  qed
  have b: "new_submissions s (sendStep E P len i to s)
           = [\<lparr> sub_index = i, sub_retry = False, sub_from = sp_wallet P,
                sub_tx = transfer P to g (nextNonce s), sub_result = Inl e \<rparr>]
        \<and> logs (sendStep E P len i to s)
           = logs s @ [SendFailed (Label (i + 1) len (short_addr to)) (err_message thrown)]
        \<and> nextNonce (sendStep E P len i to s) = nextNonce s"
    if "estimateGasLimit E \<lparr> er_to = to, er_from = sp_wallet P, er_value = sp_value P \<rparr>
        GAS_LIMIT_FALLBACK (world s) = (g, wa)
      \<and> sendTransaction E (sp_wallet P) (transfer P to g (nextNonce s)) wa = (Inl e, wb)
      \<and> isNonceError e \<and> \<not> isInFlightLimitError e
      \<and> getTransactionCount E (sp_wallet P) wb = (Inl thrown, wc)"
  proof -
    from that have h: "estimateGasLimit E \<lparr> er_to = to, er_from = sp_wallet P, er_value = sp_value P \<rparr>
        GAS_LIMIT_FALLBACK (world s) = (g, wa)"
      "sendTransaction E (sp_wallet P) (transfer P to g (nextNonce s)) wa = (Inl e, wb)"
      "isNonceError e" "\<not> isInFlightLimitError e"
      "getTransactionCount E (sp_wallet P) wb = (Inl thrown, wc)"
      by simp_all
    show ?thesis by (rule sendStep_refetch_fails [OF h])
  qed
  have c: "(\<forall>waitError. r = Some waitError \<longrightarrow>
            new_submissions s (sendStep E P len i to s)
              = [\<lparr> sub_index = i, sub_retry = False, sub_from = sp_wallet P,
                sub_tx = transfer P to g (nextNonce s), sub_result = Inl e \<rparr>]
          \<and> logs (sendStep E P len i to s)
              = logs sw @ [SendFailed (Label (i + 1) len (short_addr to)) (err_message waitError)])
        \<and> (r = None \<and> getTransactionCount E (sp_wallet P) (world sw) = (Inl thrown, wc) \<longrightarrow>
            new_submissions s (sendStep E P len i to s)
              = [\<lparr> sub_index = i, sub_retry = False, sub_from = sp_wallet P,
                sub_tx = transfer P to g (nextNonce s), sub_result = Inl e \<rparr>]
          \<and> logs (sendStep E P len i to s)
              = logs sw @ [SendFailed (Label (i + 1) len (short_addr to)) (err_message thrown)])
        \<and> (r = None \<and> getTransactionCount E (sp_wallet P) (world sw) = (Inr n, wc)
              \<and> sendTransaction E (sp_wallet P) (transfer P to g n) wc = (res, wd) \<longrightarrow>
            new_submissions s (sendStep E P len i to s)
              = [\<lparr> sub_index = i, sub_retry = False, sub_from = sp_wallet P,
                sub_tx = transfer P to g (nextNonce s), sub_result = Inl e \<rparr>,
              \<lparr> sub_index = i, sub_retry = True, sub_from = sp_wallet P,
                sub_tx = transfer P to g n, sub_result = res \<rparr>])"
    if "estimateGasLimit E \<lparr> er_to = to, er_from = sp_wallet P, er_value = sp_value P \<rparr>
        GAS_LIMIT_FALLBACK (world s) = (g, wa)
      \<and> sendTransaction E (sp_wallet P) (transfer P to g (nextNonce s)) wa = (Inl e, wb)
      \<and> isNonceError e \<and> isInFlightLimitError e
      \<and> awaitInFlight E P (Label (i + 1) len (short_addr to))
           (s\<lparr> world := wb,
               submissions := submissions s @
                 [\<lparr> sub_index = i, sub_retry = False, sub_from = sp_wallet P,
                sub_tx = transfer P to g (nextNonce s), sub_result = Inl e \<rparr>] \<rparr>)
         = (r, sw)"
  proof -
    from that have h: "estimateGasLimit E \<lparr> er_to = to, er_from = sp_wallet P, er_value = sp_value P \<rparr>
        GAS_LIMIT_FALLBACK (world s) = (g, wa)"
      "sendTransaction E (sp_wallet P) (transfer P to g (nextNonce s)) wa = (Inl e, wb)"
      "isNonceError e" "isInFlightLimitError e"
      "awaitInFlight E P (Label (i + 1) len (short_addr to))
           (s\<lparr> world := wb,
               submissions := submissions s @
                 [\<lparr> sub_index = i, sub_retry = False, sub_from = sp_wallet P,
                sub_tx = transfer P to g (nextNonce s), sub_result = Inl e \<rparr>] \<rparr>)
         = (r, sw)"
      by simp_all
    note l = sendStep_stale_in_flight [OF h]
    show ?thesis
      using l(1) l(2) [of thrown wc] l(3) [of n wc res wd] by blast
  qed
  have d: "new_submissions s (sendStep_gui E P len i to s)
           = [\<lparr> sub_index = i, sub_retry = False, sub_from = sp_wallet P,
                sub_tx = transfer P to 21000 (nextNonce s), sub_result = Inl e \<rparr>,
              \<lparr> sub_index = i, sub_retry = True, sub_from = sp_wallet P,
                sub_tx = transfer P to 21000 n, sub_result = res \<rparr>]
        \<and> (\<forall>err. res = Inl err \<longrightarrow>
              logs (sendStep_gui E P len i to s)
                = logs s @ [SendFailed (Label (i + 1) len (formatAddress to)) (err_message err)]
            \<and> nextNonce (sendStep_gui E P len i to s) = n)"
    if "sendTransaction E (sp_wallet P) (transfer P to 21000 (nextNonce s)) (world s) = (Inl e, wb)
      \<and> isNonceError e
      \<and> getTransactionCount E (sp_wallet P) wb = (Inr n, wc)
      \<and> sendTransaction E (sp_wallet P) (transfer P to 21000 n) wc = (res, wd)"
  proof -
    from that have h:
      "sendTransaction E (sp_wallet P) (transfer P to 21000 (nextNonce s)) (world s) = (Inl e, wb)"
      "isNonceError e"
      "getTransactionCount E (sp_wallet P) wb = (Inr n, wc)"
      "sendTransaction E (sp_wallet P) (transfer P to 21000 n) wc = (res, wd)"
      by simp_all
    show ?thesis
      using sendStep_gui_stale_nonce(1,2) [OF h, where len = len and i = i] by blast
  qed
  have e: "new_submissions s (sendStep_gui E P len i to s)
           = [\<lparr> sub_index = i, sub_retry = False, sub_from = sp_wallet P,
                sub_tx = transfer P to 21000 (nextNonce s), sub_result = Inl e \<rparr>]
        \<and> logs (sendStep_gui E P len i to s)
           = logs s @ [SendFailed (Label (i + 1) len (formatAddress to)) (err_message thrown)]
        \<and> nextNonce (sendStep_gui E P len i to s) = nextNonce s"
    if "sendTransaction E (sp_wallet P) (transfer P to 21000 (nextNonce s)) (world s) = (Inl e, wb)
      \<and> isNonceError e
      \<and> getTransactionCount E (sp_wallet P) wb = (Inl thrown, wc)"
  proof -
    from that have h:
      "sendTransaction E (sp_wallet P) (transfer P to 21000 (nextNonce s)) (world s) = (Inl e, wb)"
      "isNonceError e"
      "getTransactionCount E (sp_wallet P) wb = (Inl thrown, wc)"
      by simp_all
    show ?thesis by (rule sendStep_gui_refetch_fails [OF h])
  qed
  note f = sendStep_retries [of s E P len i to] sendStep_gui_retries [of s E P len i to]
  show ?thesis
    using server gui a b c d e f by blast
qed

text \<open>
  The first recipient is refused twice, with a stale nonce and then for another reason;
  the pending nonce on the chain is 9 and the local counter 5.  On the node that does
  not answer the query of the pending nonce, the stale nonce ends the step.
\<close>

theorem stale_nonce_retry_once_witness:
  "map (\<lambda>sub. (tx_nonce (sub_tx sub), sub_retry sub, succeeded sub))
     (new_submissions (demo_start [Inl stale_nonce, Inl rejected] 9 5)
        (sendStep scripted_node demo_params 3 0 (hd demo_recipients)
           (demo_start [Inl stale_nonce, Inl rejected] 9 5)))
     = [(5, False, False), (9, True, False)]
 \<and> logs (sendStep scripted_node demo_params 3 0 (hd demo_recipients)
           (demo_start [Inl stale_nonce, Inl rejected] 9 5))
     = [SendFailed (Label 1 3 ''0x1111...1111'') ''insufficient funds'']
 \<and> map (\<lambda>sub. (tx_nonce (sub_tx sub), sub_retry sub, succeeded sub))
     (new_submissions (demo_start [Inl stale_nonce, Inl rejected] 9 5)
        (sendStep_gui scripted_node demo_params 3 0 (hd demo_recipients)
           (demo_start [Inl stale_nonce, Inl rejected] 9 5)))
     = [(5, False, False), (9, True, False)]
 \<and> map sub_index (filter (\<lambda>sub. \<not> sub_retry sub)
        (new_submissions (demo_start [Inl stale_nonce, Inl rejected] 9 5)
           (sendLoop scripted_node demo_params 3 0 demo_recipients
              (demo_start [Inl stale_nonce, Inl rejected] 9 5)))) = [0, 1, 2]
 \<and> map (\<lambda>sub. (tx_nonce (sub_tx sub), sub_retry sub, succeeded sub))
     (new_submissions (demo_start [Inl stale_nonce] 9 5)
        (sendStep unreachable_node demo_params 3 0 (hd demo_recipients)
           (demo_start [Inl stale_nonce] 9 5)))
     = [(5, False, False)]
 \<and> logs (sendStep unreachable_node demo_params 3 0 (hd demo_recipients)
           (demo_start [Inl stale_nonce] 9 5))
     = [SendFailed (Label 1 3 ''0x1111...1111'') ''could not detect network'']"
proof -
  let ?s = "demo_start [Inl stale_nonce, Inl rejected] 9 5"
  let ?w = "\<lambda>script. \<lparr> sw_script = script, sw_count = 9, sw_balance = 1000000000000000000 \<rparr>"
  have est: "estimateGasLimit scripted_node
               \<lparr> er_to = hd demo_recipients, er_from = sp_wallet demo_params,
                  er_value = sp_value demo_params \<rparr> GAS_LIMIT_FALLBACK (world ?s)
             = (25200, ?w [Inl stale_nonce, Inl rejected])"
    by (simp add: demo_simps)
  have first: "sendTransaction scripted_node (sp_wallet demo_params) tx
                 (?w [Inl stale_nonce, Inl rejected]) = (Inl stale_nonce, ?w [Inl rejected])" for tx
    by (simp add: scripted_node_def)
  have cls: "isNonceError stale_nonce" "\<not> isInFlightLimitError stale_nonce"
    by (simp_all add: isNonceError_def isInFlightLimitError_def stale_nonce_def)
  have refetch: "getTransactionCount scripted_node a (?w [Inl rejected]) = (Inr 9, ?w [Inl rejected])" for a
    by (simp add: scripted_node_def)
  have retry: "sendTransaction scripted_node (sp_wallet demo_params) tx (?w [Inl rejected])
                 = (Inl rejected, ?w [])" for tx
    by (simp add: scripted_node_def)
  have start: "nextNonce ?s = 5" "world ?s = ?w [Inl stale_nonce, Inl rejected]" "logs ?s = []"
    by (simp_all add: demo_start_def)
  note inst = stale_nonce_retry_once [where E = scripted_node and P = demo_params
      and s = ?s and to = "hd demo_recipients" and g = 25200
      and wa = "?w [Inl stale_nonce, Inl rejected]" and e = stale_nonce
      and wb = "?w [Inl rejected]" and n = 9 and wc = "?w [Inl rejected]"
      and res = "Inl rejected" and wd = "?w []" and len = 3 and i = 0 and rs = demo_recipients]
  have label: "short_addr (hd demo_recipients) = ''0x1111...1111''"
    by (simp add: short_addr_def slice_last_def demo_recipients_def)
  have idx: "[0 ..< 0 + length demo_recipients] = [0, 1, 2]"
    by (simp add: demo_recipients_def upt_rec)
  have retried: "map (\<lambda>sub. (tx_nonce (sub_tx sub), sub_retry sub, succeeded sub))
         (new_submissions (demo_start [Inl stale_nonce, Inl rejected] 9 5)
            (sendStep scripted_node demo_params 3 0 (hd demo_recipients)
               (demo_start [Inl stale_nonce, Inl rejected] 9 5)))
         = [(5, False, False), (9, True, False)]
     \<and> logs (sendStep scripted_node demo_params 3 0 (hd demo_recipients)
               (demo_start [Inl stale_nonce, Inl rejected] 9 5))
         = [SendFailed (Label 1 3 ''0x1111...1111'') ''insufficient funds'']
     \<and> map (\<lambda>sub. (tx_nonce (sub_tx sub), sub_retry sub, succeeded sub))
         (new_submissions (demo_start [Inl stale_nonce, Inl rejected] 9 5)
            (sendStep_gui scripted_node demo_params 3 0 (hd demo_recipients)
               (demo_start [Inl stale_nonce, Inl rejected] 9 5)))
         = [(5, False, False), (9, True, False)]
     \<and> map sub_index (filter (\<lambda>sub. \<not> sub_retry sub)
            (new_submissions (demo_start [Inl stale_nonce, Inl rejected] 9 5)
               (sendLoop scripted_node demo_params 3 0 demo_recipients
                  (demo_start [Inl stale_nonce, Inl rejected] 9 5)))) = [0, 1, 2]"
    using inst [THEN conjunct1]
      inst [THEN conjunct2, THEN conjunct2, THEN conjunct2, THEN conjunct1]
      inst [THEN conjunct2, THEN conjunct2, THEN conjunct2, THEN conjunct2, THEN conjunct2, THEN conjunct2, THEN conjunct2, THEN conjunct1]
      est first cls refetch retry
    unfolding start idx
    by (simp add: succeeded_def transfer_def label rejected_def)
  let ?u = "demo_start [Inl stale_nonce] 9 5"
  let ?v = "\<lambda>script. \<lparr> sw_script = script, sw_count = 9, sw_balance = 1000000000000000000 \<rparr>"
  have est_u: "estimateGasLimit unreachable_node
               \<lparr> er_to = hd demo_recipients, er_from = sp_wallet demo_params,
                  er_value = sp_value demo_params \<rparr> GAS_LIMIT_FALLBACK (world ?u)
             = (25200, ?v [Inl stale_nonce])"
    by (simp add: demo_simps unreachable_node_def)
  have first_u: "sendTransaction unreachable_node (sp_wallet demo_params) tx
                 (?v [Inl stale_nonce]) = (Inl stale_nonce, ?v [])" for tx
    by (simp add: scripted_node_def unreachable_node_def)
  have refetch_u: "getTransactionCount unreachable_node a (?v []) = (Inl network_error, ?v [])" for a
    by (simp add: scripted_node_def unreachable_node_def)
  have start_u: "nextNonce ?u = 5" "world ?u = ?v [Inl stale_nonce]" "logs ?u = []"
    by (simp_all add: demo_start_def)
  note inst_u = stale_nonce_retry_once [where E = unreachable_node and P = demo_params
      and s = ?u and to = "hd demo_recipients" and g = 25200
      and wa = "?v [Inl stale_nonce]" and e = stale_nonce
      and wb = "?v []" and thrown = network_error and wc = "?v []"
      and len = 3 and i = 0, THEN conjunct2, THEN conjunct1]
  have given_up: "map (\<lambda>sub. (tx_nonce (sub_tx sub), sub_retry sub, succeeded sub))
     (new_submissions ?u (sendStep unreachable_node demo_params 3 0 (hd demo_recipients) ?u))
     = [(5, False, False)]
   \<and> logs (sendStep unreachable_node demo_params 3 0 (hd demo_recipients) ?u)
     = [SendFailed (Label 1 3 ''0x1111...1111'') ''could not detect network'']"
    using inst_u est_u first_u cls refetch_u
    unfolding start_u
    by (simp add: succeeded_def transfer_def label network_error_def)
  show ?thesis
    using retried given_up by simp
qed

lemma iterate_new_all:
  assumes body: "\<And>i x s. \<exists>N. submissions (f i x s) = submissions s @ N \<and> (\<forall>sub \<in> set N. Q sub)"
  shows "\<exists>N. submissions (iterate f i xs s) = submissions s @ N \<and> (\<forall>sub \<in> set N. Q sub)"
proof (induction xs arbitrary: i s)
  case Nil
  show ?case by simp
next
  case (Cons x rest)
  obtain M where M: "submissions (f i x s) = submissions s @ M" "\<forall>sub \<in> set M. Q sub"
    using body [of i x s] by blast
  obtain N where N: "submissions (iterate f (i + 1) rest (f i x s)) = submissions (f i x s) @ N"
      "\<forall>sub \<in> set N. Q sub"
    using Cons [where i = "i + 1" and s = "f i x s"] by blast
  have "submissions (iterate f i (x # rest) s) = submissions s @ (M @ N)"
    using M(1) N(1) by simp
  moreover have "\<forall>sub \<in> set (M @ N). Q sub" using M(2) N(2) by auto
  ultimately show ?case by blast
qed

lemma step_shape_gasLimit:
  assumes "step_shape E P i to g s1 s'" and "submissions s1 = submissions s"
  shows "\<exists>N. submissions s' = submissions s @ N
           \<and> (\<forall>sub \<in> set N. tx_gasLimit (sub_tx sub) = g \<and> tx_to (sub_tx sub) = to
                 \<and> tx_value (sub_tx sub) = sp_value P \<and> tx_fees (sub_tx sub) = sp_fees P)"
  using assms
  by (auto simp: step_shape_def step_summary_def observed_fields)

lemma sendStep_gasLimit:
  "\<forall>sub \<in> set (new_submissions s (sendStep E P len i to s)).
     tx_gasLimit (sub_tx sub)
       = fst (estimateGasLimit E \<lparr> er_to = to, er_from = sp_wallet P, er_value = sp_value P \<rparr>
                GAS_LIMIT_FALLBACK (world s))"
proof -
  obtain N where "submissions (sendStep E P len i to s) = submissions s @ N"
    "\<forall>sub \<in> set N. tx_gasLimit (sub_tx sub)
       = fst (estimateGasLimit E \<lparr> er_to = to, er_from = sp_wallet P, er_value = sp_value P \<rparr>
                GAS_LIMIT_FALLBACK (world s))"
    using step_shape_gasLimit [OF sendStep_shape [where s = s and E = E and P = P
        and i = i and to = to and len = len], where s = s]
    by auto
  then show ?thesis by (simp add: new_submissions_def)
qed

lemma sendLoop_gui_gasLimit:
  "\<forall>sub \<in> set (new_submissions s (sendLoop_gui E P len i rs s)). tx_gasLimit (sub_tx sub) = 21000"
proof -
  have body: "\<exists>N. submissions (let s1 = sendStep_gui E P len i to s
        in if int i < int len - 1
           then s1\<lparr> world := delay E (sp_delayMs P) (world s1) \<rparr> else s1) = submissions s @ N
       \<and> (\<forall>sub \<in> set N. tx_gasLimit (sub_tx sub) = 21000)" for i to s
    using step_shape_gasLimit [OF sendStep_gui_shape [where s = s and E = E and P = P
        and i = i and to = to and len = len], where s = s]
    by (auto simp: Let_def)
  obtain N where "submissions (sendLoop_gui E P len i rs s) = submissions s @ N"
    "\<forall>sub \<in> set N. tx_gasLimit (sub_tx sub) = 21000"
    unfolding sendLoop_gui_iterate
    using iterate_new_all [where Q = "\<lambda>sub. tx_gasLimit (sub_tx sub) = 21000"
        and f = "\<lambda>i to s. let s1 = sendStep_gui E P len i to s
                   in if int i < int len - 1
                      then s1\<lparr> world := delay E (sp_delayMs P) (world s1) \<rparr> else s1"
        and i = i and xs = rs and s = s, OF body]
    by blast
  then show ?thesis by (simp add: new_submissions_def)
qed

text \<open>
  Claim C6 as stated fails for the backend: \<^verbatim>\<open>handleSendBatch\<close> sends with the gas limit
  that \<^verbatim>\<open>estimateGasLimit\<close> returns, here the estimate 21000 with its buffer of a fifth.
\<close>

theorem gas_limit_counterexample:
  "map (\<lambda>sub. tx_gasLimit (sub_tx sub))
     (new_submissions (demo_start [] 5 5)
        (sendStep scripted_node demo_params 3 0 (hd demo_recipients) (demo_start [] 5 5)))
     = [25200]"
  by (simp add: demo_simps new_submissions_def)

text \<open>
  Claim C6, amended.  Every transaction of the frontend broadcaster carries the gas
  limit 21000, in the first submission and in a retry.  Every transaction that the
  backend broadcaster sends for a recipient, first submission and retry alike, carries
  the gas limit estimated once for that recipient: the estimate of the node plus a
  fifth of it, or 60000 when the estimation fails.
\<close>

theorem gas_limit_by_broadcaster:
  "(\<forall>sub \<in> set (new_submissions s (sendLoop_gui E P len i rs s)).
      tx_gasLimit (sub_tx sub) = 21000)
 \<and> (\<forall>sub \<in> set (new_submissions s (sendStep E P len i to s)).
      tx_gasLimit (sub_tx sub)
        = fst (estimateGasLimit E \<lparr> er_to = to, er_from = sp_wallet P, er_value = sp_value P \<rparr>
                 GAS_LIMIT_FALLBACK (world s)))
 \<and> fst (estimateGasLimit E req GAS_LIMIT_FALLBACK w)
      = (case fst (estimateGas E req w) of
           Inr estimate \<Rightarrow> if estimate \<le> 0 then estimate else estimate + estimate div 5
         | Inl error \<Rightarrow> 60000)"
proof -
  have est: "fst (estimateGasLimit E req GAS_LIMIT_FALLBACK w)
      = (case fst (estimateGas E req w) of
           Inr estimate \<Rightarrow> if estimate \<le> 0 then estimate else estimate + estimate div 5
         | Inl error \<Rightarrow> 60000)"
    by (simp add: estimateGasLimit_def addGasBuffer_def GAS_LIMIT_FALLBACK_def
          split: prod.splits sum.splits)
  show ?thesis
    using sendLoop_gui_gasLimit sendStep_gasLimit est
    by (intro conjI)
qed

text \<open>A run with one retry: four submissions in the frontend, two in the backend step.\<close>

theorem gas_limit_by_broadcaster_witness:
  "map (\<lambda>sub. tx_gasLimit (sub_tx sub))
     (new_submissions (demo_start [Inl stale_nonce] 9 5)
        (sendLoop_gui scripted_node demo_params 3 0 demo_recipients
           (demo_start [Inl stale_nonce] 9 5)))
     = [21000, 21000, 21000, 21000]
 \<and> map (\<lambda>sub. tx_gasLimit (sub_tx sub))
     (new_submissions (demo_start [Inl stale_nonce] 9 5)
        (sendStep scripted_node demo_params 3 0 (hd demo_recipients)
           (demo_start [Inl stale_nonce] 9 5)))
     = [25200, 25200]"
proof -
  let ?s = "demo_start [Inl stale_nonce] 9 5"
  have len_gui: "length (new_submissions ?s
        (sendLoop_gui scripted_node demo_params 3 0 demo_recipients ?s)) = 4"
    by (simp add: demo_simps new_submissions_def)
  have len_srv: "length (new_submissions ?s
        (sendStep scripted_node demo_params 3 0 (hd demo_recipients) ?s)) = 2"
    by (simp add: demo_simps new_submissions_def)
  have est: "fst (estimateGasLimit scripted_node
               \<lparr> er_to = hd demo_recipients, er_from = sp_wallet demo_params,
                  er_value = sp_value demo_params \<rparr> GAS_LIMIT_FALLBACK (world ?s)) = 25200"
    by (simp add: demo_simps)
  note inst = gas_limit_by_broadcaster [where s = ?s and E = scripted_node and P = demo_params
      and len = 3 and i = 0 and rs = demo_recipients and to = "hd demo_recipients"
      and req = "\<lparr> er_to = hd demo_recipients, er_from = sp_wallet demo_params,
                  er_value = sp_value demo_params \<rparr>" and w = "world ?s", unfolded est]
  have all_eq: "map f xs = replicate (length xs) c" if "\<forall>x \<in> set xs. f x = c" for f xs c
    using that by (induction xs) simp_all
  have gui: "\<forall>sub \<in> set (new_submissions ?s
        (sendLoop_gui scripted_node demo_params 3 0 demo_recipients ?s)).
      tx_gasLimit (sub_tx sub) = 21000"
    using inst by (rule conjunct1)
  have srv: "\<forall>sub \<in> set (new_submissions ?s
        (sendStep scripted_node demo_params 3 0 (hd demo_recipients) ?s)).
      tx_gasLimit (sub_tx sub) = 25200"
    using inst by (rule conjunct1 [OF conjunct2])
  have "map (\<lambda>sub. tx_gasLimit (sub_tx sub))
     (new_submissions ?s (sendLoop_gui scripted_node demo_params 3 0 demo_recipients ?s))
     = replicate 4 21000"
    using all_eq [OF gui] unfolding len_gui .
  moreover have "map (\<lambda>sub. tx_gasLimit (sub_tx sub))
     (new_submissions ?s (sendStep scripted_node demo_params 3 0 (hd demo_recipients) ?s))
     = replicate 2 25200"
    using all_eq [OF srv] unfolding len_srv .
  ultimately show ?thesis by (simp add: eval_nat_numeral)
qed

lemma reclaimStep_skip:
  assumes key: "re_privateKey entry \<noteq> []"
    and wallet: "Wallet_new E (if startsWith (re_privateKey entry) ''0x'' then re_privateKey entry
                               else ''0x'' @ re_privateKey entry) = Inr wallet"
    and nonce: "getTransactionCount E wallet (world s) = (Inr nonce, wa)"
    and bal: "getBalance E wallet wa = (Inr balance, wb)"
    and est: "estimateGasLimit E \<lparr> er_to = rp_reclaimAddress P, er_from = wallet, er_value = 1 \<rparr>
                GAS_LIMIT_FALLBACK wb = (gasLimit, wc)"
    and low: "balance - rp_reserveWei P - gasLimit * maxFeePerGas (rp_fees P) \<le> 0"
  shows "reclaimStep E P len i entry s
           = (False, s\<lparr> world := wc,
                         logs := logs s @ [InsufficientSkipped
                           (Label (i + 1) len (if re_address entry \<noteq> []
                                               then short_addr (re_address entry)
                                               else UNKNOWN_ADDRESS))] \<rparr>)"
  using assms by (simp add: reclaimStep_def Let_def)

lemma reclaimStep_skip_final:
  assumes key: "re_privateKey entry \<noteq> []"
    and wallet: "Wallet_new E (if startsWith (re_privateKey entry) ''0x'' then re_privateKey entry
                               else ''0x'' @ re_privateKey entry) = Inr wallet"
    and nonce: "getTransactionCount E wallet (world s) = (Inr nonce, wa)"
    and bal: "getBalance E wallet wa = (Inr balance, wb)"
    and est: "estimateGasLimit E \<lparr> er_to = rp_reclaimAddress P, er_from = wallet, er_value = 1 \<rparr>
                GAS_LIMIT_FALLBACK wb = (gasLimit, wc)"
    and pos: "0 < balance - rp_reserveWei P - gasLimit * maxFeePerGas (rp_fees P)"
    and est2: "estimateGasLimit E
                 \<lparr> er_to = rp_reclaimAddress P, er_from = wallet,
                    er_value = balance - rp_reserveWei P - gasLimit * maxFeePerGas (rp_fees P) \<rparr>
                 gasLimit wc = (finalGasLimit, wd)"
    and low: "balance - rp_reserveWei P - finalGasLimit * maxFeePerGas (rp_fees P) \<le> 0"
  shows "reclaimStep E P len i entry s
           = (False, s\<lparr> world := wd,
                         logs := logs s @ [InsufficientSkipped
                           (Label (i + 1) len (if re_address entry \<noteq> []
                                               then short_addr (re_address entry)
                                               else UNKNOWN_ADDRESS))] \<rparr>)"
  using assms by (simp add: reclaimStep_def Let_def)

lemma reclaimStep_gui_skip:
  assumes key: "re_privateKey account \<noteq> []"
    and wallet: "Wallet_new E (re_privateKey account) = Inr wallet"
    and nonce: "getTransactionCount E wallet (world s) = (Inr nonce, wa)"
    and bal: "getBalance E wallet wa = (Inr balance, wb)"
    and low: "balance - rp_reserveWei P - gasCost \<le> 0"
  shows "reclaimStep_gui E P gasCost len i account s
           = (False, s\<lparr> world := wb,
                         logs := logs s @ [InsufficientSkipped
                           (Label (i + 1) len (formatAddress (re_address account)))] \<rparr>)"
  using assms by (simp add: reclaimStep_gui_def Let_def)

text \<open>
  Claim C5.  When the sendable amount of an account, balance minus reserve minus gas
  cost, is not positive, the reclaim step submits no transaction, logs the skip line
  and the loop goes on with the next account.  In the backend this holds for the first
  computation and for the second one, made with the final gas estimate; in the
  frontend the gas cost is fixed before the loop.
\<close>

theorem reclaim_skips_insufficient:
  "(re_privateKey entry \<noteq> []
      \<and> Wallet_new E (if startsWith (re_privateKey entry) ''0x'' then re_privateKey entry
                       else ''0x'' @ re_privateKey entry) = Inr wallet
      \<and> getTransactionCount E wallet (world s) = (Inr nonce, wa)
      \<and> getBalance E wallet wa = (Inr balance, wb)
      \<and> estimateGasLimit E \<lparr> er_to = rp_reclaimAddress P, er_from = wallet, er_value = 1 \<rparr>
           GAS_LIMIT_FALLBACK wb = (gasLimit, wc)
      \<and> balance - rp_reserveWei P - gasLimit * maxFeePerGas (rp_fees P) \<le> 0
    \<longrightarrow> new_submissions s (snd (reclaimStep E P len i entry s)) = []
        \<and> logs (snd (reclaimStep E P len i entry s))
             = logs s @ [InsufficientSkipped
                           (Label (i + 1) len (if re_address entry \<noteq> []
                                               then short_addr (re_address entry)
                                               else UNKNOWN_ADDRESS))]
        \<and> reclaimLoop E P len i (entry # rest) s
             = reclaimLoop E P len (i + 1) rest (snd (reclaimStep E P len i entry s)))
 \<and> (re_privateKey entry \<noteq> []
      \<and> Wallet_new E (if startsWith (re_privateKey entry) ''0x'' then re_privateKey entry
                       else ''0x'' @ re_privateKey entry) = Inr wallet
      \<and> getTransactionCount E wallet (world s) = (Inr nonce, wa)
      \<and> getBalance E wallet wa = (Inr balance, wb)
      \<and> estimateGasLimit E \<lparr> er_to = rp_reclaimAddress P, er_from = wallet, er_value = 1 \<rparr>
           GAS_LIMIT_FALLBACK wb = (gasLimit, wc)
      \<and> 0 < balance - rp_reserveWei P - gasLimit * maxFeePerGas (rp_fees P)
      \<and> estimateGasLimit E
           \<lparr> er_to = rp_reclaimAddress P, er_from = wallet,
              er_value = balance - rp_reserveWei P - gasLimit * maxFeePerGas (rp_fees P) \<rparr>
           gasLimit wc = (finalGasLimit, wd)
      \<and> balance - rp_reserveWei P - finalGasLimit * maxFeePerGas (rp_fees P) \<le> 0
    \<longrightarrow> new_submissions s (snd (reclaimStep E P len i entry s)) = []
        \<and> logs (snd (reclaimStep E P len i entry s))
             = logs s @ [InsufficientSkipped
                           (Label (i + 1) len (if re_address entry \<noteq> []
                                               then short_addr (re_address entry)
                                               else UNKNOWN_ADDRESS))]
        \<and> reclaimLoop E P len i (entry # rest) s
             = reclaimLoop E P len (i + 1) rest (snd (reclaimStep E P len i entry s)))
 \<and> (re_privateKey entry \<noteq> []
      \<and> Wallet_new E (re_privateKey entry) = Inr wallet
      \<and> getTransactionCount E wallet (world s) = (Inr nonce, wa)
      \<and> getBalance E wallet wa = (Inr balance, wb)
      \<and> balance - rp_reserveWei P - gasCost \<le> 0
    \<longrightarrow> new_submissions s (snd (reclaimStep_gui E P gasCost len i entry s)) = []
        \<and> logs (snd (reclaimStep_gui E P gasCost len i entry s))
             = logs s @ [InsufficientSkipped
                           (Label (i + 1) len (formatAddress (re_address entry)))]
        \<and> reclaimLoop_gui E P gasCost len i (entry # rest) s
             = reclaimLoop_gui E P gasCost len (i + 1) rest
                 (snd (reclaimStep_gui E P gasCost len i entry s)))"
proof (intro conjI impI; elim conjE)
  assume h: "re_privateKey entry \<noteq> []"
    "Wallet_new E (if startsWith (re_privateKey entry) ''0x'' then re_privateKey entry
                       else ''0x'' @ re_privateKey entry) = Inr wallet"
    "getTransactionCount E wallet (world s) = (Inr nonce, wa)"
    "getBalance E wallet wa = (Inr balance, wb)"
    "estimateGasLimit E \<lparr> er_to = rp_reclaimAddress P, er_from = wallet, er_value = 1 \<rparr>
           GAS_LIMIT_FALLBACK wb = (gasLimit, wc)"
    "balance - rp_reserveWei P - gasLimit * maxFeePerGas (rp_fees P) \<le> 0"
  note step = reclaimStep_skip [OF h, where len = len and i = i]
  show "new_submissions s (snd (reclaimStep E P len i entry s)) = []"
    by (simp add: step new_submissions_def)
  show "logs (snd (reclaimStep E P len i entry s))
             = logs s @ [InsufficientSkipped
                           (Label (i + 1) len (if re_address entry \<noteq> []
                                               then short_addr (re_address entry)
                                               else UNKNOWN_ADDRESS))]"
    by (simp add: step)
  show "reclaimLoop E P len i (entry # rest) s
             = reclaimLoop E P len (i + 1) rest (snd (reclaimStep E P len i entry s))"
    by (simp add: step)
next
  assume h: "re_privateKey entry \<noteq> []"
    "Wallet_new E (if startsWith (re_privateKey entry) ''0x'' then re_privateKey entry
                       else ''0x'' @ re_privateKey entry) = Inr wallet"
    "getTransactionCount E wallet (world s) = (Inr nonce, wa)"
    "getBalance E wallet wa = (Inr balance, wb)"
    "estimateGasLimit E \<lparr> er_to = rp_reclaimAddress P, er_from = wallet, er_value = 1 \<rparr>
           GAS_LIMIT_FALLBACK wb = (gasLimit, wc)"
    "0 < balance - rp_reserveWei P - gasLimit * maxFeePerGas (rp_fees P)"
    "estimateGasLimit E
           \<lparr> er_to = rp_reclaimAddress P, er_from = wallet,
              er_value = balance - rp_reserveWei P - gasLimit * maxFeePerGas (rp_fees P) \<rparr>
           gasLimit wc = (finalGasLimit, wd)"
    "balance - rp_reserveWei P - finalGasLimit * maxFeePerGas (rp_fees P) \<le> 0"
  note step = reclaimStep_skip_final [OF h, where len = len and i = i]
  show "new_submissions s (snd (reclaimStep E P len i entry s)) = []"
    by (simp add: step new_submissions_def)
  show "logs (snd (reclaimStep E P len i entry s))
             = logs s @ [InsufficientSkipped
                           (Label (i + 1) len (if re_address entry \<noteq> []
                                               then short_addr (re_address entry)
                                               else UNKNOWN_ADDRESS))]"
    by (simp add: step)
  show "reclaimLoop E P len i (entry # rest) s
             = reclaimLoop E P len (i + 1) rest (snd (reclaimStep E P len i entry s))"
    by (simp add: step)
next
  assume h: "re_privateKey entry \<noteq> []"
    "Wallet_new E (re_privateKey entry) = Inr wallet"
    "getTransactionCount E wallet (world s) = (Inr nonce, wa)"
    "getBalance E wallet wa = (Inr balance, wb)"
    "balance - rp_reserveWei P - gasCost \<le> 0"
  note step = reclaimStep_gui_skip [OF h, where len = len and i = i]
  show "new_submissions s (snd (reclaimStep_gui E P gasCost len i entry s)) = []"
    by (simp add: step new_submissions_def)
  show "logs (snd (reclaimStep_gui E P gasCost len i entry s))
             = logs s @ [InsufficientSkipped
                           (Label (i + 1) len (formatAddress (re_address entry)))]"
    by (simp add: step)
  show "reclaimLoop_gui E P gasCost len i (entry # rest) s
             = reclaimLoop_gui E P gasCost len (i + 1) rest
                 (snd (reclaimStep_gui E P gasCost len i entry s))"
    by (simp add: step)
qed

lemmas reclaim_simps =
  reclaimStep_def reclaimStep_gui_def reclaimSubmit_def estimateGasLimit_def addGasBuffer_def
  GAS_LIMIT_FALLBACK_def scripted_node_def demo_entry_def demo_reclaim_def
  demo_reclaim_start_def stale_nonce_def in_flight_limit_def rejected_def
  short_addr_def formatAddress_def slice_last_def startsWith_def UNKNOWN_ADDRESS_def Let_def

text \<open>An account holding 1000 wei.\<close>

theorem reclaim_skips_insufficient_witness:
  "new_submissions (demo_reclaim_start [] 0 1000)
     (snd (reclaimStep scripted_node demo_reclaim 2 0 demo_entry (demo_reclaim_start [] 0 1000)))
     = []
 \<and> logs (snd (reclaimStep scripted_node demo_reclaim 2 0 demo_entry
                (demo_reclaim_start [] 0 1000)))
     = [InsufficientSkipped (Label 1 2 ''0x4444...4444'')]
 \<and> new_submissions (demo_reclaim_start [] 0 1000)
     (snd (reclaimStep_gui scripted_node demo_reclaim 21000000000000 2 0 demo_entry
             (demo_reclaim_start [] 0 1000)))
     = []
 \<and> logs (snd (reclaimStep_gui scripted_node demo_reclaim 21000000000000 2 0 demo_entry
                (demo_reclaim_start [] 0 1000)))
     = [InsufficientSkipped (Label 1 2 ''0x4444...4444'')]"
proof -
  let ?s = "demo_reclaim_start [] 0 1000"
  let ?w = "\<lparr> sw_script = [], sw_count = 0, sw_balance = 1000 \<rparr>"
  let ?wallet = "''0x4444444444444444444444444444444444444444''"
  have key: "re_privateKey demo_entry \<noteq> []" by (simp add: demo_entry_def)
  have w1: "Wallet_new scripted_node
              (if startsWith (re_privateKey demo_entry) ''0x'' then re_privateKey demo_entry
               else ''0x'' @ re_privateKey demo_entry) = Inr ?wallet"
    by (simp add: scripted_node_def demo_entry_def startsWith_def)
  have w2: "Wallet_new scripted_node (re_privateKey demo_entry) = Inr ?wallet"
    by (simp add: scripted_node_def demo_entry_def)
  have nonce: "getTransactionCount scripted_node ?wallet (world ?s) = (Inr 0, ?w)"
    by (simp add: scripted_node_def demo_reclaim_start_def)
  have bal: "getBalance scripted_node ?wallet ?w = (Inr 1000, ?w)"
    by (simp add: scripted_node_def)
  have est: "estimateGasLimit scripted_node
               \<lparr> er_to = rp_reclaimAddress demo_reclaim, er_from = ?wallet, er_value = 1 \<rparr>
               GAS_LIMIT_FALLBACK ?w = (25200, ?w)"
    by (simp add: estimateGasLimit_def scripted_node_def addGasBuffer_def)
  have low: "1000 - rp_reserveWei demo_reclaim - 25200 * maxFeePerGas (rp_fees demo_reclaim) \<le> 0"
    "1000 - rp_reserveWei demo_reclaim - 21000000000000 \<le> 0"
    by (simp_all add: demo_reclaim_def)
  have lbl: "short_addr (re_address demo_entry) = ''0x4444...4444''"
    "formatAddress (re_address demo_entry) = ''0x4444...4444''"
    "re_address demo_entry \<noteq> []"
    by (simp_all add: short_addr_def formatAddress_def slice_last_def demo_entry_def)
  note inst = reclaim_skips_insufficient [where E = scripted_node and P = demo_reclaim
      and entry = demo_entry and s = ?s and wallet = ?wallet and nonce = 0 and wa = ?w
      and balance = 1000 and wb = ?w and gasLimit = 25200 and wc = ?w
      and gasCost = 21000000000000 and len = 2 and i = 0 and rest = "[]"
      and finalGasLimit = 25200 and wd = ?w]
  have start: "logs ?s = []" by (simp add: demo_reclaim_start_def)
  show ?thesis
    using inst key w1 w2 nonce bal est low
    unfolding start
    by (simp add: lbl)
qed

lemma demo_errors:
  "isNonceError stale_nonce" "\<not> isInFlightLimitError stale_nonce"
  "isInFlightLimitError in_flight_limit" "\<not> isNonceError in_flight_limit"
  "\<not> isNonceError rejected" "\<not> isInFlightLimitError rejected"
  by (simp_all add: isNonceError_def isInFlightLimitError_def stale_nonce_def
        in_flight_limit_def rejected_def lower_ascii_def)

text \<open>
  Claim C7 fails for \<^verbatim>\<open>handleReclaimBatch\<close> and for the frontend's \<^verbatim>\<open>handleBatchReclaim\<close>:
  a reclaim whose submission is refused with a stale-nonce error, or with an
  in-flight-limit error, calls \<^verbatim>\<open>sendTransaction\<close> once and logs the failure as final.
\<close>

theorem reclaim_retry_counterexample:
  "isNonceError stale_nonce
 \<and> map (\<lambda>sub. (tx_nonce (sub_tx sub), sub_retry sub, sub_result sub))
     (new_submissions (demo_reclaim_start [Inl stale_nonce] 3 1000000000000000000)
        (snd (reclaimStep scripted_node demo_reclaim 2 0 demo_entry
                (demo_reclaim_start [Inl stale_nonce] 3 1000000000000000000))))
     = [(3, False, Inl stale_nonce)]
 \<and> logs (snd (reclaimStep scripted_node demo_reclaim 2 0 demo_entry
                (demo_reclaim_start [Inl stale_nonce] 3 1000000000000000000)))
     = [ReclaimFailed (Label 1 2 ''0x4444...4444'') ''nonce too low'']
 \<and> isInFlightLimitError in_flight_limit
 \<and> map (\<lambda>sub. (tx_nonce (sub_tx sub), sub_retry sub, sub_result sub))
     (new_submissions (demo_reclaim_start [Inl in_flight_limit] 3 1000000000000000000)
        (snd (reclaimStep_gui scripted_node demo_reclaim 21000000000000 2 0 demo_entry
                (demo_reclaim_start [Inl in_flight_limit] 3 1000000000000000000))))
     = [(3, False, Inl in_flight_limit)]
 \<and> logs (snd (reclaimStep_gui scripted_node demo_reclaim 21000000000000 2 0 demo_entry
                (demo_reclaim_start [Inl in_flight_limit] 3 1000000000000000000)))
     = [ReclaimFailed (Label 1 2 ''0x4444...4444'') ''in-flight transaction limit reached'']"
  by (simp add: reclaim_simps new_submissions_def demo_errors
        demo_errors [unfolded stale_nonce_def in_flight_limit_def])

lemma reclaimSubmit_effect:
  "submissions (reclaimSubmit E P i lbl wallet v g nonce s)
     = submissions s @
       [\<lparr> sub_index = i, sub_retry = False, sub_from = wallet,
          sub_tx = \<lparr> tx_to = rp_reclaimAddress P, tx_value = v, tx_gasLimit = g,
                     tx_fees = rp_fees P, tx_nonce = nonce \<rparr>,
          sub_result = fst (sendTransaction E wallet
                              \<lparr> tx_to = rp_reclaimAddress P, tx_value = v, tx_gasLimit = g,
                                 tx_fees = rp_fees P, tx_nonce = nonce \<rparr> (world s)) \<rparr>]"
  "fst (sendTransaction E wallet
          \<lparr> tx_to = rp_reclaimAddress P, tx_value = v, tx_gasLimit = g,
             tx_fees = rp_fees P, tx_nonce = nonce \<rparr> (world s)) = Inl error
   \<Longrightarrow> logs (reclaimSubmit E P i lbl wallet v g nonce s)
         = logs s @ [ReclaimFailed lbl (err_message error)]"
  by (auto simp: reclaimSubmit_def Let_def split: prod.splits sum.splits option.splits)

lemma reclaimSubmit_single:
  "single_attempt P i lbl s (reclaimSubmit E P i lbl wallet v g nonce (s\<lparr> world := w \<rparr>))"
  using reclaimSubmit_effect(2) [of E wallet P v g nonce "s\<lparr> world := w \<rparr>" _ i lbl]
  by (simp add: single_attempt_def new_submissions_def reclaimSubmit_effect(1))

lemma single_attempt_none:
  "submissions s' = submissions s \<Longrightarrow> single_attempt P i lbl s s'"
  by (simp add: single_attempt_def new_submissions_def)

lemma reclaimStep_single:
  "single_attempt P i
     (Label (i + 1) len (if re_address entry \<noteq> [] then short_addr (re_address entry)
                         else UNKNOWN_ADDRESS))
     s (snd (reclaimStep E P len i entry s))"
  by (simp add: reclaimStep_def Let_def reclaimSubmit_single single_attempt_none
        split: prod.splits sum.splits)

lemma reclaimStep_gui_single:
  "single_attempt P i (Label (i + 1) len (formatAddress (re_address account)))
     s (snd (reclaimStep_gui E P gasCost len i account s))"
  by (simp add: reclaimStep_gui_def Let_def reclaimSubmit_single single_attempt_none
        split: prod.splits sum.splits)

lemma iterate_one_per_index:
  assumes body: "\<And>i x s. \<exists>N. submissions (f i x s) = submissions s @ N \<and> length N \<le> 1
                    \<and> (\<forall>sub \<in> set N. sub_index sub = i)"
  shows "\<exists>N. submissions (iterate f i xs s) = submissions s @ N
           \<and> distinct (map sub_index N)
           \<and> (\<forall>sub \<in> set N. i \<le> sub_index sub \<and> sub_index sub < i + length xs)"
proof (induction xs arbitrary: i s)
  case Nil
  show ?case by simp
next
  case (Cons x rest)
  obtain M where M: "submissions (f i x s) = submissions s @ M" "length M \<le> 1"
      "\<forall>sub \<in> set M. sub_index sub = i"
    using body [of i x s] by blast
  obtain N where N: "submissions (iterate f (i + 1) rest (f i x s)) = submissions (f i x s) @ N"
      "distinct (map sub_index N)"
      "\<forall>sub \<in> set N. i + 1 \<le> sub_index sub \<and> sub_index sub < i + 1 + length rest"
    using Cons [where i = "i + 1" and s = "f i x s"] by blast
  have dM: "distinct (map sub_index M)"
    using M(2) by (cases M) (simp_all add: le_Suc_eq)
  have disj: "set (map sub_index M) \<inter> set (map sub_index N) = {}"
    using M(3) N(3) by fastforce
  have "submissions (iterate f i (x # rest) s) = submissions s @ (M @ N)"
    using M(1) N(1) by simp
  moreover have "distinct (map sub_index (M @ N))"
    using dM N(2) disj by simp
  moreover have "\<forall>sub \<in> set (M @ N). i \<le> sub_index sub \<and> sub_index sub < i + length (x # rest)"
    using M(3) N(3) by fastforce
  ultimately show ?case by blast
qed

lemma reclaimLoop_iterate:
  "reclaimLoop E P len i entries s =
     iterate (\<lambda>i entry s.
        case reclaimStep E P len i entry s of
          (reached_end, s1) \<Rightarrow>
            if reached_end \<and> int i < int len - 1 \<and> rp_delayMs P > 0
            then s1\<lparr> world := delay E (rp_delayMs P) (world s1) \<rparr> else s1) i entries s"
  by (induction entries arbitrary: i s) (simp_all add: Let_def split: prod.splits)

lemma reclaimLoop_gui_iterate:
  "reclaimLoop_gui E P gasCost len i entries s =
     iterate (\<lambda>i entry s.
        case reclaimStep_gui E P gasCost len i entry s of
          (reached_end, s1) \<Rightarrow>
            if reached_end \<and> int i < int len - 1
            then s1\<lparr> world := delay E (rp_delayMs P) (world s1) \<rparr> else s1) i entries s"
  by (induction entries arbitrary: i s) (simp_all add: Let_def split: prod.splits)

lemma reclaimSubmit_prefix:
  "\<exists>N. submissions (reclaimSubmit E P i lbl wallet v g nonce s) = submissions s @ N
       \<and> length N \<le> 1 \<and> (\<forall>sub \<in> set N. sub_index sub = i)"
  by (simp add: reclaimSubmit_effect(1))

lemma reclaimStep_prefix:
  "\<exists>N. submissions (snd (reclaimStep E P len i entry s)) = submissions s @ N
       \<and> length N \<le> 1 \<and> (\<forall>sub \<in> set N. sub_index sub = i)"
  using reclaimSubmit_prefix [of E P i _ _ _ _ _ "s\<lparr> world := w \<rparr>" for w]
  by (simp add: reclaimStep_def Let_def split: prod.splits sum.splits)

lemma reclaimStep_gui_prefix:
  "\<exists>N. submissions (snd (reclaimStep_gui E P gasCost len i entry s)) = submissions s @ N
       \<and> length N \<le> 1 \<and> (\<forall>sub \<in> set N. sub_index sub = i)"
  using reclaimSubmit_prefix [of E P i _ _ _ _ _ "s\<lparr> world := w \<rparr>" for w]
  by (simp add: reclaimStep_gui_def Let_def split: prod.splits sum.splits)

lemma reclaimLoop_one_per_account:
  "distinct (map sub_index (new_submissions s (reclaimLoop E P len i entries s)))
 \<and> (\<forall>sub \<in> set (new_submissions s (reclaimLoop E P len i entries s)).
        i \<le> sub_index sub \<and> sub_index sub < i + length entries)"
proof -
  have body: "\<exists>N. submissions (case reclaimStep E P len i entry s of
          (reached_end, s1) \<Rightarrow>
            if reached_end \<and> int i < int len - 1 \<and> rp_delayMs P > 0
            then s1\<lparr> world := delay E (rp_delayMs P) (world s1) \<rparr> else s1) = submissions s @ N
        \<and> length N \<le> 1 \<and> (\<forall>sub \<in> set N. sub_index sub = i)" for i entry s
    using reclaimStep_prefix [of E P len i entry s]
    by (cases "reclaimStep E P len i entry s") simp
  obtain N where "submissions (reclaimLoop E P len i entries s) = submissions s @ N"
    "distinct (map sub_index N)"
    "\<forall>sub \<in> set N. i \<le> sub_index sub \<and> sub_index sub < i + length entries"
    unfolding reclaimLoop_iterate
    using iterate_one_per_index [where f = "\<lambda>i entry s.
        case reclaimStep E P len i entry s of
          (reached_end, s1) \<Rightarrow>
            if reached_end \<and> int i < int len - 1 \<and> rp_delayMs P > 0
            then s1\<lparr> world := delay E (rp_delayMs P) (world s1) \<rparr> else s1"
        and i = i and xs = entries and s = s, OF body]
    by blast
  then show ?thesis by (simp add: new_submissions_def)
qed

lemma reclaimLoop_gui_one_per_account:
  "distinct (map sub_index (new_submissions s (reclaimLoop_gui E P gasCost len i entries s)))
 \<and> (\<forall>sub \<in> set (new_submissions s (reclaimLoop_gui E P gasCost len i entries s)).
        i \<le> sub_index sub \<and> sub_index sub < i + length entries)"
proof -
  have body: "\<exists>N. submissions (case reclaimStep_gui E P gasCost len i entry s of
          (reached_end, s1) \<Rightarrow>
            if reached_end \<and> int i < int len - 1
            then s1\<lparr> world := delay E (rp_delayMs P) (world s1) \<rparr> else s1) = submissions s @ N
        \<and> length N \<le> 1 \<and> (\<forall>sub \<in> set N. sub_index sub = i)" for i entry s
    using reclaimStep_gui_prefix [of E P gasCost len i entry s]
    by (cases "reclaimStep_gui E P gasCost len i entry s") simp
  obtain N where "submissions (reclaimLoop_gui E P gasCost len i entries s) = submissions s @ N"
    "distinct (map sub_index N)"
    "\<forall>sub \<in> set N. i \<le> sub_index sub \<and> sub_index sub < i + length entries"
    unfolding reclaimLoop_gui_iterate
    using iterate_one_per_index [where f = "\<lambda>i entry s.
        case reclaimStep_gui E P gasCost len i entry s of
          (reached_end, s1) \<Rightarrow>
            if reached_end \<and> int i < int len - 1
            then s1\<lparr> world := delay E (rp_delayMs P) (world s1) \<rparr> else s1"
        and i = i and xs = entries and s = s, OF body]
    by blast
  then show ?thesis by (simp add: new_submissions_def)
qed

lemma reclaimSend_failed:
  assumes "sendTransaction E wallet (reclaim_transfer P v g n) (world s) = (Inl e, wb)"
  shows "reclaimSend E P i rt lbl wallet v g n s
           = (Some e, s\<lparr> world := wb,
                          submissions := submissions s @
                            [\<lparr> sub_index = i, sub_retry = rt, sub_from = wallet,
                               sub_tx = reclaim_transfer P v g n, sub_result = Inl e \<rparr>] \<rparr>)"
  using assms by (simp add: reclaimSend_def reclaim_transfer_def Let_def)

lemma reclaimSend_submissions:
  assumes "sendTransaction E wallet (reclaim_transfer P v g n) (world s) = (res, wb)"
  shows "submissions (snd (reclaimSend E P i rt lbl wallet v g n s))
           = submissions s @
               [\<lparr> sub_index = i, sub_retry = rt, sub_from = wallet,
                  sub_tx = reclaim_transfer P v g n, sub_result = res \<rparr>]"
  using assms
  by (cases res) (auto simp: reclaimSend_def reclaim_transfer_def Let_def split: prod.splits option.splits)

lemma reclaimSend_failed_logs:
  assumes "sendTransaction E wallet (reclaim_transfer P v g n) (world s) = (Inl e, wb)"
  shows "logs (snd (reclaimSend E P i rt lbl wallet v g n s)) = logs s"
    and "fst (reclaimSend E P i rt lbl wallet v g n s) = Some e"
  using assms by (simp_all add: reclaimSend_failed)

lemma reclaimSubmit_api_retry:
  assumes first: "sendTransaction E wallet (reclaim_transfer P v g nonce) (world s) = (Inl e, wb)"
    and cls: "isNonceError e \<or> isInFlightLimitError e"
    and refetch: "getTransactionCount E wallet
                    (if isInFlightLimitError e then delay E (max (rp_delayMs P) 2000) wb else wb)
                    = (Inr n, wc)"
    and retry: "sendTransaction E wallet (reclaim_transfer P v g n) wc = (res, wd)"
  shows "new_submissions s (reclaimSubmit_api E P i lbl wallet v g nonce s)
           = [\<lparr> sub_index = i, sub_retry = False, sub_from = wallet,
                sub_tx = reclaim_transfer P v g nonce, sub_result = Inl e \<rparr>,
              \<lparr> sub_index = i, sub_retry = True, sub_from = wallet,
                sub_tx = reclaim_transfer P v g n, sub_result = res \<rparr>]"
    and "\<And>err. res = Inl err \<Longrightarrow>
           logs (reclaimSubmit_api E P i lbl wallet v g nonce s)
             = logs s @ (if isInFlightLimitError e then [WaitingInFlight lbl] else [])
                 @ [ReclaimFailed lbl (err_message err)]"
    and "\<And>h. res = Inr h \<Longrightarrow> \<not> rp_waitConfirm P \<Longrightarrow>
           logs (reclaimSubmit_api E P i lbl wallet v g nonce s)
             = logs s @ (if isInFlightLimitError e then [WaitingInFlight lbl] else [])
                 @ [RetrySubmitted lbl h]"
  using assms
  by (auto simp: reclaimSubmit_api_def reclaimSend_def reclaim_transfer_def Let_def
        new_submissions_def split: sum.splits prod.splits option.splits if_splits)

lemma reclaimSubmit_api_refetch_fails:
  assumes first: "sendTransaction E wallet (reclaim_transfer P v g nonce) (world s) = (Inl e, wb)"
    and cls: "isNonceError e \<or> isInFlightLimitError e"
    and refetch: "getTransactionCount E wallet
                    (if isInFlightLimitError e then delay E (max (rp_delayMs P) 2000) wb else wb)
                    = (Inl err, wc)"
  shows "new_submissions s (reclaimSubmit_api E P i lbl wallet v g nonce s)
           = [\<lparr> sub_index = i, sub_retry = False, sub_from = wallet,
                sub_tx = reclaim_transfer P v g nonce, sub_result = Inl e \<rparr>]"
    and "logs (reclaimSubmit_api E P i lbl wallet v g nonce s)
             = logs s @ (if isInFlightLimitError e then [WaitingInFlight lbl] else [])
                 @ [ReclaimFailed lbl (err_message err)]"
  using assms
  by (auto simp: reclaimSubmit_api_def reclaimSend_def reclaim_transfer_def Let_def
        new_submissions_def split: sum.splits prod.splits option.splits if_splits)

lemma reclaimSubmit_api_other:
  assumes first: "sendTransaction E wallet (reclaim_transfer P v g nonce) (world s) = (Inl e, wb)"
    and cls: "\<not> isNonceError e" "\<not> isInFlightLimitError e"
  shows "new_submissions s (reclaimSubmit_api E P i lbl wallet v g nonce s)
           = [\<lparr> sub_index = i, sub_retry = False, sub_from = wallet,
                sub_tx = reclaim_transfer P v g nonce, sub_result = Inl e \<rparr>]"
    and "logs (reclaimSubmit_api E P i lbl wallet v g nonce s)
             = logs s @ [ReclaimFailed lbl (err_message e)]"
  using assms
  by (auto simp: reclaimSubmit_api_def reclaimSend_def reclaim_transfer_def Let_def
        new_submissions_def split: sum.splits prod.splits option.splits if_splits)

lemma reclaimSubmit_plain:
  assumes first: "sendTransaction E wallet (reclaim_transfer P v g nonce) (world s) = (Inl e, wb)"
  shows "new_submissions s (reclaimSubmit E P i lbl wallet v g nonce s)
           = [\<lparr> sub_index = i, sub_retry = False, sub_from = wallet,
                sub_tx = reclaim_transfer P v g nonce, sub_result = Inl e \<rparr>]"
    and "logs (reclaimSubmit E P i lbl wallet v g nonce s)
             = logs s @ [ReclaimFailed lbl (err_message e)]"
  using assms
  by (auto simp: reclaimSubmit_def reclaim_transfer_def Let_def new_submissions_def)

lemmas api_simps =
  reclaimStep_api_def reclaimSubmit_api_def reclaimSend_def racing_node_def

text \<open>
  Claim C7 against the code.  In \<^verbatim>\<open>handleReclaimBatch\<close> and in the frontend's
  \<^verbatim>\<open>handleBatchReclaim\<close> a step calls \<^verbatim>\<open>sendTransaction\<close> at most once, for its own
  account and not as a retry, and when the call fails, with an error of any class, the
  step ends with the failure line for that account; a run submits at most once per
  account, and after every step the loop goes on with the remaining accounts.  The
  reclaim handler of the serverless API does what the claim says: after a failure of
  the stale-nonce or of the in-flight class (for the latter after the sleep) it fetches
  the pending nonce again and, when the query answers, sends the same transfer once more
  with the fetched nonce.
\<close>

theorem reclaim_retry_divergence:
  "length (new_submissions s (snd (reclaimStep E P len i entry s))) \<le> 1
 \<and> (\<forall>sub \<in> set (new_submissions s (snd (reclaimStep E P len i entry s))).
       sub_index sub = i \<and> \<not> sub_retry sub \<and> tx_to (sub_tx sub) = rp_reclaimAddress P
       \<and> (\<forall>error. sub_result sub = Inl error \<longrightarrow>
             logs (snd (reclaimStep E P len i entry s))
               = logs s @ [ReclaimFailed
                             (Label (i + 1) len (if re_address entry \<noteq> []
                                                 then short_addr (re_address entry)
                                                 else UNKNOWN_ADDRESS))
                             (err_message error)]))
 \<and> length (new_submissions s (snd (reclaimStep_gui E P gasCost len i entry s))) \<le> 1
 \<and> (\<forall>sub \<in> set (new_submissions s (snd (reclaimStep_gui E P gasCost len i entry s))).
       sub_index sub = i \<and> \<not> sub_retry sub \<and> tx_to (sub_tx sub) = rp_reclaimAddress P
       \<and> (\<forall>error. sub_result sub = Inl error \<longrightarrow>
             logs (snd (reclaimStep_gui E P gasCost len i entry s))
               = logs s @ [ReclaimFailed (Label (i + 1) len (formatAddress (re_address entry)))
                             (err_message error)]))
 \<and> distinct (map sub_index (new_submissions s (reclaimLoop E P len i entries s)))
 \<and> (\<forall>sub \<in> set (new_submissions s (reclaimLoop E P len i entries s)).
        i \<le> sub_index sub \<and> sub_index sub < i + length entries)
 \<and> distinct (map sub_index (new_submissions s (reclaimLoop_gui E P gasCost len i entries s)))
 \<and> (\<forall>sub \<in> set (new_submissions s (reclaimLoop_gui E P gasCost len i entries s)).
        i \<le> sub_index sub \<and> sub_index sub < i + length entries)
 \<and> (\<exists>s1. logs s1 = logs (snd (reclaimStep E P len i entry s))
         \<and> submissions s1 = submissions (snd (reclaimStep E P len i entry s))
         \<and> reclaimLoop E P len i (entry # rest) s = reclaimLoop E P len (i + 1) rest s1)
 \<and> (\<exists>s1. logs s1 = logs (snd (reclaimStep_gui E P gasCost len i entry s))
         \<and> submissions s1 = submissions (snd (reclaimStep_gui E P gasCost len i entry s))
         \<and> reclaimLoop_gui E P gasCost len i (entry # rest) s
             = reclaimLoop_gui E P gasCost len (i + 1) rest s1)
 \<and> (sendTransaction E wallet (reclaim_transfer P v g nonce) (world s) = (Inl e, wb)
    \<longrightarrow> new_submissions s (reclaimSubmit E P i lbl wallet v g nonce s)
           = [\<lparr> sub_index = i, sub_retry = False, sub_from = wallet,
                sub_tx = reclaim_transfer P v g nonce, sub_result = Inl e \<rparr>]
        \<and> logs (reclaimSubmit E P i lbl wallet v g nonce s)
           = logs s @ [ReclaimFailed lbl (err_message e)])
 \<and> (sendTransaction E wallet (reclaim_transfer P v g nonce) (world s) = (Inl e, wb)
      \<and> (isNonceError e \<or> isInFlightLimitError e)
      \<and> getTransactionCount E wallet
           (if isInFlightLimitError e then delay E (max (rp_delayMs P) 2000) wb else wb)
         = (Inr n, wc)
      \<and> sendTransaction E wallet (reclaim_transfer P v g n) wc = (res, wd)
    \<longrightarrow> new_submissions s (reclaimSubmit_api E P i lbl wallet v g nonce s)
           = [\<lparr> sub_index = i, sub_retry = False, sub_from = wallet,
                sub_tx = reclaim_transfer P v g nonce, sub_result = Inl e \<rparr>,
              \<lparr> sub_index = i, sub_retry = True, sub_from = wallet,
                sub_tx = reclaim_transfer P v g n, sub_result = res \<rparr>]
        \<and> (\<forall>err. res = Inl err \<longrightarrow>
              logs (reclaimSubmit_api E P i lbl wallet v g nonce s)
                = logs s @ (if isInFlightLimitError e then [WaitingInFlight lbl] else [])
                    @ [ReclaimFailed lbl (err_message err)]))"
proof -
  note a = reclaimStep_single [of P i len entry s E, unfolded single_attempt_def]
  note b = reclaimStep_gui_single [of P i len entry s E gasCost, unfolded single_attempt_def]
  note c = reclaimLoop_one_per_account [of s E P len i entries]
  note d = reclaimLoop_gui_one_per_account [of s E P gasCost len i entries]
  have e: "\<exists>s1. logs s1 = logs (snd (reclaimStep E P len i entry s))
         \<and> submissions s1 = submissions (snd (reclaimStep E P len i entry s))
         \<and> reclaimLoop E P len i (entry # rest) s = reclaimLoop E P len (i + 1) rest s1"
  proof -
    obtain r s1 where st: "reclaimStep E P len i entry s = (r, s1)"
      by (cases "reclaimStep E P len i entry s")
    let ?s2 = "if r \<and> int i < int len - 1 \<and> rp_delayMs P > 0
               then s1\<lparr> world := delay E (rp_delayMs P) (world s1) \<rparr> else s1"
    have "reclaimLoop E P len i (entry # rest) s = reclaimLoop E P len (i + 1) rest ?s2"
      by (simp add: st Let_def)
    then show ?thesis
      unfolding st by (intro exI [of _ ?s2]) simp
  qed
  have f: "\<exists>s1. logs s1 = logs (snd (reclaimStep_gui E P gasCost len i entry s))
         \<and> submissions s1 = submissions (snd (reclaimStep_gui E P gasCost len i entry s))
         \<and> reclaimLoop_gui E P gasCost len i (entry # rest) s
             = reclaimLoop_gui E P gasCost len (i + 1) rest s1"
  proof -
    obtain r s1 where st: "reclaimStep_gui E P gasCost len i entry s = (r, s1)"
      by (cases "reclaimStep_gui E P gasCost len i entry s")
    let ?s2 = "if r \<and> int i < int len - 1
               then s1\<lparr> world := delay E (rp_delayMs P) (world s1) \<rparr> else s1"
    have "reclaimLoop_gui E P gasCost len i (entry # rest) s
            = reclaimLoop_gui E P gasCost len (i + 1) rest ?s2"
      by (simp add: st Let_def)
    then show ?thesis
      unfolding st by (intro exI [of _ ?s2]) simp
  qed
  have old: "length (new_submissions s (snd (reclaimStep E P len i entry s))) \<le> 1
     \<and> (\<forall>sub \<in> set (new_submissions s (snd (reclaimStep E P len i entry s))).
           sub_index sub = i \<and> \<not> sub_retry sub \<and> tx_to (sub_tx sub) = rp_reclaimAddress P
           \<and> (\<forall>error. sub_result sub = Inl error \<longrightarrow>
                 logs (snd (reclaimStep E P len i entry s))
                   = logs s @ [ReclaimFailed
                                 (Label (i + 1) len (if re_address entry \<noteq> []
                                                     then short_addr (re_address entry)
                                                     else UNKNOWN_ADDRESS))
                                 (err_message error)]))
     \<and> length (new_submissions s (snd (reclaimStep_gui E P gasCost len i entry s))) \<le> 1
     \<and> (\<forall>sub \<in> set (new_submissions s (snd (reclaimStep_gui E P gasCost len i entry s))).
           sub_index sub = i \<and> \<not> sub_retry sub \<and> tx_to (sub_tx sub) = rp_reclaimAddress P
           \<and> (\<forall>error. sub_result sub = Inl error \<longrightarrow>
                 logs (snd (reclaimStep_gui E P gasCost len i entry s))
                   = logs s @ [ReclaimFailed (Label (i + 1) len (formatAddress (re_address entry)))
                                 (err_message error)]))
     \<and> distinct (map sub_index (new_submissions s (reclaimLoop E P len i entries s)))
     \<and> (\<forall>sub \<in> set (new_submissions s (reclaimLoop E P len i entries s)).
            i \<le> sub_index sub \<and> sub_index sub < i + length entries)
     \<and> distinct (map sub_index (new_submissions s (reclaimLoop_gui E P gasCost len i entries s)))
     \<and> (\<forall>sub \<in> set (new_submissions s (reclaimLoop_gui E P gasCost len i entries s)).
            i \<le> sub_index sub \<and> sub_index sub < i + length entries)
     \<and> (\<exists>s1. logs s1 = logs (snd (reclaimStep E P len i entry s))
             \<and> submissions s1 = submissions (snd (reclaimStep E P len i entry s))
             \<and> reclaimLoop E P len i (entry # rest) s = reclaimLoop E P len (i + 1) rest s1)
     \<and> (\<exists>s1. logs s1 = logs (snd (reclaimStep_gui E P gasCost len i entry s))
             \<and> submissions s1 = submissions (snd (reclaimStep_gui E P gasCost len i entry s))
             \<and> reclaimLoop_gui E P gasCost len i (entry # rest) s
                 = reclaimLoop_gui E P gasCost len (i + 1) rest s1)"
    using a b c d e f by (intro conjI) blast+
  have plain: "new_submissions s (reclaimSubmit E P i lbl wallet v g nonce s)
           = [\<lparr> sub_index = i, sub_retry = False, sub_from = wallet,
                sub_tx = reclaim_transfer P v g nonce, sub_result = Inl e \<rparr>]
        \<and> logs (reclaimSubmit E P i lbl wallet v g nonce s)
           = logs s @ [ReclaimFailed lbl (err_message e)]"
    if "sendTransaction E wallet (reclaim_transfer P v g nonce) (world s) = (Inl e, wb)"
    using reclaimSubmit_plain [OF that, where i = i and lbl = lbl] by blast
  have api: "new_submissions s (reclaimSubmit_api E P i lbl wallet v g nonce s)
           = [\<lparr> sub_index = i, sub_retry = False, sub_from = wallet,
                sub_tx = reclaim_transfer P v g nonce, sub_result = Inl e \<rparr>,
              \<lparr> sub_index = i, sub_retry = True, sub_from = wallet,
                sub_tx = reclaim_transfer P v g n, sub_result = res \<rparr>]
        \<and> (\<forall>err. res = Inl err \<longrightarrow>
              logs (reclaimSubmit_api E P i lbl wallet v g nonce s)
                = logs s @ (if isInFlightLimitError e then [WaitingInFlight lbl] else [])
                    @ [ReclaimFailed lbl (err_message err)])"
    if "sendTransaction E wallet (reclaim_transfer P v g nonce) (world s) = (Inl e, wb)
      \<and> (isNonceError e \<or> isInFlightLimitError e)
      \<and> getTransactionCount E wallet
           (if isInFlightLimitError e then delay E (max (rp_delayMs P) 2000) wb else wb)
         = (Inr n, wc)
      \<and> sendTransaction E wallet (reclaim_transfer P v g n) wc = (res, wd)"
  proof -
    from that have h: "sendTransaction E wallet (reclaim_transfer P v g nonce) (world s) = (Inl e, wb)"
      "isNonceError e \<or> isInFlightLimitError e"
      "getTransactionCount E wallet
           (if isInFlightLimitError e then delay E (max (rp_delayMs P) 2000) wb else wb)
         = (Inr n, wc)"
      "sendTransaction E wallet (reclaim_transfer P v g n) wc = (res, wd)"
      by simp_all
    show ?thesis
      using reclaimSubmit_api_retry(1,2) [OF h, where i = i and lbl = lbl] by blast
  qed
  show ?thesis
    using old plain api by blast
qed

text \<open>
  Two accounts; the submission of the first is refused with a stale nonce.  On the node
  where a refused submission leaves the pending nonce one higher, the handler of the API
  sends again with nonce 4, and \<^verbatim>\<open>handleReclaimBatch\<close> stops after the refusal.
\<close>

theorem reclaim_retry_divergence_witness:
  "length (new_submissions (demo_reclaim_start [Inl stale_nonce] 3 1000000000000000000)
     (snd (reclaimStep scripted_node demo_reclaim 2 0 demo_entry
             (demo_reclaim_start [Inl stale_nonce] 3 1000000000000000000)))) \<le> 1
 \<and> map sub_result
     (new_submissions (demo_reclaim_start [Inl stale_nonce] 3 1000000000000000000)
        (snd (reclaimStep scripted_node demo_reclaim 2 0 demo_entry
                (demo_reclaim_start [Inl stale_nonce] 3 1000000000000000000))))
     = [Inl stale_nonce]
 \<and> logs (snd (reclaimStep scripted_node demo_reclaim 2 0 demo_entry
                (demo_reclaim_start [Inl stale_nonce] 3 1000000000000000000)))
     = [ReclaimFailed (Label 1 2 ''0x4444...4444'') ''nonce too low'']
 \<and> map (\<lambda>sub. (sub_index sub, succeeded sub))
     (new_submissions (demo_reclaim_start [Inl stale_nonce] 3 1000000000000000000)
        (reclaimLoop scripted_node demo_reclaim 2 0 [demo_entry, demo_entry]
           (demo_reclaim_start [Inl stale_nonce] 3 1000000000000000000)))
     = [(0, False), (1, True)]
 \<and> map (\<lambda>sub. (tx_nonce (sub_tx sub), sub_retry sub, succeeded sub))
     (new_submissions (demo_reclaim_start [Inl stale_nonce] 3 1000000000000000000)
        (reclaimSubmit_api racing_node demo_reclaim 0 (Label 1 2 ''0x4444...4444'')
           ''0x4444444444444444444444444444444444444444'' 999974700000000000 25200 3
           (demo_reclaim_start [Inl stale_nonce] 3 1000000000000000000)))
     = [(3, False, False), (4, True, True)]
 \<and> map (\<lambda>sub. (tx_nonce (sub_tx sub), sub_retry sub, succeeded sub))
     (new_submissions (demo_reclaim_start [Inl stale_nonce] 3 1000000000000000000)
        (snd (reclaimStep_api racing_node demo_reclaim 2 0 demo_entry
                (demo_reclaim_start [Inl stale_nonce] 3 1000000000000000000))))
     = [(3, False, False), (4, True, True)]
 \<and> map (\<lambda>sub. (tx_nonce (sub_tx sub), sub_retry sub, succeeded sub))
     (new_submissions (demo_reclaim_start [Inl stale_nonce] 3 1000000000000000000)
        (snd (reclaimStep racing_node demo_reclaim 2 0 demo_entry
                (demo_reclaim_start [Inl stale_nonce] 3 1000000000000000000))))
     = [(3, False, False)]"
proof -
  let ?s = "demo_reclaim_start [Inl stale_nonce] 3 1000000000000000000"
  note inst = reclaim_retry_divergence [where s = ?s and E = scripted_node and P = demo_reclaim
      and len = 2 and i = 0 and entry = demo_entry and gasCost = 21000000000000
      and entries = "[demo_entry, demo_entry]" and rest = "[demo_entry]"]
  have one: "length (new_submissions ?s
     (snd (reclaimStep scripted_node demo_reclaim 2 0 demo_entry ?s))) \<le> 1"
    using inst by (rule conjunct1)
  have res: "map sub_result (new_submissions ?s
        (snd (reclaimStep scripted_node demo_reclaim 2 0 demo_entry ?s))) = [Inl stale_nonce]"
    by (simp add: reclaim_simps new_submissions_def)
  have lg: "logs (snd (reclaimStep scripted_node demo_reclaim 2 0 demo_entry ?s))
     = [ReclaimFailed (Label 1 2 ''0x4444...4444'') ''nonce too low'']"
    by (simp add: reclaim_simps)
  have run: "map (\<lambda>sub. (sub_index sub, succeeded sub))
     (new_submissions ?s
        (reclaimLoop scripted_node demo_reclaim 2 0 [demo_entry, demo_entry] ?s))
     = [(0, False), (1, True)]"
    by (simp add: reclaim_simps new_submissions_def succeeded_def)
  let ?w = "\<lambda>script count. \<lparr> sw_script = script, sw_count = count,
                               sw_balance = 1000000000000000000 \<rparr>"
  have first: "sendTransaction racing_node a tx (world ?s) = (Inl stale_nonce, ?w [] 4)" for a tx
    by (simp add: racing_node_def scripted_node_def demo_reclaim_start_def)
  have refetch: "getTransactionCount racing_node a
                   (if isInFlightLimitError stale_nonce
                    then delay racing_node (max (rp_delayMs demo_reclaim) 2000) (?w [] 4)
                    else ?w [] 4) = (Inr 4, ?w [] 4)" for a
    by (simp add: racing_node_def scripted_node_def demo_errors)
  have retry: "sendTransaction racing_node a tx (?w [] 4) = (Inr ''0xabc'', ?w [] 4)" for a tx
    by (simp add: racing_node_def scripted_node_def)
  note api = reclaim_retry_divergence [where s = ?s and E = racing_node and P = demo_reclaim
      and i = 0 and lbl = "Label 1 2 ''0x4444...4444''"
      and wallet = "''0x4444444444444444444444444444444444444444''"
      and v = 999974700000000000 and g = 25200 and nonce = 3 and e = stale_nonce
      and wb = "?w [] 4" and n = 4 and wc = "?w [] 4" and res = "Inr ''0xabc''"
      and wd = "?w [] 4", THEN conjunct2, THEN conjunct2, THEN conjunct2, THEN conjunct2, THEN conjunct2, THEN conjunct2, THEN conjunct2, THEN conjunct2, THEN conjunct2, THEN conjunct2, THEN conjunct2, THEN mp, THEN conjunct1]
  have again: "map (\<lambda>sub. (tx_nonce (sub_tx sub), sub_retry sub, succeeded sub))
     (new_submissions ?s
        (reclaimSubmit_api racing_node demo_reclaim 0 (Label 1 2 ''0x4444...4444'')
           ''0x4444444444444444444444444444444444444444'' 999974700000000000 25200 3 ?s))
     = [(3, False, False), (4, True, True)]"
    using api first refetch retry demo_errors(1)
    by (simp add: succeeded_def reclaim_transfer_def stale_nonce_def)
  have steps: "map (\<lambda>sub. (tx_nonce (sub_tx sub), sub_retry sub, succeeded sub))
     (new_submissions ?s (snd (reclaimStep_api racing_node demo_reclaim 2 0 demo_entry ?s)))
     = [(3, False, False), (4, True, True)]"
    "map (\<lambda>sub. (tx_nonce (sub_tx sub), sub_retry sub, succeeded sub))
     (new_submissions ?s (snd (reclaimStep racing_node demo_reclaim 2 0 demo_entry ?s)))
     = [(3, False, False)]"
    by (simp_all add: api_simps reclaim_simps new_submissions_def succeeded_def demo_errors
          demo_errors [unfolded stale_nonce_def in_flight_limit_def])
  show ?thesis using one res lg run again steps by (intro conjI)
qed
end
